(* ===== verification/Prelude.thy ===== *)
theory Prelude
  imports Main "HOL-Library.AList"
begin

text \<open>
  Shared vocabulary of the development. Go strings and byte slices are both byte sequences and are
  modelled by \<^typ>\<open>string\<close> (a list of 8-bit characters). A Go map whose size or iteration matters is
  an association list with distinct keys; the lemmas below relate it to the partial function it
  denotes. A fallible Go call \<open>(x, err)\<close> is a value of the sum type \<open>goerr + 'a\<close> and a call that only
  returns an error is a \<open>goerr option\<close> (\<open>None\<close> is Go's nil error).
\<close>

section \<open>Collections used by the component proofs\<close>

named_theorems alist_simps \<open>association lists as finite maps\<close>
named_theorems sentinel_defs \<open>the error sentinels of the library\<close>
named_theorems time_simps \<open>arithmetic of Go times and durations inside their ranges\<close>

section \<open>Association lists as Go maps\<close>

type_synonym ('k, 'v) gomap = "('k \<times> 'v) list"

definition wf_gomap :: "('k, 'v) gomap \<Rightarrow> bool" where
  "wf_gomap m \<longleftrightarrow> distinct (map fst m)"

lemma wf_gomap_Nil [simp, intro]: "wf_gomap []"
  by (simp add: wf_gomap_def)

lemma wf_gomap_update [simp, intro]: "wf_gomap m \<Longrightarrow> wf_gomap (AList.update k v m)"
  by (simp add: wf_gomap_def distinct_update)

lemma wf_gomap_delete [simp, intro]: "wf_gomap m \<Longrightarrow> wf_gomap (AList.delete k m)"
  by (simp add: wf_gomap_def distinct_delete)

lemma wf_gomap_filter [simp, intro]: "wf_gomap m \<Longrightarrow> wf_gomap (filter P m)"
  by (simp add: wf_gomap_def distinct_map_filter)

lemmas [alist_simps] = update_conv' delete_conv'

lemma wf_gomap_lookup: "wf_gomap m \<Longrightarrow> map_of m k = Some v \<longleftrightarrow> (k, v) \<in> set m"
  by (simp add: wf_gomap_def)

lemma map_of_filter_gomap [alist_simps]:
  assumes "wf_gomap m"
  shows "map_of (filter P m) k =
    (case map_of m k of None \<Rightarrow> None | Some v \<Rightarrow> if P (k, v) then Some v else None)"
proof (cases "map_of (filter P m) k")
  case None
  have "wf_gomap (filter P m)" using assms by simp
  with None assms show ?thesis
    by (auto split: option.splits simp: map_of_eq_None_iff wf_gomap_lookup image_iff)
next
  case (Some v)
  then have "(k, v) \<in> set m" and "P (k, v)" by (auto dest: map_of_SomeD)
  with Some assms show ?thesis by (simp add: wf_gomap_lookup [symmetric])
qed

text \<open>Number of entries of a Go map that satisfy a predicate, as a cardinality.\<close>

lemma length_filter_gomap:
  assumes "wf_gomap m"
  shows "length (filter P m) = card {k. \<exists>v. map_of m k = Some v \<and> P (k, v)}"
proof -
  have wf: "wf_gomap (filter P m)" using assms by simp
  have "length (filter P m) = card (fst ` set (filter P m))"
    using wf by (metis distinct_card length_map list.set_map wf_gomap_def)
  also have "fst ` set (filter P m) = {k. \<exists>v. map_of m k = Some v \<and> P (k, v)}"
    using assms by (force simp: wf_gomap_lookup)
  finally show ?thesis .
qed

lemma length_update_gomap:
  "length (AList.update k v m) = (if k \<in> fst ` set m then length m else Suc (length m))"
  by (induction m) auto

lemma filter_update_other:
  "(\<And>v'. (k, v') \<in> set m \<Longrightarrow> \<not> P (k, v')) \<Longrightarrow> \<not> P (k, v) \<Longrightarrow>
   filter P (AList.update k v m) = filter P m"
  by (induction m) auto

lemma length_filter_update_le:
  "length (filter P (AList.update k v m)) \<le> Suc (length (filter P m))"
  by (induction m) auto

lemma length_filter_delete_le:
  "length (filter P (AList.delete k m)) \<le> length (filter P m)"
  by (induction m) auto

lemma filter_delete_comm: "filter P (AList.delete k m) = AList.delete k (filter P m)"
  by (induction m) auto

section \<open>First element that satisfies a condition\<close>

text \<open>The shape of every Go loop that returns at the first hit.\<close>

fun first_some :: "('a \<Rightarrow> 'b option) \<Rightarrow> 'a list \<Rightarrow> 'b option" where
  "first_some f [] = None"
| "first_some f (x # xs) = (case f x of Some y \<Rightarrow> Some y | None \<Rightarrow> first_some f xs)"

lemma first_some_None [simp]: "first_some f xs = None \<longleftrightarrow> (\<forall>x \<in> set xs. f x = None)"
  by (induction xs) (auto split: option.splits)

lemma first_some_Some:
  "first_some f xs = Some y \<longleftrightarrow>
   (\<exists>ys x zs. xs = ys @ x # zs \<and> f x = Some y \<and> (\<forall>u \<in> set ys. f u = None))"
proof (induction xs)
  case Nil
  then show ?case by simp
next
  case (Cons a xs)
  show ?case
  proof (cases "f a")
    case None
    have "(\<exists>ys x zs. a # xs = ys @ x # zs \<and> f x = Some y \<and> (\<forall>u \<in> set ys. f u = None))
        \<longleftrightarrow> (\<exists>ys x zs. xs = ys @ x # zs \<and> f x = Some y \<and> (\<forall>u \<in> set ys. f u = None))"
      (is "?L \<longleftrightarrow> ?R")
    proof
      assume ?L
      then obtain ys x zs where *: "a # xs = ys @ x # zs" "f x = Some y" "\<forall>u \<in> set ys. f u = None"
        by blast
      with None obtain ys' where "ys = a # ys'" by (cases ys) auto
      with * show ?R by auto
    next
      assume ?R
      then obtain ys x zs where "xs = ys @ x # zs" "f x = Some y" "\<forall>u \<in> set ys. f u = None"
        by blast
      with None have "a # xs = (a # ys) @ x # zs \<and> f x = Some y \<and> (\<forall>u \<in> set (a # ys). f u = None)"
        by simp
      then show ?L by blast
    qed
    with None Cons.IH show ?thesis by simp
  next
    case (Some b)
    then have "(\<exists>ys x zs. a # xs = ys @ x # zs \<and> f x = Some y \<and> (\<forall>u \<in> set ys. f u = None)) \<longleftrightarrow> b = y"
      by (metis append_Nil append_eq_Cons_conv list.sel(1) list.set_intros(1) option.distinct(1)
          option.inject empty_iff list.set(1))
    with Some show ?thesis by simp
  qed
qed

lemma first_some_in: "first_some f xs = Some y \<Longrightarrow> \<exists>x \<in> set xs. f x = Some y"
  by (auto simp: first_some_Some)

lemma first_some_append:
  "first_some f (xs @ ys) = (case first_some f xs of Some y \<Rightarrow> Some y | None \<Rightarrow> first_some f ys)"
  by (induction xs) (auto split: option.splits simp del: first_some_None)

end
