(* ===== verification/Go_JSON.thy ===== *)
theory Go_JSON
  imports Prelude
begin

text \<open>
  JSON documents and how \<open>encoding/json\<close> decodes one into a struct. The text-to-tree step is a
  parameter of the definitions that read a body (Go_JSON_Text defines it); from the tree on, the rules of the Go decoder are
  written out: members are processed in order, a member name is matched against the field names
  exactly first and by case folding otherwise, a later member overwrites an earlier one, null leaves
  a field as it is, and a value of the wrong type makes the whole decoding fail. A number is kept as
  its literal, because the decoder parses an int64 field from the literal text.
\<close>

datatype json =
    JNull
  | JBool bool
  | JNum string
  | JStr string
  | JArr "json list"
  | JObj "(string \<times> json) list"

section \<open>Member names\<close>

definition ascii_upper :: "char \<Rightarrow> char" where
  "ascii_upper c = (let n = (of_char c :: nat) in if 97 \<le> n \<and> n \<le> 122 then char_of (n - 32) else c)"

text \<open>
  \<open>foldName\<close>: letters are folded to upper case; the two non-ASCII code points that fold to an ASCII
  letter are U+017F (bytes C5 BF, to S) and U+212A (bytes E2 84 AA, to K).
\<close>

fun fold_name :: "string \<Rightarrow> string" where
  "fold_name [] = []"
| "fold_name (c # cs) =
     (if c = CHR 0xC5 \<and> take 1 cs = [CHR 0xBF] then CHR ''S'' # fold_name (drop 1 cs)
      else if c = CHR 0xE2 \<and> take 2 cs = [CHR 0x84, CHR 0xAA] then CHR ''K'' # fold_name (drop 2 cs)
      else ascii_upper c # fold_name cs)"

definition match_field :: "string list \<Rightarrow> string \<Rightarrow> string option" where
  "match_field names k =
     (if k \<in> set names then Some k else List.find (\<lambda>n. fold_name n = fold_name k) names)"

lemma match_field_in: "match_field names k = Some n \<Longrightarrow> n \<in> set names"
  by (auto simp: match_field_def find_Some_iff split: if_splits)

section \<open>Structs\<close>

text \<open>
  \<open>setf n v s\<close> assigns member \<open>n\<close> from \<open>v\<close>; \<open>None\<close> is a type error. The first component of the
  state says whether no type error happened so far.
\<close>

fun decode_members :: "(string \<Rightarrow> json \<Rightarrow> 's \<Rightarrow> 's option) \<Rightarrow> string list \<Rightarrow> (string \<times> json) list
    \<Rightarrow> bool \<times> 's \<Rightarrow> bool \<times> 's" where
  "decode_members setf names [] st = st"
| "decode_members setf names ((k, v) # ms) st =
     (case match_field names k of
        None \<Rightarrow> decode_members setf names ms st
      | Some n \<Rightarrow>
          (case setf n v (snd st) of
             None \<Rightarrow> decode_members setf names ms (False, snd st)
           | Some s \<Rightarrow> decode_members setf names ms (fst st, s)))"

text \<open>\<open>json.Unmarshal\<close> into a struct: \<open>None\<close> is a decoding error.\<close>

definition decode_struct :: "(string \<Rightarrow> json \<Rightarrow> 's \<Rightarrow> 's option) \<Rightarrow> string list \<Rightarrow> 's \<Rightarrow> json \<Rightarrow> 's option" where
  "decode_struct setf names init j =
     (case j of
        JObj ms \<Rightarrow> (case decode_members setf names ms (True, init) of (ok, s) \<Rightarrow> if ok then Some s else None)
      | JNull \<Rightarrow> Some init
      | _ \<Rightarrow> None)"

section \<open>Scalars\<close>

fun parse_digits :: "nat \<Rightarrow> string \<Rightarrow> nat option" where
  "parse_digits acc [] = Some acc"
| "parse_digits acc (c # cs) =
     (let n = (of_char c :: nat) in
      if 48 \<le> n \<and> n \<le> 57 then parse_digits (acc * 10 + (n - 48)) cs else None)"

text \<open>\<open>strconv.ParseInt(lit, 10, 64)\<close> on a JSON number literal.\<close>

definition parse_int64 :: "string \<Rightarrow> int option" where
  "parse_int64 s =
     (case s of
        [] \<Rightarrow> None
      | c # cs \<Rightarrow>
          (if c = CHR ''-'' then
             (if cs = [] then None else
              (case parse_digits 0 cs of
                 None \<Rightarrow> None
               | Some n \<Rightarrow> if int n \<le> 9223372036854775808 then Some (- int n) else None))
           else
             (case parse_digits 0 s of
                None \<Rightarrow> None
              | Some n \<Rightarrow> if int n \<le> 9223372036854775807 then Some (int n) else None)))"

definition dec_string :: "json \<Rightarrow> string \<Rightarrow> string option" where
  "dec_string v cur = (case v of JStr s \<Rightarrow> Some s | JNull \<Rightarrow> Some cur | _ \<Rightarrow> None)"

definition dec_bool :: "json \<Rightarrow> bool \<Rightarrow> bool option" where
  "dec_bool v cur = (case v of JBool b \<Rightarrow> Some b | JNull \<Rightarrow> Some cur | _ \<Rightarrow> None)"

definition dec_int64 :: "json \<Rightarrow> int \<Rightarrow> int option" where
  "dec_int64 v cur = (case v of JNum l \<Rightarrow> parse_int64 l | JNull \<Rightarrow> Some cur | _ \<Rightarrow> None)"

lemma parse_int64_range:
  "parse_int64 s = Some i \<Longrightarrow> - 9223372036854775808 \<le> i \<and> i \<le> 9223372036854775807"
  by (auto simp: parse_int64_def split: list.splits if_splits option.splits)

section \<open>Invariants of decoded structs\<close>

lemma decode_members_inv:
  assumes step: "\<And>n v s s'. n \<in> set names \<Longrightarrow> P s \<Longrightarrow> setf n v s = Some s' \<Longrightarrow> P s'"
    and "P (snd st)"
  shows "P (snd (decode_members setf names ms st))"
  using assms(2)
proof (induction ms arbitrary: st)
  case (Cons m ms)
  obtain k v where m: "m = (k, v)" by (cases m)
  show ?case
  proof (cases "match_field names k")
    case None
    with Cons m show ?thesis by simp
  next
    case (Some n)
    show ?thesis
    proof (cases "setf n v (snd st)")
      case None
      with Some Cons m show ?thesis by simp
    next
      case (Some s')
      then have "P s'" using step match_field_in \<open>match_field names k = Some n\<close> Cons.prems by blast
      with Some \<open>match_field names k = Some n\<close> Cons.IH m show ?thesis by simp
    qed
  qed
qed simp

lemma decode_struct_inv:
  assumes step: "\<And>n v s s'. n \<in> set names \<Longrightarrow> P s \<Longrightarrow> setf n v s = Some s' \<Longrightarrow> P s'"
    and init: "P init" and dec: "decode_struct setf names init j = Some s"
  shows "P s"
proof (cases j)
  case (JObj ms)
  have "P (snd (decode_members setf names ms (True, init)))"
    by (rule decode_members_inv [OF step]) (use init in auto)
  with dec JObj show ?thesis
    by (auto simp: decode_struct_def split: prod.splits if_splits)
qed (use init dec in \<open>auto simp: decode_struct_def\<close>)

text \<open>A member no field name matches has no effect on a decoded struct.\<close>

lemma decode_members_skip:
  "match_field names k = None \<Longrightarrow>
   decode_members setf names (ms @ (k, v) # ms') st = decode_members setf names (ms @ ms') st"
  by (induction setf names ms st rule: decode_members.induct) (auto split: option.splits)

end
