(* ===== verification/Errors.thy ===== *)
theory Errors
  imports Go_JSON
begin

text \<open>
  errors.go: the structured error of the library, its sentinels, \<open>With\<close>, \<open>Unwrap\<close> and \<open>Is\<close>, and the
  standard \<open>errors.Is\<close> and \<open>errors.As\<close> over the error values that occur in the program. An error made
  by \<open>fmt.Errorf\<close> is kept as its format, its printed arguments and the error it wraps with %w, so
  that what a log line may contain stays visible.
\<close>

datatype auth_error =
  AuthError (Code: string) (Message: string) (DocURL: string) (HTTPStatus: int) (Cause: "goerr option")
and goerr =
    AuthErr auth_error
  | ErrorString string
  | Errorf string "string list" "goerr option"
  | VerifierErr string
  | ForeignErr string

section \<open>errors.As and errors.Is\<close>

text \<open>\<open>errors.As(err, &e)\<close> with \<open>e *auth.Error\<close>: the first library error of the chain.\<close>

fun errors_As :: "goerr \<Rightarrow> auth_error option" where
  "errors_As (AuthErr e) = Some e"
| "errors_As (Errorf f args (Some w)) = errors_As w"
| "errors_As (Errorf f args None) = None"
| "errors_As (ErrorString s) = None"
| "errors_As (VerifierErr s) = None"
| "errors_As (ForeignErr s) = None"

definition Error_Is :: "auth_error \<Rightarrow> goerr \<Rightarrow> bool" where
  "Error_Is e target = (case errors_As target of None \<Rightarrow> False | Some t \<Rightarrow> Code e = Code t)"

definition Error_Unwrap :: "auth_error \<Rightarrow> goerr option" where
  "Error_Unwrap e = Cause e"

definition With :: "auth_error \<Rightarrow> goerr \<Rightarrow> auth_error" where
  "With e cause = AuthError (Code e) (Message e) (DocURL e) (HTTPStatus e) (Some cause)"

text \<open>\<open>errors.Is(err, target)\<close> for a sentinel of the library.\<close>

fun errors_Is :: "goerr \<Rightarrow> auth_error \<Rightarrow> bool" where
  "errors_Is (AuthErr (AuthError c m d h cause)) t =
     (Error_Is (AuthError c m d h cause) (AuthErr t) \<or>
      (case cause of None \<Rightarrow> False | Some e \<Rightarrow> errors_Is e t))"
| "errors_Is (Errorf f args (Some w)) t = errors_Is w t"
| "errors_Is (Errorf f args None) t = False"
| "errors_Is (ErrorString s) t = False"
| "errors_Is (VerifierErr s) t = False"
| "errors_Is (ForeignErr s) t = False"

text \<open>\<open>Error()\<close>; the formatting of \<open>fmt.Errorf\<close> arguments is the parameter \<open>sprintf\<close>.\<close>

fun error_text :: "(string \<Rightarrow> string list \<Rightarrow> string) \<Rightarrow> goerr \<Rightarrow> string" where
  "error_text sprintf (AuthErr (AuthError c m d h cause)) =
     (case cause of
        Some e \<Rightarrow> ''auth: '' @ c @ '': '' @ m @ '': '' @ error_text sprintf e
      | None \<Rightarrow> ''auth: '' @ c @ '': '' @ m)"
| "error_text sprintf (Errorf f args (Some w)) = sprintf f (args @ [error_text sprintf w])"
| "error_text sprintf (Errorf f args None) = sprintf f args"
| "error_text sprintf (ErrorString s) = s"
| "error_text sprintf (VerifierErr s) = s"
| "error_text sprintf (ForeignErr s) = s"

text \<open>The JSON document \<open>json.NewEncoder(w).Encode(e)\<close> writes: cause and status have no JSON tag.\<close>

definition error_json :: "auth_error \<Rightarrow> json" where
  "error_json e =
     JObj ([(''error'', JStr (Code e)), (''message'', JStr (Message e))]
           @ (if DocURL e = [] then [] else [(''doc_url'', JStr (DocURL e))]))"

section \<open>Sentinels\<close>

definition ErrInvalidToken :: auth_error where [sentinel_defs]:
  "ErrInvalidToken = AuthError ''invalid_token'' ''The bearer token could not be validated.'' [] 401 None"

definition ErrExpiredToken :: auth_error where [sentinel_defs]:
  "ErrExpiredToken = AuthError ''expired_token''
     ''The bearer token has expired. Re-authenticate with the issuer.'' [] 401 None"

definition ErrMissingToken :: auth_error where [sentinel_defs]:
  "ErrMissingToken = AuthError ''missing_token'' ''Authorization: Bearer <token> is required.'' [] 401 None"

definition ErrForbidden :: auth_error where [sentinel_defs]:
  "ErrForbidden = AuthError ''forbidden''
     ''The token is valid but not authorized for this resource.'' [] 403 None"

definition ErrInsufficientScope :: auth_error where [sentinel_defs]:
  "ErrInsufficientScope = AuthError ''insufficient_scope''
     ''The token is missing a required scope for this resource.'' [] 403 None"

definition ErrSessionLimitExceeded :: auth_error where [sentinel_defs]:
  "ErrSessionLimitExceeded = AuthError ''session_limit_exceeded''
     ''Too many concurrent sessions for this user. Close an existing session and retry.'' [] 429 None"

definition ErrRateLimitExceeded :: auth_error where [sentinel_defs]:
  "ErrRateLimitExceeded = AuthError ''rate_limit_exceeded''
     ''Per-user rate limit exceeded. Wait and retry; see Retry-After header for cooldown.'' [] 429 None"

definition ErrInvalidDPoPProof :: auth_error where [sentinel_defs]:
  "ErrInvalidDPoPProof = AuthError ''invalid_dpop_proof'' ''The DPoP proof is missing or invalid.'' [] 401 None"

definition ErrUseDPoPNonce :: auth_error where [sentinel_defs]:
  "ErrUseDPoPNonce = AuthError ''use_dpop_nonce''
     ''A DPoP nonce is required; retry with the provided DPoP-Nonce.'' [] 401 None"

definition auth_sentinels :: "auth_error list" where
  "auth_sentinels = [ErrInvalidToken, ErrExpiredToken, ErrMissingToken, ErrForbidden, ErrInsufficientScope,
     ErrSessionLimitExceeded, ErrRateLimitExceeded, ErrInvalidDPoPProof, ErrUseDPoPNonce]"

section \<open>Lemmas\<close>

lemma With_sel [simp]:
  "Code (With e c) = Code e" "Message (With e c) = Message e" "DocURL (With e c) = DocURL e"
  "HTTPStatus (With e c) = HTTPStatus e" "Cause (With e c) = Some c"
  by (simp_all add: With_def)

text \<open>The library errors along the Unwrap chain of an error.\<close>

fun chain :: "goerr \<Rightarrow> auth_error list" where
  "chain (AuthErr (AuthError c m d h cause)) =
     AuthError c m d h cause # (case cause of None \<Rightarrow> [] | Some e \<Rightarrow> chain e)"
| "chain (Errorf f args (Some w)) = chain w"
| "chain (Errorf f args None) = []"
| "chain (ErrorString s) = []"
| "chain (VerifierErr s) = []"
| "chain (ForeignErr s) = []"

lemma errors_Is_chain: "errors_Is e t \<longleftrightarrow> (\<exists>x \<in> set (chain e). Code x = Code t)"
  by (induction e rule: chain.induct) (auto simp: Error_Is_def split: option.splits)

lemma errors_As_chain: "errors_As e = (case chain e of [] \<Rightarrow> None | x # _ \<Rightarrow> Some x)"
  by (induction e rule: chain.induct) (auto split: option.splits list.splits)

lemma chain_AuthErr: "chain (AuthErr e) = e # (case Cause e of None \<Rightarrow> [] | Some c \<Rightarrow> chain c)"
  by (cases e) auto

lemma errors_Is_AuthErr [simp]: "errors_Is (AuthErr e) e"
  by (simp add: errors_Is_chain chain_AuthErr)

lemma errors_Is_With [simp]: "errors_Is (AuthErr (With e c)) e"
  by (simp add: errors_Is_chain chain_AuthErr)

lemma errors_Is_AuthErr_code:
  "Cause e = None \<Longrightarrow> errors_Is (AuthErr e) t \<longleftrightarrow> Code e = Code t"
  by (auto simp: errors_Is_chain chain_AuthErr)

lemma errors_Is_With_ErrorString [simp]:
  "errors_Is (AuthErr (With e (ErrorString s))) t \<longleftrightarrow> Code e = Code t"
  by (auto simp: errors_Is_chain chain_AuthErr)

lemma errors_Is_With_Errorf [simp]:
  "errors_Is (AuthErr (With e (Errorf f args None))) t \<longleftrightarrow> Code e = Code t"
  by (auto simp: errors_Is_chain chain_AuthErr)

text \<open>Wrapping a sentinel with a cause keeps its identity for \<open>errors.Is\<close>, keeps the first library
  error a transport extracts with \<open>errors.As\<close>, and changes nothing a client can see: the response
  document and the HTTP status of the wrapped error are those of the sentinel, whatever the cause.\<close>

theorem With_keeps_identity_hides_cause:
  "errors_Is (AuthErr (With e cause)) e \<and>
   errors_As (AuthErr (With e cause)) = Some (With e cause) \<and>
   Error_Unwrap (With e cause) = Some cause \<and>
   error_json (With e cause) = error_json e \<and>
   HTTPStatus (With e cause) = HTTPStatus e"
  by (simp add: error_json_def Error_Unwrap_def)

text \<open>The sentinels are pairwise distinguishable: \<open>errors.Is\<close> between two of them, wrapped with
  any plain cause or not, holds only for the same sentinel, and every sentinel is a 4xx failure.\<close>

theorem sentinels_distinguishable:
  "distinct (map Code auth_sentinels) \<and>
   list_all (\<lambda>e. 400 \<le> HTTPStatus e \<and> HTTPStatus e < 500 \<and> Cause e = None) auth_sentinels \<and>
   list_all (\<lambda>e. list_all (\<lambda>t. errors_Is (AuthErr (With e (ErrorString s))) t = (e = t)) auth_sentinels)
     auth_sentinels"
  by (simp add: auth_sentinels_def sentinel_defs)

end
