(* ===== verification/Go_Time.thy ===== *)
theory Go_Time
  imports Prelude
begin

text \<open>
  The part of Go's \<open>time\<close> package the library uses. A \<open>time.Duration\<close> is an int64 count of
  nanoseconds; a \<open>time.Time\<close> without monotonic reading is an int64 count of seconds since
  1 January of year 1 plus a nanosecond offset, here the single integer of nanoseconds since that
  instant, so the zero \<open>Time\<close> is \<open>0\<close> and Before/After/Equal are the order of the integers. The
  int64 arithmetic is kept: \<open>time.Unix\<close> wraps, \<open>Time.Add\<close> and \<open>Time.Sub\<close> saturate, products of
  durations wrap.
\<close>

type_synonym duration = int
type_synonym time = int

abbreviation nanosecond :: duration where "nanosecond \<equiv> 1"
abbreviation millisecond :: duration where "millisecond \<equiv> 1000000"
abbreviation second :: duration where "second \<equiv> 1000000000"
abbreviation minute :: duration where "minute \<equiv> 60000000000"

abbreviation int64_max :: int where "int64_max \<equiv> 9223372036854775807"
abbreviation int64_min :: int where "int64_min \<equiv> - 9223372036854775808"

definition in_int64 :: "int \<Rightarrow> bool" where
  "in_int64 x \<longleftrightarrow> int64_min \<le> x \<and> x \<le> int64_max"

text \<open>Two's complement wrap-around of int64 arithmetic.\<close>

definition wrap64 :: "int \<Rightarrow> int" where
  "wrap64 x = (x + 9223372036854775808) mod 18446744073709551616 - 9223372036854775808"

lemma wrap64_range: "in_int64 (wrap64 x)"
proof -
  have "0 \<le> (x + 9223372036854775808) mod 18446744073709551616"
    and "(x + 9223372036854775808) mod 18446744073709551616 < 18446744073709551616"
    by simp_all
  then show ?thesis unfolding wrap64_def in_int64_def by linarith
qed

lemma wrap64_id [time_simps]: "in_int64 x \<Longrightarrow> wrap64 x = x"
  by (simp add: wrap64_def in_int64_def)

section \<open>Operations\<close>

text \<open>Seconds between year 1 and the Unix epoch (\<open>unixToInternal\<close>).\<close>

abbreviation unixToInternal :: int where "unixToInternal \<equiv> 62135596800"

definition time_IsZero :: "time \<Rightarrow> bool" where
  "time_IsZero t \<longleftrightarrow> t = 0"

text \<open>\<open>time.Unix(sec, 0)\<close>: the internal seconds are an int64 sum, which wraps.\<close>

definition time_Unix :: "int \<Rightarrow> time" where
  "time_Unix sec = wrap64 (sec + unixToInternal) * second"

text \<open>\<open>t.Unix()\<close>.\<close>

definition time_toUnix :: "time \<Rightarrow> int" where
  "time_toUnix t = wrap64 (t div second - unixToInternal)"

text \<open>\<open>t.Add(d)\<close>: the seconds saturate at the ends of the range, the nanoseconds are kept.\<close>

definition time_Add :: "time \<Rightarrow> duration \<Rightarrow> time" where
  "time_Add t d =
     (let s = (t + d) div second; n = (t + d) mod second in
      (if s > int64_max then int64_max else if s < int64_min then - int64_max else s) * second + n)"

text \<open>\<open>t.Sub(u)\<close>: the difference, saturated to the range of a Duration.\<close>

definition time_Sub :: "time \<Rightarrow> time \<Rightarrow> duration" where
  "time_Sub t u = (if t - u > int64_max then int64_max else if t - u < int64_min then int64_min else t - u)"

text \<open>Unary minus on a Duration.\<close>

definition dur_neg :: "duration \<Rightarrow> duration" where
  "dur_neg d = wrap64 (- d)"

text \<open>Every value of Go's \<open>time.Time\<close> has its seconds in the int64 range.\<close>

definition wf_time :: "time \<Rightarrow> bool" where
  "wf_time t \<longleftrightarrow> in_int64 (t div second)"

text \<open>
  The instants deployments meet: within about 2900 years of the epoch on both sides (that is
  within \<open>9 \<cdot> 10 ^ 10\<close> seconds), where no operation saturates. Durations are int64 values.
\<close>

definition sane_time :: "time \<Rightarrow> bool" where
  "sane_time t \<longleftrightarrow> \<bar>t - unixToInternal * second\<bar> \<le> 90000000000 * second"

lemma wf_time_Unix: "wf_time (time_Unix s)"
  using wrap64_range [of "s + unixToInternal"] by (simp add: wf_time_def time_Unix_def)

lemma time_Unix_eq [time_simps]:
  "\<bar>s\<bar> \<le> 90000000000 \<Longrightarrow> time_Unix s = (s + unixToInternal) * second"
  by (subst time_Unix_def, subst wrap64_id) (auto simp: in_int64_def abs_le_iff)

lemma time_Add_eq:
  assumes "in_int64 ((t + d) div second)"
  shows "time_Add t d = t + d"
proof -
  have "(t + d) div second * second + (t + d) mod second = t + d"
    by (rule div_mult_mod_eq)
  with assms show ?thesis by (simp add: time_Add_def in_int64_def Let_def)
qed

lemma sane_time_Add [time_simps]:
  assumes "sane_time t" and "in_int64 d"
  shows "time_Add t d = t + d"
proof (rule time_Add_eq)
  have lo: "- 37087775236854775808 \<le> t + d" and hi: "t + d \<le> 161358968836854775807"
    using assms by (auto simp: sane_time_def in_int64_def abs_le_iff)
  show "in_int64 ((t + d) div second)"
    using zdiv_mono1 [OF lo, of second] zdiv_mono1 [OF hi, of second]
    by (simp add: in_int64_def)
qed

lemma time_Sub_gt [time_simps]:
  "in_int64 d \<Longrightarrow> d < int64_max \<Longrightarrow> time_Sub t u > d \<longleftrightarrow> t - u > d"
  by (auto simp: time_Sub_def in_int64_def)

lemma time_Sub_gt_imp: "in_int64 d \<Longrightarrow> time_Sub t u > d \<Longrightarrow> t - u > d"
  by (auto simp: time_Sub_def in_int64_def split: if_splits)

lemma time_Sub_mono: "t \<le> t' \<Longrightarrow> time_Sub t u \<le> time_Sub t' u"
  by (auto simp: time_Sub_def)

lemma dur_neg_eq [time_simps]: "in_int64 d \<Longrightarrow> d \<noteq> int64_min \<Longrightarrow> dur_neg d = - d"
  by (simp add: dur_neg_def wrap64_id in_int64_def)

lemma wrap64_diff_wrap64: "wrap64 (wrap64 x - y) = wrap64 (x - y)"
proof -
  have "wrap64 x - y + 9223372036854775808 = (x + 9223372036854775808) mod 18446744073709551616 - y"
    by (simp add: wrap64_def)
  then have "(wrap64 x - y + 9223372036854775808) mod 18446744073709551616
      = (x - y + 9223372036854775808) mod 18446744073709551616"
    by (simp add: mod_diff_left_eq algebra_simps)
  then show ?thesis by (simp add: wrap64_def [of "wrap64 x - y"] wrap64_def [of "x - y"])
qed

lemma time_toUnix_Unix: "in_int64 s \<Longrightarrow> time_toUnix (time_Unix s) = s"
  by (simp add: time_toUnix_def time_Unix_def wrap64_diff_wrap64 wrap64_id)

end
