(* ===== verification/Go_Strings.thy ===== *)
theory Go_Strings
  imports Prelude
begin

text \<open>
  The functions of Go's \<open>strings\<close> and \<open>strconv\<close> packages the library calls, on byte strings, with
  the laws the components use: \<open>Join\<close> against splitting, \<open>Fields\<close>, \<open>TrimSpace\<close>, \<open>Trim\<close>,
  \<open>EqualFold\<close>, \<open>Itoa\<close>.
\<close>

section \<open>Bytes\<close>

definition byte :: "char \<Rightarrow> nat" where
  "byte c = of_char c"

lemma byte_char [simp]: "byte (char_of n) = n mod 256"
  by (simp add: byte_def)

lemma byte_lt: "byte c < 256"
  by (simp add: byte_def)

lemma char_of_byte [simp]: "char_of (byte c) = c"
  by (simp add: byte_def)

lemma byte_CHR: "c = char_of n \<longleftrightarrow> byte c = n" if "n < 256"
  using that by (metis byte_char char_of_byte mod_less)

definition hex_value :: "char \<Rightarrow> nat option" where
  "hex_value c =
     (let n = byte c in
      if 48 \<le> n \<and> n \<le> 57 then Some (n - 48)
      else if 97 \<le> n \<and> n \<le> 102 then Some (n - 87)
      else if 65 \<le> n \<and> n \<le> 70 then Some (n - 55)
      else None)"

definition is_digit :: "char \<Rightarrow> bool" where
  "is_digit c \<longleftrightarrow> 48 \<le> byte c \<and> byte c \<le> 57"

section \<open>Join and splitting\<close>

fun strings_Join :: "string list \<Rightarrow> string \<Rightarrow> string" where
  "strings_Join [] sep = []"
| "strings_Join [x] sep = x"
| "strings_Join (x # y # xs) sep = x @ sep @ strings_Join (y # xs) sep"

text \<open>Reference definition: the pieces between the occurrences of a separator byte.\<close>

fun split_on :: "char \<Rightarrow> string \<Rightarrow> string list" where
  "split_on d [] = [[]]"
| "split_on d (c # cs) =
     (if c = d then [] # split_on d cs
      else (case split_on d cs of [] \<Rightarrow> [[c]] | w # ws \<Rightarrow> (c # w) # ws))"

lemma split_on_not_Nil [simp]: "split_on d s \<noteq> []"
  by (induction s) (auto split: list.splits)

lemma split_on_append_sep:
  "d \<notin> set w \<Longrightarrow> split_on d (w @ d # s) = w # split_on d s"
  by (induction w) auto

lemma split_on_no_sep: "d \<notin> set w \<Longrightarrow> split_on d w = [w]"
  by (induction w) auto

lemma split_on_Join:
  "ws \<noteq> [] \<Longrightarrow> \<forall>w \<in> set ws. d \<notin> set w \<Longrightarrow> split_on d (strings_Join ws [d]) = ws"
  by (induction ws "[d]" rule: strings_Join.induct) (auto simp: split_on_append_sep split_on_no_sep)

lemma split_on_parts: "w \<in> set (split_on d s) \<Longrightarrow> d \<notin> set w"
  by (induction s arbitrary: w) (auto split: if_splits list.splits)

lemma Join_Cons_char: "strings_Join ((c # w) # ws) sep = c # strings_Join (w # ws) sep"
  by (cases ws) auto

lemma Join_split_on: "strings_Join (split_on d s) [d] = s"
proof (induction s)
  case (Cons c s)
  then show ?case by (cases "split_on d s") (auto simp: Join_Cons_char)
qed simp

section \<open>White space\<close>

text \<open>The UTF-8 byte sequences of the code points \<open>unicode.IsSpace\<close> accepts.\<close>

definition space_runes :: "string list" where
  "space_runes =
     [[CHR 0x09], [CHR 0x0A], [CHR 0x0B], [CHR 0x0C], [CHR 0x0D], [CHR 0x20],
      [CHR 0xC2, CHR 0x85], [CHR 0xC2, CHR 0xA0], [CHR 0xE1, CHR 0x9A, CHR 0x80],
      [CHR 0xE2, CHR 0x80, CHR 0x80], [CHR 0xE2, CHR 0x80, CHR 0x81], [CHR 0xE2, CHR 0x80, CHR 0x82],
      [CHR 0xE2, CHR 0x80, CHR 0x83], [CHR 0xE2, CHR 0x80, CHR 0x84], [CHR 0xE2, CHR 0x80, CHR 0x85],
      [CHR 0xE2, CHR 0x80, CHR 0x86], [CHR 0xE2, CHR 0x80, CHR 0x87], [CHR 0xE2, CHR 0x80, CHR 0x88],
      [CHR 0xE2, CHR 0x80, CHR 0x89], [CHR 0xE2, CHR 0x80, CHR 0x8A], [CHR 0xE2, CHR 0x80, CHR 0xA8],
      [CHR 0xE2, CHR 0x80, CHR 0xA9], [CHR 0xE2, CHR 0x80, CHR 0xAF], [CHR 0xE2, CHR 0x81, CHR 0x9F],
      [CHR 0xE3, CHR 0x80, CHR 0x80]]"

text \<open>Width in bytes of the white-space code point at the front of a string, 0 if there is none.\<close>

definition space_width :: "string \<Rightarrow> nat" where
  "space_width s =
     (if take 1 s \<in> set space_runes then 1
      else if take 2 s \<in> set space_runes then 2
      else if take 3 s \<in> set space_runes then 3 else 0)"

text \<open>\<open>strings.Fields\<close>: the maximal runs of bytes outside white space.\<close>

function fields_loop :: "string \<Rightarrow> string \<Rightarrow> string list" where
  "fields_loop cur [] = (if cur = [] then [] else [cur])"
| "fields_loop cur (c # cs) =
     (let n = space_width (c # cs) in
      if n = 0 then fields_loop (cur @ [c]) cs
      else (if cur = [] then [] else [cur]) @ fields_loop [] (drop n (c # cs)))"
  by pat_completeness auto
termination
  by (relation "measure (\<lambda>(cur, s). length s)") auto

definition strings_Fields :: "string \<Rightarrow> string list" where
  "strings_Fields s = fields_loop [] s"

lemma fields_loop_nonempty: "w \<in> set (fields_loop cur s) \<Longrightarrow> w \<noteq> []"
  by (induction cur s rule: fields_loop.induct) (auto simp: Let_def split: if_splits)

lemma strings_Fields_nonempty: "w \<in> set (strings_Fields s) \<Longrightarrow> w \<noteq> []"
  by (auto simp: strings_Fields_def dest: fields_loop_nonempty)

text \<open>\<open>strings.TrimSpace\<close>: \<open>strip w\<close> drops prefixes of the width \<open>w\<close> reports until it reports 0.\<close>

function strip :: "(string \<Rightarrow> nat) \<Rightarrow> string \<Rightarrow> string" where
  "strip w s = (if w s = 0 \<or> s = [] then s else strip w (drop (w s) s))"
  by pat_completeness auto
termination
  by (relation "measure (\<lambda>(w, s). length s)") auto

declare strip.simps [simp del]

text \<open>Width of the white-space code point at the end, on the reversed string.\<close>

definition space_width_end :: "string \<Rightarrow> nat" where
  "space_width_end r =
     (if rev (take 1 r) \<in> set space_runes then 1
      else if rev (take 2 r) \<in> set space_runes then 2
      else if rev (take 3 r) \<in> set space_runes then 3 else 0)"

definition strings_TrimSpace :: "string \<Rightarrow> string" where
  "strings_TrimSpace s = rev (strip space_width_end (rev (strip space_width s)))"

lemma strip_suffix: "\<exists>p. s = p @ strip w s"
proof (induction w s rule: strip.induct)
  case (1 w s)
  show ?case
  proof (cases "w s = 0 \<or> s = []")
    case True
    then show ?thesis by (simp add: strip.simps [of w s])
  next
    case False
    with 1 obtain p where p: "drop (w s) s = p @ strip w (drop (w s) s)" by blast
    have "s = take (w s) s @ drop (w s) s" by simp
    also have "\<dots> = (take (w s) s @ p) @ strip w s"
      using False p by (simp add: strip.simps [of w s])
    finally show ?thesis by blast
  qed
qed

lemma strip_stops: "w (strip w s) = 0 \<or> strip w s = []"
proof (induction w s rule: strip.induct)
  case (1 w s)
  then show ?case by (cases "w s = 0 \<or> s = []") (auto simp: strip.simps [of w s])
qed

text \<open>Trimming returns a contiguous part of its argument.\<close>

lemma strings_TrimSpace_infix: "\<exists>p q. s = p @ strings_TrimSpace s @ q"
proof -
  obtain p where p: "s = p @ strip space_width s" using strip_suffix by blast
  obtain q where "rev (strip space_width s) = q @ strip space_width_end (rev (strip space_width s))"
    using strip_suffix by blast
  then have "strip space_width s = strings_TrimSpace s @ rev q"
    by (metis rev_append rev_rev_ident strings_TrimSpace_def)
  with p show ?thesis by metis
qed

section \<open>Trim and EqualFold\<close>

text \<open>\<open>strings.TrimRight(s, "/")\<close> and \<open>strings.Trim(s, "/")\<close>.\<close>

definition trim_right_char :: "char \<Rightarrow> string \<Rightarrow> string" where
  "trim_right_char c s = rev (dropWhile (\<lambda>x. x = c) (rev s))"

definition trim_char :: "char \<Rightarrow> string \<Rightarrow> string" where
  "trim_char c s = trim_right_char c (dropWhile (\<lambda>x. x = c) s)"

definition ascii_lower :: "char \<Rightarrow> char" where
  "ascii_lower c = (let n = (of_char c :: nat) in if 65 \<le> n \<and> n \<le> 90 then char_of (n + 32) else c)"

text \<open>
  \<open>strings.EqualFold(s, t)\<close> for an ASCII \<open>t\<close> without the letters k and s, the only ones with a
  non-ASCII case variant.
\<close>

definition ascii_EqualFold :: "string \<Rightarrow> string \<Rightarrow> bool" where
  "ascii_EqualFold s t \<longleftrightarrow> map ascii_lower s = map ascii_lower t"

lemma trim_right_char_append: "trim_right_char c (s @ [c]) = trim_right_char c s"
  by (simp add: trim_right_char_def)

lemma trim_right_char_last: "trim_right_char c s \<noteq> [] \<Longrightarrow> last (trim_right_char c s) \<noteq> c"
proof -
  assume "trim_right_char c s \<noteq> []"
  then have ne: "dropWhile (\<lambda>x. x = c) (rev s) \<noteq> []" by (simp add: trim_right_char_def)
  from hd_dropWhile [OF ne] ne show ?thesis by (simp add: trim_right_char_def last_rev)
qed

lemma trim_char_both: "trim_char c (c # s @ [c]) = trim_char c s"
proof (cases "dropWhile (\<lambda>x. x = c) s = []")
  case True
  then have "dropWhile (\<lambda>x. x = c) (s @ [c]) = []" by (auto simp: dropWhile_eq_Nil_conv)
  then show ?thesis unfolding trim_char_def by (simp only: True dropWhile.simps simp_thms if_True append_Cons)
next
  case False
  then have "dropWhile (\<lambda>x. x = c) (s @ [c]) = dropWhile (\<lambda>x. x = c) s @ [c]"
    by (auto simp: dropWhile_append dropWhile_eq_Nil_conv)
  then show ?thesis by (simp add: trim_char_def trim_right_char_append)
qed

section \<open>Decimal numbers\<close>

fun nat_digits :: "nat \<Rightarrow> string" where
  "nat_digits n = (if n < 10 then [char_of (48 + n)] else nat_digits (n div 10) @ [char_of (48 + n mod 10)])"

declare nat_digits.simps [simp del]

text \<open>\<open>strconv.Itoa\<close>.\<close>

definition Itoa :: "int \<Rightarrow> string" where
  "Itoa i = (if i < 0 then CHR ''-'' # nat_digits (nat (- i)) else nat_digits (nat i))"

lemma is_digit_char:
  fixes n :: nat
  assumes "n < 10"
  shows "is_digit (char_of (48 + n))" "char_of (48 + n) = CHR ''0'' \<longleftrightarrow> n = 0"
proof -
  have b: "byte (char_of (48 + n)) = 48 + n" "byte (CHR ''0'') = 48" using assms by (simp_all add: byte_def)
  show "is_digit (char_of (48 + n))" using assms unfolding is_digit_def b by simp
  show "char_of (48 + n) = CHR ''0'' \<longleftrightarrow> n = 0" using b by (metis add_cancel_left_right char_of_byte)
qed

lemma nat_digits_digits: "list_all is_digit (nat_digits n)"
proof (induction n rule: nat_digits.induct)
  case (1 n)
  show ?case
  proof (cases "n < 10")
    case False
    with 1 is_digit_char [of "n mod 10"] show ?thesis by (subst nat_digits.simps) simp
  qed (simp add: nat_digits.simps [of n] is_digit_char)
qed

lemma nat_digits_hd:
  "\<exists>c cs. nat_digits n = c # cs \<and> is_digit c \<and> (c = CHR ''0'' \<longrightarrow> n = 0 \<and> cs = [])"
proof (induction n rule: nat_digits.induct)
  case (1 n)
  show ?case
  proof (cases "n < 10")
    case False
    with 1 obtain c cs where "nat_digits (n div 10) = c # cs" "is_digit c" "c = CHR ''0'' \<longrightarrow> n div 10 = 0" by blast
    with False show ?thesis by (subst nat_digits.simps) auto
  qed (simp add: nat_digits.simps [of n] is_digit_char)
qed

end
