(* ===== verification/Claims.thy ===== *)
theory Claims
  imports Errors Go_Time Go_Strings
begin

text \<open>
  claims.go and context.go: the typed view of a validated token, how it is built from a parsed JWT,
  and the context values a transport sets. A \<open>jwt.Token\<close> of the jwx package is seen through the
  methods the library calls on it; their results are the fields of the record \<open>jwt_token\<close>.
\<close>

section \<open>Data\<close>

text \<open>The dynamic Go types of a claim value that the code tests for.\<close>

datatype any_val =
    AnyString string
  | AnyList "any_val list"
  | AnyMap "(string \<times> any_val) list"
  | AnyOther

record jwt_token =
  tok_Subject :: string
  tok_Issuer :: string
  tok_Audience :: "string list"
  tok_Expiration :: time
  tok_IssuedAt :: time
  tok_Get :: "string \<Rightarrow> any_val option"
  tok_PrivateClaims :: "(string, any_val) gomap"

record claims =
  Subject :: string
  Email :: string
  Issuer :: string
  Audience :: "string list"
  ExpiresAt :: time
  IssuedAt :: time
  Scopes :: "string list"
  Confirmation :: string
  Raw :: "string \<rightharpoonup> string"

section \<open>Scopes\<close>

text \<open>The index loop of \<open>splitScopes\<close>: \<open>start\<close> is -1 outside a scope.\<close>

function split_loop :: "string \<Rightarrow> nat \<Rightarrow> int \<Rightarrow> string list \<Rightarrow> string list" where
  "split_loop s i start out =
     (if i \<le> length s then
        (if i = length s \<or> s ! i = CHR '' '' then
           (if start \<ge> 0 then split_loop s (Suc i) (- 1) (out @ [take (i - nat start) (drop (nat start) s)])
            else split_loop s (Suc i) start out)
         else if start < 0 then split_loop s (Suc i) (int i) out
         else split_loop s (Suc i) start out)
      else out)"
  by pat_completeness auto
termination
  by (relation "measure (\<lambda>(s, i, start, out). Suc (length s) - i)") auto

declare split_loop.simps [simp del]

definition splitScopes :: "string \<Rightarrow> string list" where
  "splitScopes s = split_loop s 0 (- 1) []"

fun string_elems :: "any_val list \<Rightarrow> string list" where
  "string_elems [] = []"
| "string_elems (AnyString s # xs) = s # string_elems xs"
| "string_elems (_ # xs) = string_elems xs"

definition scopesFromToken :: "jwt_token \<Rightarrow> string list" where
  "scopesFromToken tok =
     (case tok_Get tok ''scp'' of
        Some (AnyList arr) \<Rightarrow> string_elems arr
      | _ \<Rightarrow>
          (case tok_Get tok ''scope'' of
             Some (AnyString s) \<Rightarrow> splitScopes s
           | _ \<Rightarrow> []))"

section \<open>Building the claims\<close>

fun raw_loop :: "(string, any_val) gomap \<Rightarrow> (string \<rightharpoonup> string) \<Rightarrow> (string \<rightharpoonup> string)" where
  "raw_loop [] raw = raw"
| "raw_loop ((k, v) # kvs) raw =
     (if k = ''email'' \<or> k = ''scope'' \<or> k = ''scp'' then raw_loop kvs raw
      else (case v of AnyString s \<Rightarrow> raw_loop kvs (raw(k \<mapsto> s)) | _ \<Rightarrow> raw_loop kvs raw))"

definition claimsFromToken :: "jwt_token \<Rightarrow> claims" where
  "claimsFromToken tok =
     \<lparr> Subject = tok_Subject tok,
       Email = (case tok_Get tok ''email'' of Some (AnyString s) \<Rightarrow> s | _ \<Rightarrow> []),
       Issuer = tok_Issuer tok,
       Audience = tok_Audience tok,
       ExpiresAt = tok_Expiration tok,
       IssuedAt = tok_IssuedAt tok,
       Scopes = scopesFromToken tok,
       Confirmation =
         (case tok_Get tok ''cnf'' of
            Some (AnyMap m) \<Rightarrow> (case map_of m ''jkt'' of Some (AnyString jkt) \<Rightarrow> jkt | _ \<Rightarrow> [])
          | _ \<Rightarrow> []),
       Raw = raw_loop (tok_PrivateClaims tok) Map.empty \<rparr>"

section \<open>Contexts\<close>

text \<open>
  A Go context is a chain of key/value pairs; the innermost binding of a key is found first. The MCP
  SDK keeps a \<open>TokenInfo\<close> under a key of its own; the challenge wrapper keeps a pointer to its
  per-request state, here the address of a cell.
\<close>

datatype extra_val = XString string | XClaims claims

record token_info =
  TI_Scopes :: "string list"
  TI_Expiration :: time
  TI_UserID :: string
  TI_Extra :: "string \<rightharpoonup> extra_val"

datatype ctx_key = CtxClaimsKey | CtxRawTokenKey | TokenInfoKey | ChallengeKey

datatype ctx_val = VClaims claims | VRawToken string | VTokenInfo token_info | VChallenge nat

type_synonym go_context = "(ctx_key \<times> ctx_val) list"

definition WithValue :: "go_context \<Rightarrow> ctx_key \<Rightarrow> ctx_val \<Rightarrow> go_context" where
  "WithValue ctx k v = (k, v) # ctx"

definition WithClaims :: "go_context \<Rightarrow> claims \<Rightarrow> go_context" where
  "WithClaims parent c = WithValue parent CtxClaimsKey (VClaims c)"

definition ClaimsFrom :: "go_context \<Rightarrow> claims option" where
  "ClaimsFrom ctx = (case map_of ctx CtxClaimsKey of Some (VClaims c) \<Rightarrow> Some c | _ \<Rightarrow> None)"

text \<open>\<open>MustClaims\<close> panics on an unauthenticated context: the left summand is the panic value.\<close>

definition MustClaims :: "go_context \<Rightarrow> string + claims" where
  "MustClaims ctx =
     (case ClaimsFrom ctx of
        None \<Rightarrow> Inl ''auth: MustClaims called on unauthenticated context''
      | Some c \<Rightarrow> Inr c)"

definition WithRawToken :: "go_context \<Rightarrow> string \<Rightarrow> go_context" where
  "WithRawToken parent raw = WithValue parent CtxRawTokenKey (VRawToken raw)"

definition RawTokenFrom :: "go_context \<Rightarrow> string option" where
  "RawTokenFrom ctx = (case map_of ctx CtxRawTokenKey of Some (VRawToken s) \<Rightarrow> Some s | _ \<Rightarrow> None)"

section \<open>Lemmas on scope splitting\<close>

text \<open>The unfinished scope at index \<open>i\<close>.\<close>

definition pending :: "string \<Rightarrow> nat \<Rightarrow> int \<Rightarrow> string" where
  "pending s i start = (if start < 0 then [] else take (i - nat start) (drop (nat start) s))"

lemma pending_Suc:
  "i < length s \<Longrightarrow> 0 \<le> start \<Longrightarrow> start < int i \<Longrightarrow> pending s (Suc i) start = pending s i start @ [s ! i]"
  by (simp add: pending_def Suc_diff_le take_Suc_conv_app_nth)

lemma pending_start: "i < length s \<Longrightarrow> pending s (Suc i) (int i) = [s ! i]"
  by (simp add: pending_def take_Suc hd_drop_conv_nth)

definition glue :: "string \<Rightarrow> string list \<Rightarrow> string list" where
  "glue p ws = (case ws of [] \<Rightarrow> [p] | w # ws' \<Rightarrow> (p @ w) # ws')"

lemma glue_simps [simp]: "glue p (w # ws) = (p @ w) # ws" "glue p [] = [p]"
  by (simp_all add: glue_def)

lemma glue_Nil [simp]: "glue [] (split_on d s) = split_on d s"
  by (cases "split_on d s") (simp_all)

lemma split_loop_done: "split_loop s (Suc (length s)) start out = out"
  by (simp add: split_loop.simps)

lemma split_loop_spec:
  assumes "i \<le> length s" and "start < 0 \<or> (0 \<le> start \<and> start < int i)"
  shows "split_loop s i start out =
    out @ filter (\<lambda>w. w \<noteq> []) (glue (pending s i start) (split_on CHR '' '' (drop i s)))"
  using assms
proof (induction "length s - i" arbitrary: i start out)
  case 0
  then have i: "i = length s" by simp
  show ?case
  proof (cases "start < 0")
    case True
    then show ?thesis by (simp add: split_loop.simps [of s "length s"] split_loop_done i pending_def)
  next
    case False
    with 0 i have "pending s i start \<noteq> []" by (simp add: pending_def)
    with False show ?thesis
      by (simp add: split_loop.simps [of s "length s"] split_loop_done i pending_def)
  qed
next
  case (Suc n)
  then have i: "i < length s" and n: "n = length s - Suc i" by simp_all
  have d: "drop i s = s ! i # drop (Suc i) s" using i by (simp add: Cons_nth_drop_Suc)
  note IH = Suc.hyps(1) [OF n]
  show ?case
  proof (cases "s ! i = CHR '' ''")
    case sp: True
    show ?thesis
    proof (cases "start < 0")
      case True
      with sp i IH [of start] show ?thesis
        by (simp add: split_loop.simps [of s i] d pending_def)
    next
      case False
      with Suc.prems i have ne: "pending s i start \<noteq> []" by (auto simp: pending_def nat_less_iff not_le)
      have "split_loop s i start out = split_loop s (Suc i) (- 1) (out @ [pending s i start])"
        using sp i False by (simp add: split_loop.simps [of s i] pending_def)
      with IH [of "- 1"] sp i ne show ?thesis by (simp add: d pending_def [of s "Suc i"])
    qed
  next
    case nsp: False
    obtain w ws where w: "split_on CHR '' '' (drop (Suc i) s) = w # ws"
      by (meson list.exhaust split_on_not_Nil)
    show ?thesis
    proof (cases "start < 0")
      case True
      with nsp i IH [of "int i"] w show ?thesis
        by (simp add: split_loop.simps [of s i] d pending_start) (simp add: pending_def)
    next
      case False
      with nsp i IH [of start] w Suc.prems show ?thesis
        by (simp add: split_loop.simps [of s i] d pending_Suc)
    qed
  qed
qed

lemma splitScopes_eq: "splitScopes s = filter (\<lambda>w. w \<noteq> []) (split_on CHR '' '' s)"
  by (simp add: splitScopes_def split_loop_spec pending_def)

section \<open>Lemmas on raw claims and contexts\<close>

lemma raw_loop_spec:
  "wf_gomap kvs \<Longrightarrow> raw_loop kvs raw k =
    (if k \<in> {''email'', ''scope'', ''scp''} then raw k
     else (case map_of kvs k of Some (AnyString s) \<Rightarrow> Some s | _ \<Rightarrow> raw k))"
proof (induction kvs arbitrary: raw k)
  case (Cons kv kvs)
  obtain k' v where kv: "kv = (k', v)" by (cases kv)
  with Cons.prems have wf: "wf_gomap kvs" and new: "map_of kvs k' = None"
    by (auto simp: wf_gomap_def map_of_eq_None_iff)
  note IH = Cons.IH [OF wf]
  show ?case
  proof (cases "k' = ''email'' \<or> k' = ''scope'' \<or> k' = ''scp''")
    case True
    then show ?thesis by (auto simp: kv IH)
  next
    case False
    then show ?thesis
      by (cases "k = k'"; cases v) (simp_all add: kv IH new split: option.splits any_val.splits)
  qed
qed simp

lemma ctx_simps [simp]:
  "ClaimsFrom (WithClaims ctx c) = Some c"
  "ClaimsFrom (WithRawToken ctx r) = ClaimsFrom ctx"
  "RawTokenFrom (WithRawToken ctx r) = Some r"
  "RawTokenFrom (WithClaims ctx c) = RawTokenFrom ctx"
  by (simp_all add: ClaimsFrom_def WithClaims_def WithValue_def WithRawToken_def RawTokenFrom_def)

text \<open>\<open>splitScopes\<close>, an index loop over the bytes, computes exactly the non-empty pieces between
  the spaces of its argument.\<close>

theorem splitScopes_reference:
  "splitScopes s = filter (\<lambda>w. w \<noteq> []) (split_on CHR '' '' s)"
  by (rule splitScopes_eq)

text \<open>Joining scopes with spaces and splitting them again gives the scopes back, for scopes that
  are non-empty and contain no space.\<close>

theorem splitScopes_Join_roundtrip:
  assumes "\<forall>w \<in> set ws. w \<noteq> [] \<and> CHR '' '' \<notin> set w"
  shows "splitScopes (strings_Join ws '' '') = ws"
proof (cases "ws = []")
  case True
  then show ?thesis by (simp add: splitScopes_eq)
next
  case False
  with assms show ?thesis by (simp add: splitScopes_eq split_on_Join)
qed

theorem splitScopes_Join_roundtrip_witness:
  "splitScopes (strings_Join [''mcp:read'', ''mcp:write''] '' '') = [''mcp:read'', ''mcp:write'']"
  using splitScopes_Join_roundtrip [of "[''mcp:read'', ''mcp:write'']"] by simp

text \<open>In the claims built from a token, \<open>Raw\<close> holds exactly the string-typed private claims other
  than email, scope and scp; the scopes come from the scp array when there is one and from the scope
  string otherwise; and the confirmation is empty unless cnf.jkt is a string.\<close>

theorem claimsFromToken_fields:
  assumes "wf_gomap (tok_PrivateClaims tok)"
  shows "Raw (claimsFromToken tok) k =
      (if k \<in> {''email'', ''scope'', ''scp''} then None
       else (case map_of (tok_PrivateClaims tok) k of Some (AnyString s) \<Rightarrow> Some s | _ \<Rightarrow> None))
    \<and> Scopes (claimsFromToken tok) =
      (case tok_Get tok ''scp'' of
         Some (AnyList arr) \<Rightarrow> [s. AnyString s \<leftarrow> arr]
       | _ \<Rightarrow> (case tok_Get tok ''scope'' of
                Some (AnyString s) \<Rightarrow> filter (\<lambda>w. w \<noteq> []) (split_on CHR '' '' s) | _ \<Rightarrow> []))
    \<and> (Confirmation (claimsFromToken tok) \<noteq> [] \<longrightarrow>
        (\<exists>m. tok_Get tok ''cnf'' = Some (AnyMap m)
             \<and> map_of m ''jkt'' = Some (AnyString (Confirmation (claimsFromToken tok)))))"
proof -
  have "string_elems arr = [s. AnyString s \<leftarrow> arr]" for arr
    by (induction arr rule: string_elems.induct) auto
  with assms show ?thesis
    by (auto simp: claimsFromToken_def raw_loop_spec scopesFromToken_def splitScopes_eq
        split: option.splits any_val.splits)
qed

theorem claimsFromToken_fields_witness:
  "let tok = \<lparr>tok_Subject = ''u'', tok_Issuer = ''i'', tok_Audience = [''a''], tok_Expiration = 5,
       tok_IssuedAt = 1,
       tok_Get = map_of [(''scope'', AnyString ''r w''), (''tier'', AnyString ''gold'')],
       tok_PrivateClaims = [(''scope'', AnyString ''r w''), (''tier'', AnyString ''gold'')]\<rparr>
   in wf_gomap (tok_PrivateClaims tok) \<and> Raw (claimsFromToken tok) ''tier'' = Some ''gold''"
proof -
  let ?tok = "\<lparr>tok_Subject = ''u'', tok_Issuer = ''i'', tok_Audience = [''a''], tok_Expiration = 5,
       tok_IssuedAt = 1,
       tok_Get = map_of [(''scope'', AnyString ''r w''), (''tier'', AnyString ''gold'')],
       tok_PrivateClaims = [(''scope'', AnyString ''r w''), (''tier'', AnyString ''gold'')]\<rparr>"
  have wf: "wf_gomap (tok_PrivateClaims ?tok)" by (simp add: wf_gomap_def)
  show ?thesis
    unfolding Let_def using wf claimsFromToken_fields [OF wf, of "''tier''"] by simp
qed

end
