(* ===== verification/Go_Crypto.thy ===== *)
theory Go_Crypto
  imports "HOL-Library.Word"
begin

unbundle bit_operations_syntax

text \<open>
  crypto/sha256 and crypto/hmac, as far as the library calls them: the digest of a byte string and the
  keyed digest. The theories that use them take the functions as arguments; the definitions here are the
  values those arguments have in the program.
\<close>

section \<open>SHA-256\<close>

definition sha256_K :: "32 word list" where
  "sha256_K =
    [1116352408, 1899447441, 3049323471, 3921009573, 961987163, 1508970993, 2453635748, 2870763221,
     3624381080, 310598401, 607225278, 1426881987, 1925078388, 2162078206, 2614888103, 3248222580,
     3835390401, 4022224774, 264347078, 604807628, 770255983, 1249150122, 1555081692, 1996064986,
     2554220882, 2821834349, 2952996808, 3210313671, 3336571891, 3584528711, 113926993, 338241895,
     666307205, 773529912, 1294757372, 1396182291, 1695183700, 1986661051, 2177026350, 2456956037,
     2730485921, 2820302411, 3259730800, 3345764771, 3516065817, 3600352804, 4094571909, 275423344,
     430227734, 506948616, 659060556, 883997877, 958139571, 1322822218, 1537002063, 1747873779,
     1955562222, 2024104815, 2227730452, 2361852424, 2428436474, 2756734187, 3204031479, 3329325298]"

record digest256 =
  dg_a :: "32 word"
  dg_b :: "32 word"
  dg_c :: "32 word"
  dg_d :: "32 word"
  dg_e :: "32 word"
  dg_f :: "32 word"
  dg_g :: "32 word"
  dg_h :: "32 word"

definition sha256_init :: digest256 where
  "sha256_init = \<lparr>dg_a = 1779033703, dg_b = 3144134277, dg_c = 1013904242, dg_d = 2773480762,
     dg_e = 1359893119, dg_f = 2600822924, dg_g = 528734635, dg_h = 1541459225\<rparr>"

text \<open>The message schedule as a window of the sixteen most recent words, the oldest first.\<close>

definition next_word :: "32 word list \<Rightarrow> 32 word" where
  "next_word w =
     (let v1 = w ! 14; t1 = word_rotr 17 v1 XOR word_rotr 19 v1 XOR drop_bit 10 v1;
          v2 = w ! 1; t2 = word_rotr 7 v2 XOR word_rotr 18 v2 XOR drop_bit 3 v2
      in t1 + w ! 9 + t2 + w ! 0)"

definition sha256_round :: "32 word \<Rightarrow> 32 word \<Rightarrow> digest256 \<Rightarrow> digest256" where
  "sha256_round k w s =
     (let t1 = dg_h s + (word_rotr 6 (dg_e s) XOR word_rotr 11 (dg_e s) XOR word_rotr 25 (dg_e s))
                + ((dg_e s AND dg_f s) XOR (NOT (dg_e s) AND dg_g s)) + k + w;
          t2 = (word_rotr 2 (dg_a s) XOR word_rotr 13 (dg_a s) XOR word_rotr 22 (dg_a s))
                + ((dg_a s AND dg_b s) XOR (dg_a s AND dg_c s) XOR (dg_b s AND dg_c s))
      in \<lparr>dg_a = t1 + t2, dg_b = dg_a s, dg_c = dg_b s, dg_d = dg_c s, dg_e = dg_d s + t1, dg_f = dg_e s, dg_g = dg_f s,
          dg_h = dg_g s\<rparr>)"

fun sha256_rounds :: "32 word list \<Rightarrow> 32 word list \<Rightarrow> digest256 \<Rightarrow> digest256" where
  "sha256_rounds [] w s = s"
| "sha256_rounds (k # ks) w s = sha256_rounds ks (tl w @ [next_word w]) (sha256_round k (hd w) s)"

definition word_of_bytes :: "string \<Rightarrow> 32 word" where
  "word_of_bytes bs = fold (\<lambda>b acc. acc * 256 + of_nat (of_char b)) bs 0"

fun chunks :: "nat \<Rightarrow> 'a list \<Rightarrow> 'a list list" where
  "chunks n [] = []"
| "chunks n (x # xs) = (if n = 0 then [] else take n (x # xs) # chunks n (drop n (x # xs)))"

definition sha256_block :: "digest256 \<Rightarrow> string \<Rightarrow> digest256" where
  "sha256_block s block =
     (let t = sha256_rounds sha256_K (map word_of_bytes (chunks 4 block)) s
      in \<lparr>dg_a = dg_a s + dg_a t, dg_b = dg_b s + dg_b t, dg_c = dg_c s + dg_c t, dg_d = dg_d s + dg_d t,
          dg_e = dg_e s + dg_e t, dg_f = dg_f s + dg_f t, dg_g = dg_g s + dg_g t, dg_h = dg_h s + dg_h t\<rparr>)"

definition be_bytes :: "nat \<Rightarrow> nat \<Rightarrow> string" where
  "be_bytes n v = map (\<lambda>i. char_of (v div 256 ^ i)) (rev [0..<n])"

definition sha256_pad :: "string \<Rightarrow> string" where
  "sha256_pad m =
     m @ [CHR 0x80] @ replicate ((119 - length m mod 64) mod 64) (CHR 0x00) @ be_bytes 8 (8 * length m)"

definition Sum256 :: "string \<Rightarrow> string" where
  "Sum256 m =
     (let s = foldl sha256_block sha256_init (chunks 64 (sha256_pad m))
      in concat (map (\<lambda>x. be_bytes 4 (unat x)) [dg_a s, dg_b s, dg_c s, dg_d s, dg_e s, dg_f s, dg_g s, dg_h s]))"

section \<open>HMAC\<close>

definition xor_byte :: "nat \<Rightarrow> char \<Rightarrow> char" where
  "xor_byte n c = char_of (of_char c XOR n)"

definition hmac_key :: "string \<Rightarrow> string" where
  "hmac_key key = (let k = (if length key > 64 then Sum256 key else key) in k @ replicate (64 - length k) (CHR 0x00))"

definition hmac_sha256 :: "string \<Rightarrow> string \<Rightarrow> string" where
  "hmac_sha256 key m =
     (let k = hmac_key key
      in Sum256 (map (xor_byte 0x5C) k @ Sum256 (map (xor_byte 0x36) k @ m)))"

section \<open>Sizes\<close>

lemma length_be_bytes [simp]: "length (be_bytes n v) = n"
  by (simp add: be_bytes_def)

lemma length_Sum256 [simp]: "length (Sum256 m) = 32"
  by (simp add: Sum256_def Let_def)

lemma length_hmac_key: "length (hmac_key key) = 64"
  by (simp add: hmac_key_def Let_def)

lemma length_hmac_sha256 [simp]: "length (hmac_sha256 key m) = 32"
  by (simp add: hmac_sha256_def Let_def)

text \<open>The padded message is a whole number of blocks.\<close>

lemma sha256_pad_blocks: "length (sha256_pad m) mod 64 = 0"
proof -
  define l where "l = length m mod 64"
  have l: "l < 64" by (simp add: l_def)
  have len: "length m = 64 * (length m div 64) + l" by (simp add: l_def)
  have z: "l + 9 + (119 - l) mod 64 = 64 \<or> l + 9 + (119 - l) mod 64 = 128"
  proof (cases "l \<le> 55")
    case True
    then have "119 - l = (55 - l) + 64" by simp
    then have "(119 - l) mod 64 = 55 - l" by (simp only: mod_add_self2) simp
    with True show ?thesis by simp
  next
    case False
    then have "(119 - l) mod 64 = 119 - l" by simp
    with False l show ?thesis by simp
  qed
  have "length (sha256_pad m) = 64 * (length m div 64) + (l + 9 + (119 - l) mod 64)"
    using len by (simp add: sha256_pad_def l_def)
  with z show ?thesis by (elim disjE) simp_all
qed

end
