(* ===== verification/Base64.thy ===== *)
theory Base64
  imports Prelude
begin

text \<open>
  The encodings of \<open>encoding/base64\<close> and \<open>encoding/binary\<close> the library uses, on byte strings:
  RawURLEncoding (no padding) with Go's non-strict decoder, which skips carriage returns and line feeds
  and ignores the unused low bits of the last character; StdEncoding with padding, for HTTP Basic; and
  the big-endian 64-bit integer.
\<close>

abbreviation url_alphabet :: string where
  "url_alphabet \<equiv> ''ABCDEFGHIJKLMNOPQRSTUVWXYZabcdefghijklmnopqrstuvwxyz0123456789-_''"

abbreviation std_alphabet :: string where
  "std_alphabet \<equiv> ''ABCDEFGHIJKLMNOPQRSTUVWXYZabcdefghijklmnopqrstuvwxyz0123456789+/''"

section \<open>Six-bit groups\<close>

fun enc_vals :: "string \<Rightarrow> nat list" where
  "enc_vals [] = []"
| "enc_vals [a] = [of_char a div 4, (of_char a mod 4) * 16]"
| "enc_vals [a, b] =
     [of_char a div 4, (of_char a mod 4) * 16 + of_char b div 16, (of_char b mod 16) * 4]"
| "enc_vals (a # b # c # rest) =
     [of_char a div 4, (of_char a mod 4) * 16 + of_char b div 16,
      (of_char b mod 16) * 4 + of_char c div 64, of_char c mod 64] @ enc_vals rest"

fun dec_vals :: "nat list \<Rightarrow> string option" where
  "dec_vals [] = Some []"
| "dec_vals [v1] = None"
| "dec_vals [v1, v2] = Some [char_of (v1 * 4 + v2 div 16)]"
| "dec_vals [v1, v2, v3] =
     Some [char_of (v1 * 4 + v2 div 16), char_of ((v2 mod 16) * 16 + v3 div 4)]"
| "dec_vals (v1 # v2 # v3 # v4 # rest) =
     (case dec_vals rest of
        None \<Rightarrow> None
      | Some bs \<Rightarrow>
          Some ([char_of (v1 * 4 + v2 div 16), char_of ((v2 mod 16) * 16 + v3 div 4),
                 char_of ((v3 mod 4) * 64 + v4)] @ bs))"

lemma of_char_less: "(of_char c :: nat) < 256"
  by simp

lemma enc_vals_bound: "v \<in> set (enc_vals bs) \<Longrightarrow> v < 64"
proof (induction bs rule: enc_vals.induct)
  case (2 a)
  have "(of_char a :: nat) div 4 < 64" using of_char_less [of a] by linarith
  moreover have "(of_char a :: nat) mod 4 * 16 < 64" by linarith
  ultimately show ?case using 2 by auto
next
  case (3 a b)
  have "(of_char a :: nat) div 4 < 64" using of_char_less [of a] by linarith
  moreover have "(of_char a :: nat) mod 4 * 16 + of_char b div 16 < 64"
    using of_char_less [of b] by linarith
  moreover have "(of_char b :: nat) mod 16 * 4 < 64" by linarith
  ultimately show ?case using 3 by auto
next
  case (4 a b c rest)
  have "(of_char a :: nat) div 4 < 64" using of_char_less [of a] by linarith
  moreover have "(of_char a :: nat) mod 4 * 16 + of_char b div 16 < 64"
    using of_char_less [of b] by linarith
  moreover have "(of_char b :: nat) mod 16 * 4 + of_char c div 64 < 64"
    using of_char_less [of c] by linarith
  moreover have "(of_char c :: nat) mod 64 < 64" by simp
  ultimately show ?case using 4 by auto
qed simp

lemma char_of_first: "char_of ((of_char a :: nat) div 4 * 4 + ((of_char a mod 4) * 16 + r) div 16) = a"
  if "r < 16" for r :: nat
proof -
  have "((of_char a mod 4) * 16 + r) div 16 = (of_char a :: nat) mod 4" using that by simp
  then show ?thesis by (metis char_of_char div_mult_mod_eq)
qed

lemma char_of_second: "char_of (((x * 16 + (of_char b :: nat) div 16) mod 16) * 16 + ((of_char b mod 16) * 4 + r) div 4) = b"
  if "r < 4" for x r :: nat
proof -
  have 1: "(x * 16 + (of_char b :: nat) div 16) mod 16 = of_char b div 16"
    using of_char_less [of b] by (simp add: mod_mult_self1 [symmetric] less_mult_imp_div_less)
  have 2: "((of_char b mod 16) * 4 + r) div 4 = (of_char b :: nat) mod 16" using that by simp
  show ?thesis unfolding 1 2 by (metis char_of_char div_mult_mod_eq)
qed

lemma char_of_third: "char_of (((x * 4 + (of_char c :: nat) div 64) mod 4) * 64 + of_char c mod 64) = c" for x :: nat
proof -
  have 1: "(x * 4 + (of_char c :: nat) div 64) mod 4 = of_char c div 64"
    using of_char_less [of c] by (simp add: less_mult_imp_div_less)
  show ?thesis unfolding 1 by (metis char_of_char div_mult_mod_eq)
qed

lemma dec_enc_vals: "dec_vals (enc_vals bs) = Some bs"
proof (induction bs rule: enc_vals.induct)
  case (2 a)
  show ?case using char_of_first [of 0 a] by simp
next
  case (3 a b)
  show ?case
    using char_of_first [of "of_char b div 16" a] char_of_second [of 0 "of_char a mod 4" b] of_char_less [of b]
    by (simp add: less_mult_imp_div_less)
next
  case (4 a b c rest)
  show ?case
    using 4 char_of_first [of "of_char b div 16" a] char_of_second [of "of_char c div 64" "of_char a mod 4" b]
      char_of_third [of "of_char b mod 16" c] of_char_less [of b] of_char_less [of c]
    by (simp add: less_mult_imp_div_less)
qed simp

section \<open>Characters\<close>

definition enc6 :: "string \<Rightarrow> nat \<Rightarrow> char" where
  "enc6 alphabet n = alphabet ! n"

definition dec6 :: "string \<Rightarrow> char \<Rightarrow> nat option" where
  "dec6 alphabet c =
     (let i = length (takeWhile (\<lambda>x. x \<noteq> c) alphabet) in if i < length alphabet then Some i else None)"

lemma dec6_enc6:
  assumes "distinct alphabet" and "n < length alphabet"
  shows "dec6 alphabet (enc6 alphabet n) = Some n"
proof -
  have "takeWhile (\<lambda>x. x \<noteq> alphabet ! n) alphabet = take n alphabet"
    by (rule takeWhile_eq_take_P_nth) (use assms in \<open>auto simp: nth_eq_iff_index_eq\<close>)
  with assms show ?thesis by (simp add: dec6_def enc6_def)
qed

lemma url_alphabet_ok: "distinct url_alphabet" "length url_alphabet = 64"
    "CHR 0x0A \<notin> set url_alphabet" "CHR 0x0D \<notin> set url_alphabet"
  by simp_all

section \<open>RawURLEncoding\<close>

definition RawURL_EncodeToString :: "string \<Rightarrow> string" where
  "RawURL_EncodeToString bs = map (enc6 url_alphabet) (enc_vals bs)"

definition RawURL_DecodeString :: "string \<Rightarrow> string option" where
  "RawURL_DecodeString s =
     (case those (map (dec6 url_alphabet) (filter (\<lambda>c. c \<noteq> CHR 0x0A \<and> c \<noteq> CHR 0x0D) s)) of
        None \<Rightarrow> None
      | Some vs \<Rightarrow> dec_vals vs)"

lemma those_dec_enc:
  "\<forall>v \<in> set vs. v < 64 \<Longrightarrow> those (map (dec6 url_alphabet) (map (enc6 url_alphabet) vs)) = Some vs"
proof (induction vs)
  case (Cons v vs)
  then have "dec6 url_alphabet (enc6 url_alphabet v) = Some v"
    by (intro dec6_enc6 url_alphabet_ok(1)) (simp only: url_alphabet_ok(2), simp)
  with Cons show ?case by simp
qed simp

lemma enc6_in_alphabet: "v < 64 \<Longrightarrow> enc6 url_alphabet v \<in> set url_alphabet"
  unfolding enc6_def by (rule nth_mem) (simp only: url_alphabet_ok(2))

lemma RawURL_roundtrip: "RawURL_DecodeString (RawURL_EncodeToString bs) = Some bs"
proof -
  let ?vs = "enc_vals bs"
  have b: "\<forall>v \<in> set ?vs. v < 64" using enc_vals_bound by blast
  have "filter (\<lambda>c. c \<noteq> CHR 0x0A \<and> c \<noteq> CHR 0x0D) (map (enc6 url_alphabet) ?vs) = map (enc6 url_alphabet) ?vs"
  proof (rule filter_True, rule ballI)
    fix c
    assume "c \<in> set (map (enc6 url_alphabet) ?vs)"
    then obtain v where "v \<in> set ?vs" "c = enc6 url_alphabet v" by auto
    then have "c \<in> set url_alphabet" using enc6_in_alphabet b by blast
    then show "c \<noteq> CHR 0x0A \<and> c \<noteq> CHR 0x0D" using url_alphabet_ok(3,4) by metis
  qed
  then show ?thesis
    by (simp add: RawURL_DecodeString_def RawURL_EncodeToString_def those_dec_enc [OF b] dec_enc_vals del: map_map)
qed

lemma RawURL_Encode_inj: "RawURL_EncodeToString a = RawURL_EncodeToString b \<Longrightarrow> a = b"
  using RawURL_roundtrip by (metis option.inject)

lemma RawURL_Encode_Nil [simp]: "RawURL_EncodeToString bs = [] \<longleftrightarrow> bs = []"
  by (cases bs rule: enc_vals.cases) (auto simp: RawURL_EncodeToString_def)

section \<open>StdEncoding\<close>

definition Std_EncodeToString :: "string \<Rightarrow> string" where
  "Std_EncodeToString bs =
     (let s = map (enc6 std_alphabet) (enc_vals bs) in s @ replicate ((4 - length s mod 4) mod 4) CHR ''='')"

section \<open>Big-endian 64-bit integers\<close>

definition PutUint64 :: "nat \<Rightarrow> string" where
  "PutUint64 n = map (\<lambda>i. char_of (n div 256 ^ (7 - i))) [0..<8]"

definition Uint64 :: "string \<Rightarrow> nat" where
  "Uint64 bs = foldl (\<lambda>acc c. acc * 256 + of_char c) 0 (take 8 bs)"

lemma length_PutUint64 [simp]: "length (PutUint64 n) = 8"
  by (simp add: PutUint64_def)

text \<open>Folding in the byte at position \<open>k\<close> extends the leading digits by one.\<close>

lemma leading_digits: "n div 256 ^ Suc k * 256 + n div 256 ^ k mod 256 = (n :: nat) div 256 ^ k"
proof -
  have "n div 256 ^ Suc k = n div 256 ^ k div 256" by (metis div_mult2_eq power_Suc2)
  then show ?thesis by (simp only: div_mult_mod_eq)
qed

lemma Uint64_PutUint64:
  assumes "n < 2 ^ 64"
  shows "Uint64 (PutUint64 n) = n"
proof -
  have s: "[0..<8] = [0, 1, 2, 3, 4, 5, 6, 7 :: nat]" by (simp add: upt_rec)
  have "n div 256 ^ 7 < 256"
    by (rule less_mult_imp_div_less) (use assms in \<open>simp add: power_mult [symmetric, of 2 8, simplified]\<close>)
  then have top: "n div 256 ^ 7 mod 256 = n div 256 ^ 7" by simp
  have "Uint64 (PutUint64 n) =
    ((((((((n div 256 ^ 7 mod 256) * 256 + n div 256 ^ 6 mod 256) * 256 + n div 256 ^ 5 mod 256) * 256
      + n div 256 ^ 4 mod 256) * 256 + n div 256 ^ 3 mod 256) * 256 + n div 256 ^ 2 mod 256) * 256
      + n div 256 ^ 1 mod 256) * 256 + n div 256 ^ 0 mod 256)"
    by (simp add: Uint64_def PutUint64_def s)
  also have "\<dots> = n div 256 ^ 0"
  proof -
    have "Suc 6 = 7" "Suc 5 = 6" "Suc 4 = 5" "Suc 3 = 4" "Suc 2 = 3" "Suc 1 = 2" "Suc 0 = 1" by simp_all
    then have "n div 256 ^ 7 * 256 + n div 256 ^ 6 mod 256 = n div 256 ^ 6"
      "n div 256 ^ 6 * 256 + n div 256 ^ 5 mod 256 = n div 256 ^ 5"
      "n div 256 ^ 5 * 256 + n div 256 ^ 4 mod 256 = n div 256 ^ 4"
      "n div 256 ^ 4 * 256 + n div 256 ^ 3 mod 256 = n div 256 ^ 3"
      "n div 256 ^ 3 * 256 + n div 256 ^ 2 mod 256 = n div 256 ^ 2"
      "n div 256 ^ 2 * 256 + n div 256 ^ 1 mod 256 = n div 256 ^ 1"
      "n div 256 ^ 1 * 256 + n div 256 ^ 0 mod 256 = n div 256 ^ 0"
      using leading_digits by metis+
    then show ?thesis unfolding top by (simp only:)
  qed
  finally show ?thesis by simp
qed

section \<open>Hexadecimal\<close>

definition hex_digit :: "nat \<Rightarrow> char" where
  "hex_digit n = ''0123456789abcdef'' ! n"

fun hex_EncodeToString :: "string \<Rightarrow> string" where
  "hex_EncodeToString [] = []"
| "hex_EncodeToString (c # cs) =
     hex_digit (of_char c div 16) # hex_digit (of_char c mod 16) # hex_EncodeToString cs"

end
