(* ===== verification/Nonce.thy ===== *)
theory Nonce
  imports Go_Crypto Base64 Errors Go_Time Go_Strings
begin

text \<open>
  dpop/nonce.go: the nonce a resource server hands out, base64url of an 8-byte timestamp, 16 random bytes
  and an HMAC over both. HMAC-SHA256 is the parameter \<open>hmac\<close> (key, message), whose
  value in the program is \<open>hmac_sha256\<close>; the random bytes of one
  \<open>Issue\<close> are an argument, \<open>None\<close> when the random source fails. The locale \<open>nonce_source\<close> is the
  \<open>NonceSource\<close> interface.
\<close>

abbreviation (input) nonceTSLen :: nat where "nonceTSLen \<equiv> 8"
abbreviation (input) noncePayload :: nat where "noncePayload \<equiv> 24"
abbreviation (input) nonceLen :: nat where "nonceLen \<equiv> 56"
abbreviation (input) nonceMinSecret :: nat where "nonceMinSecret \<equiv> 32"
abbreviation (input) nonceDefaultTL :: duration where "nonceDefaultTL \<equiv> 5 * minute"
abbreviation (input) nonceFutureTL :: duration where "nonceFutureTL \<equiv> 5 * second"

record signed_nonce =
  sn_secret :: string
  sn_lifetime :: duration

definition NewSignedNonce :: "string \<Rightarrow> duration \<Rightarrow> goerr + signed_nonce" where
  "NewSignedNonce secret lifetime =
     (if length secret < nonceMinSecret
      then Inl (Errorf ''dpop: nonce secret must be at least %d bytes, got %d''
                  [Itoa (int nonceMinSecret), Itoa (int (length secret))] None)
      else Inr \<lparr>sn_secret = secret, sn_lifetime = (if lifetime \<le> 0 then nonceDefaultTL else lifetime)\<rparr>)"

definition nonce_mac :: "(string \<Rightarrow> string \<Rightarrow> string) \<Rightarrow> signed_nonce \<Rightarrow> string \<Rightarrow> string" where
  "nonce_mac hmac s payload = hmac (sn_secret s) payload"

definition Issue :: "(string \<Rightarrow> string \<Rightarrow> string) \<Rightarrow> signed_nonce \<Rightarrow> time \<Rightarrow> string option \<Rightarrow> string" where
  "Issue hmac s now rnd =
     (let sec = time_toUnix now in
      if sec < 0 then []
      else
        (case rnd of
           None \<Rightarrow> []
         | Some r \<Rightarrow>
             (let payload = PutUint64 (nat sec) @ r in
              RawURL_EncodeToString (payload @ nonce_mac hmac s payload))))"

definition nonce_Validate :: "(string \<Rightarrow> string \<Rightarrow> string) \<Rightarrow> signed_nonce \<Rightarrow> string \<Rightarrow> time \<Rightarrow> bool" where
  "nonce_Validate hmac s nonce now =
     (case RawURL_DecodeString nonce of
        None \<Rightarrow> False
      | Some raw \<Rightarrow>
          (if length raw \<noteq> nonceLen then False
           else
             (let payload = take noncePayload raw; mac = drop noncePayload raw in
              if mac \<noteq> nonce_mac hmac s payload then False
              else
                (let ts = Uint64 (take nonceTSLen payload) in
                 if int ts > int64_max then False
                 else
                   (let issued = time_Unix (int ts) in
                    if time_Sub now issued > sn_lifetime s then False
                    else \<not> (issued > time_Add now nonceFutureTL))))))"

section \<open>The NonceSource interface\<close>

text \<open>
  A nonce issued at \<open>t0\<close> with usable randomness (\<open>rnd_ok\<close>) is accepted at every \<open>t1\<close> inside the window
  of \<open>t0\<close>; an empty nonce, the marker of a failed issue, never is.
\<close>

locale nonce_source =
  fixes issue :: "time \<Rightarrow> 'r \<Rightarrow> string"
    and validate :: "string \<Rightarrow> time \<Rightarrow> bool"
    and rnd_ok :: "time \<Rightarrow> 'r \<Rightarrow> bool"
    and window :: "time \<Rightarrow> time \<Rightarrow> bool"
  assumes issued_valid: "rnd_ok t0 r \<Longrightarrow> window t0 t1 \<Longrightarrow> validate (issue t0 r) t1"
    and empty_invalid: "\<not> validate [] t"
begin

lemma issued_nonempty: "rnd_ok t0 r \<Longrightarrow> window t0 t1 \<Longrightarrow> issue t0 r \<noteq> []"
  using issued_valid empty_invalid by metis

end

section \<open>SignedNonce\<close>

text \<open>The instant of the timestamp an \<open>Issue\<close> at \<open>now\<close> embeds: \<open>now\<close> cut to whole seconds.\<close>

definition issue_second :: "time \<Rightarrow> time" where
  "issue_second now = time_Unix (time_toUnix now)"

definition nonce_window :: "signed_nonce \<Rightarrow> time \<Rightarrow> time \<Rightarrow> bool" where
  "nonce_window s t0 t1 \<longleftrightarrow>
     time_Sub t1 (issue_second t0) \<le> sn_lifetime s \<and> issue_second t0 \<le> time_Add t1 nonceFutureTL"

definition nonce_rnd_ok :: "time \<Rightarrow> string option \<Rightarrow> bool" where
  "nonce_rnd_ok t0 rnd \<longleftrightarrow> 0 \<le> time_toUnix t0 \<and> (\<exists>r. rnd = Some r \<and> length r = 16)"

text \<open>A keyed digest of 32 bytes, as HMAC-SHA256 is.\<close>

definition hmac_size :: "(string \<Rightarrow> string \<Rightarrow> string) \<Rightarrow> bool" where
  "hmac_size hmac \<longleftrightarrow> (\<forall>k m. length (hmac k m) = 32)"

lemma hmac_sha256_size: "hmac_size hmac_sha256"
  by (simp add: hmac_size_def)

lemma time_toUnix_range: "in_int64 (time_toUnix t)"
  by (simp add: time_toUnix_def wrap64_range)

lemma nonce_Validate_Issue:
  assumes "hmac_size hmac" and "nonce_rnd_ok t0 rnd"
  shows "nonce_Validate hmac s (Issue hmac s t0 rnd) t1 = nonce_window s t0 t1"
proof -
  from assms(2) obtain r where r: "rnd = Some r" "length r = 16" and sec: "0 \<le> time_toUnix t0"
    by (auto simp: nonce_rnd_ok_def)
  define p where "p = PutUint64 (nat (time_toUnix t0)) @ r"
  have lp: "length p = 24" using r by (simp add: p_def)
  have lm: "length (nonce_mac hmac s p) = 32" using assms(1) by (simp add: hmac_size_def nonce_mac_def)
  have dec: "RawURL_DecodeString (Issue hmac s t0 rnd) = Some (p @ nonce_mac hmac s p)"
    using sec r by (simp add: Issue_def p_def RawURL_roundtrip Let_def)
  have max: "time_toUnix t0 \<le> int64_max" using time_toUnix_range [of t0] by (simp add: in_int64_def)
  have "Uint64 (take 8 p) = nat (time_toUnix t0)"
    using max by (simp add: p_def Uint64_PutUint64)
  with sec max dec lp lm show ?thesis
    by (auto simp: nonce_Validate_def nonce_window_def issue_second_def Let_def not_less not_le)
qed

lemma nonce_Validate_Nil: "\<not> nonce_Validate hmac s [] now"
  by (simp add: nonce_Validate_def RawURL_DecodeString_def)

text \<open>
  With a 32-byte MAC the interface laws hold for every secret and lifetime; \<open>rnd_ok\<close> carries the size
  assumption because it is a property of the HMAC parameter.
\<close>

interpretation signed_nonce: nonce_source
  "Issue hmac s" "nonce_Validate hmac s" "\<lambda>t rnd. hmac_size hmac \<and> nonce_rnd_ok t rnd" "nonce_window s" for hmac s
  by unfold_locales (simp_all add: nonce_Validate_Issue nonce_Validate_Nil)

section \<open>Properties\<close>

text \<open>C37: a nonce issued by a server, with any secret and lifetime, under HMAC-SHA256, is
  accepted exactly while its embedded timestamp is at most the lifetime old and at most five seconds
  ahead of the validating clock.\<close>

theorem nonce_issue_validate_window:
  assumes "0 \<le> time_toUnix t0" and "length r = 16"
  shows "nonce_Validate hmac_sha256 s (Issue hmac_sha256 s t0 (Some r)) t1 =
    (time_Sub t1 (time_Unix (time_toUnix t0)) \<le> sn_lifetime s
     \<and> time_Unix (time_toUnix t0) \<le> time_Add t1 (5 * second))"
  using nonce_Validate_Issue [OF hmac_sha256_size, of t0 "Some r" s t1] assms
  by (simp add: nonce_rnd_ok_def nonce_window_def issue_second_def)

theorem nonce_issue_validate_window_witness:
  "let s = \<lparr>sn_secret = replicate 32 CHR ''k'', sn_lifetime = 5 * minute\<rparr>;
       t0 = 1700000000 * second + unixToInternal * second
   in nonce_Validate hmac_sha256 s (Issue hmac_sha256 s t0 (Some (replicate 16 CHR ''r''))) (t0 + 60 * second)"
proof -
  have u: "time_toUnix 63835596800000000000 = 1700000000" by (simp add: time_toUnix_def wrap64_def)
  show ?thesis
    unfolding Let_def
    by (subst nonce_issue_validate_window)
      (simp_all add: u time_Unix_eq time_Sub_def time_Add_def)
qed

text \<open>C38: whatever string a client presents, an accepted nonce decodes to 56 bytes whose last 32 are the
  server's MAC of the first 24, and the timestamp inside is fresh: without a MAC under the server's
  secret nothing is accepted.\<close>

theorem nonce_accept_implies_mac:
  assumes "nonce_Validate hmac s n now"
  shows "\<exists>payload. length payload = 24 \<and> RawURL_DecodeString n = Some (payload @ hmac (sn_secret s) payload)
    \<and> time_Sub now (time_Unix (int (Uint64 payload))) \<le> sn_lifetime s
    \<and> time_Unix (int (Uint64 payload)) \<le> time_Add now (5 * second)"
proof -
  from assms obtain raw where raw: "RawURL_DecodeString n = Some raw" and len: "length raw = 56"
    by (auto simp: nonce_Validate_def split: option.splits if_splits)
  let ?p = "take 24 raw"
  have u: "Uint64 (take 8 ?p) = Uint64 ?p" by (simp add: Uint64_def)
  from assms raw len have mac: "drop 24 raw = hmac (sn_secret s) ?p"
    and "time_Sub now (time_Unix (int (Uint64 ?p))) \<le> sn_lifetime s"
    and "time_Unix (int (Uint64 ?p)) \<le> time_Add now (5 * second)"
    unfolding u [symmetric]
    by (auto simp: nonce_Validate_def nonce_mac_def Let_def split: if_splits)
  moreover have "RawURL_DecodeString n = Some (?p @ hmac (sn_secret s) ?p)"
    using raw mac by (metis append_take_drop_id)
  ultimately show ?thesis using len by (intro exI [of _ ?p]) simp
qed

theorem nonce_accept_implies_mac_witness:
  "\<exists>hmac s n now payload. nonce_Validate hmac s n now
     \<and> RawURL_DecodeString n = Some (payload @ hmac (sn_secret s) payload)"
proof -
  let ?hmac = "\<lambda>k m :: string. replicate 32 CHR ''x''"
  let ?s = "\<lparr>sn_secret = replicate 32 CHR ''k'', sn_lifetime = 5 * minute\<rparr>"
  let ?t0 = "1700000000 * second + unixToInternal * second"
  have u: "time_toUnix 63835596800000000000 = 1700000000" by (simp add: time_toUnix_def wrap64_def)
  have v: "nonce_Validate ?hmac ?s (Issue ?hmac ?s ?t0 (Some (replicate 16 CHR ''r''))) ?t0"
    by (subst nonce_Validate_Issue)
      (simp_all add: hmac_size_def nonce_rnd_ok_def nonce_window_def issue_second_def u time_Unix_eq
        time_Sub_def time_Add_def)
  then show ?thesis using nonce_accept_implies_mac [OF v] by blast
qed

end
