(* ===== verification/Replay.thy ===== *)
theory Replay
  imports Base64 Errors Go_Time Go_Strings
begin

text \<open>
  dpop/replay.go and dpop/redisreplay/cache.go: the caches that make a DPoP proof single-use. The
  in-memory cache is a mutex-guarded map, so a concurrent execution is a sequence of calls, each with its
  own clock reading. The locale \<open>replay_cache\<close> is the \<open>ReplayCache\<close> interface with the law a verifier
  relies on. The Redis client and SHA-256 are parameters of the Redis-backed cache.
\<close>

section \<open>MemoryReplayCache\<close>

abbreviation (input) replaySweepThreshold :: nat where "replaySweepThreshold \<equiv> 1024"

record memory_replay =
  seen :: "(string, time) gomap"

definition NewMemoryReplayCache :: memory_replay where
  "NewMemoryReplayCache = \<lparr>seen = []\<rparr>"

definition replay_key :: "string \<Rightarrow> string \<Rightarrow> string" where
  "replay_key jti htu = jti @ ''|'' @ htu"

definition SeenBefore :: "memory_replay \<Rightarrow> time \<Rightarrow> string \<Rightarrow> string \<Rightarrow> time \<Rightarrow> bool \<times> memory_replay" where
  "SeenBefore c now jti htu exp =
     (let key = replay_key jti htu in
      if (case map_of (seen c) key of Some prev \<Rightarrow> now < prev | None \<Rightarrow> False) then (True, c)
      else
        (let m = AList.update key exp (seen c) in
         (False, c\<lparr>seen := (if length m > replaySweepThreshold then filter (\<lambda>(k, e). now < e) m else m)\<rparr>)))"

definition nop_SeenBefore :: "'s \<Rightarrow> time \<Rightarrow> string \<Rightarrow> string \<Rightarrow> time \<Rightarrow> bool \<times> 's" where
  "nop_SeenBefore s now jti htu exp = (False, s)"

section \<open>The ReplayCache interface\<close>

text \<open>
  \<open>live s t jti htu\<close>: at time \<open>t\<close> the cache answers that the pair was seen. A call answers the liveness
  of its pair; a first sight is recorded until its expiry; what is live stays live under other calls
  made no later than the time in question.
\<close>

type_synonym 's replay = "'s \<Rightarrow> time \<Rightarrow> string \<Rightarrow> string \<Rightarrow> time \<Rightarrow> bool \<times> 's"

fun replay_calls :: "'s replay \<Rightarrow> 's \<Rightarrow> (time \<times> string \<times> string \<times> time) list \<Rightarrow> 's" where
  "replay_calls sb s [] = s"
| "replay_calls sb s ((now, jti, htu, exp) # cs) = replay_calls sb (snd (sb s now jti htu exp)) cs"

locale replay_cache =
  fixes seen_before :: "'s replay"
    and live :: "'s \<Rightarrow> time \<Rightarrow> string \<Rightarrow> string \<Rightarrow> bool"
    and invar :: "'s \<Rightarrow> bool"
  assumes answers: "invar s \<Longrightarrow> fst (seen_before s now jti htu exp) = live s now jti htu"
    and records: "invar s \<Longrightarrow> \<not> live s now jti htu \<Longrightarrow> now \<le> t \<Longrightarrow> t < exp \<Longrightarrow>
        live (snd (seen_before s now jti htu exp)) t jti htu"
    and persists: "invar s \<Longrightarrow> live s t jti' htu' \<Longrightarrow> now \<le> t \<Longrightarrow>
        live (snd (seen_before s now jti htu exp)) t jti' htu'"
    and keeps_invar: "invar s \<Longrightarrow> invar (snd (seen_before s now jti htu exp))"
begin

lemma calls_persist:
  "invar s \<Longrightarrow> live s t jti htu \<Longrightarrow> \<forall>c \<in> set cs. fst c \<le> t \<Longrightarrow>
   live (replay_calls seen_before s cs) t jti htu \<and> invar (replay_calls seen_before s cs)"
proof (induction cs arbitrary: s)
  case (Cons c cs)
  obtain now j h e where c: "c = (now, j, h, e)" by (cases c)
  with Cons.prems have "live (snd (seen_before s now j h e)) t jti htu" by (simp add: persists)
  with Cons c keeps_invar show ?case by simp
qed simp

text \<open>Single use: after a first sight the pair is refused until it expires, whatever else is called.\<close>

lemma single_use:
  assumes "invar s" and "seen_before s now jti htu exp = (False, s1)"
    and "\<forall>c \<in> set cs. fst c \<le> t" and "now \<le> t" and "t < exp"
  shows "fst (seen_before (replay_calls seen_before s1 cs) t jti htu exp') = True"
proof -
  have "\<not> live s now jti htu" using answers [OF assms(1), of now jti htu exp] assms(2) by simp
  then have "live s1 t jti htu" using records [OF assms(1) _ assms(4,5)] assms(2) by (metis snd_conv)
  moreover have "invar s1" using keeps_invar [OF assms(1)] assms(2) by (metis snd_conv)
  ultimately show ?thesis using calls_persist [of s1 t jti htu cs] assms(3) by (simp add: answers)
qed

end

definition mem_live :: "memory_replay \<Rightarrow> time \<Rightarrow> string \<Rightarrow> string \<Rightarrow> bool" where
  "mem_live c t jti htu \<longleftrightarrow> (case map_of (seen c) (replay_key jti htu) of Some e \<Rightarrow> t < e | None \<Rightarrow> False)"

lemma SeenBefore_live: "SeenBefore c now jti htu exp =
    (if mem_live c now jti htu then (True, c)
     else (let m = AList.update (replay_key jti htu) exp (seen c) in
           (False, c\<lparr>seen := (if length m > replaySweepThreshold then filter (\<lambda>(k, e). now < e) m else m)\<rparr>)))"
  by (simp add: SeenBefore_def mem_live_def Let_def)

lemma mem_live_after:
  assumes "wf_gomap (seen c)" and "\<not> mem_live c now jti htu" and "now \<le> t"
  shows "mem_live (snd (SeenBefore c now jti htu exp)) t jti' htu' =
    (if replay_key jti' htu' = replay_key jti htu then t < exp else mem_live c t jti' htu')"
  using assms
  by (auto simp: SeenBefore_live mem_live_def Let_def alist_simps split: option.splits)

interpretation memory_replay: replay_cache SeenBefore mem_live "\<lambda>c. wf_gomap (seen c)"
proof unfold_locales
  fix c :: memory_replay and now jti htu exp t jti' htu'
  assume wf: "wf_gomap (seen c)"
  show "fst (SeenBefore c now jti htu exp) = mem_live c now jti htu"
    by (simp add: SeenBefore_live Let_def)
  show "wf_gomap (seen (snd (SeenBefore c now jti htu exp)))"
    using wf by (simp add: SeenBefore_live Let_def)
  {
    assume "\<not> mem_live c now jti htu" and "now \<le> t" and "t < exp"
    then show "mem_live (snd (SeenBefore c now jti htu exp)) t jti htu"
      by (simp add: mem_live_after [OF wf])
  next
    assume l: "mem_live c t jti' htu'" and le: "now \<le> t"
    show "mem_live (snd (SeenBefore c now jti htu exp)) t jti' htu'"
    proof (cases "mem_live c now jti htu")
      case True
      with l show ?thesis by (simp add: SeenBefore_live)
    next
      case False
      with l le have "replay_key jti' htu' \<noteq> replay_key jti htu"
        by (auto simp: mem_live_def split: option.splits)
      with l le False show ?thesis by (simp add: mem_live_after [OF wf])
    qed
  }
qed

section \<open>The Redis-backed cache\<close>

abbreviation (input) FailOpen :: int where "FailOpen \<equiv> 1"
abbreviation (input) FailClosed :: int where "FailClosed \<equiv> 2"

definition FailMode_String :: "int \<Rightarrow> string" where
  "FailMode_String m =
     (if m = FailOpen then ''fail_open'' else if m = FailClosed then ''fail_closed'' else ''fail_unset'')"

text \<open>The Redis client: \<open>SetNX\<close> on the store, with its error or whether the key was set.\<close>

type_synonym 'r setnx = "'r \<Rightarrow> string \<Rightarrow> string \<Rightarrow> duration \<Rightarrow> (goerr + bool) \<times> 'r"

record 'r redis_config =
  rc_Client :: "'r setnx option"
  rc_FailMode :: int
  rc_KeyPrefix :: string
  rc_HasLogger :: bool
  rc_OpTimeout :: duration

record 'r redis_cache =
  rr_client :: "'r setnx"
  rr_failMode :: int
  rr_keyPrefix :: string
  rr_hasLogger :: bool
  rr_opTimeout :: duration

definition redis_New :: "'r redis_config \<Rightarrow> goerr + 'r redis_cache" where
  "redis_New cfg =
     (case rc_Client cfg of
        None \<Rightarrow> Inl (ErrorString ''redisreplay: Config.Client is required'')
      | Some client \<Rightarrow>
          (if rc_FailMode cfg \<noteq> FailOpen \<and> rc_FailMode cfg \<noteq> FailClosed
           then Inl (ErrorString ''redisreplay: Config.FailMode is required (FailOpen or FailClosed)'')
           else Inr \<lparr>rr_client = client, rr_failMode = rc_FailMode cfg,
                     rr_keyPrefix = (if rc_KeyPrefix cfg = [] then ''dpop:replay:'' else rc_KeyPrefix cfg),
                     rr_hasLogger = rc_HasLogger cfg,
                     rr_opTimeout = (if rc_OpTimeout cfg \<le> 0 then 100 * millisecond else rc_OpTimeout cfg)\<rparr>))"

text \<open>
  One call: the answer, the store afterwards, and what is logged (the error and the fail mode). \<open>sha256\<close>
  is the digest function.
\<close>

definition redis_SeenBefore :: "(string \<Rightarrow> string) \<Rightarrow> 'r redis_cache \<Rightarrow> 'r \<Rightarrow> time \<Rightarrow> string \<Rightarrow> string \<Rightarrow> time
    \<Rightarrow> bool \<times> 'r \<times> (goerr \<times> string) list" where
  "redis_SeenBefore sha256 c r now jti htu exp =
     (let ttl = time_Sub exp now in
      if ttl < millisecond then (False, r, [])
      else
        (let key = rr_keyPrefix c @ RawURL_EncodeToString (sha256 (jti @ ''|'' @ htu)) in
         (case rr_client c r key ''1'' ttl of
            (Inl err, r') \<Rightarrow>
              (rr_failMode c = FailClosed, r',
               if rr_hasLogger c then [(err, FailMode_String (rr_failMode c))] else [])
          | (Inr was_set, r') \<Rightarrow> (\<not> was_set, r', []))))"

section \<open>Properties\<close>

text \<open>The in-memory replay cache makes a proof identifier single-use: once a (jti, htu) pair was
  accepted, it is reported as a replay at every later time before its expiry, whatever other
  identifiers were presented in between and however often the map was swept.\<close>

theorem memory_replay_single_use:
  assumes "wf_gomap (seen c)" and "SeenBefore c now jti htu exp = (False, c1)"
    and "\<forall>x \<in> set calls. fst x \<le> t" and "now \<le> t" and "t < exp"
  shows "fst (SeenBefore (replay_calls SeenBefore c1 calls) t jti htu exp') = True"
  using memory_replay.single_use [OF assms] .

theorem memory_replay_single_use_witness:
  "fst (SeenBefore (replay_calls SeenBefore (snd (SeenBefore NewMemoryReplayCache 10 ''j'' ''u'' 70))
      [(11, ''k'', ''u'', 71)]) 12 ''j'' ''u'' 72) = True"
  using memory_replay_single_use [of NewMemoryReplayCache 10 "''j''" "''u''" 70
      "snd (SeenBefore NewMemoryReplayCache 10 ''j'' ''u'' 70)" "[(11, ''k'', ''u'', 71)]" 12 72]
  by (simp add: NewMemoryReplayCache_def SeenBefore_live mem_live_def)

text \<open>The map of the in-memory cache is bounded by the unexpired entries: a call that records an
  identifier leaves at most 1024 entries, or only entries that have not expired; a call that reports a
  replay changes nothing.\<close>

theorem memory_replay_bounded:
  "case SeenBefore c now jti htu exp of (replayed, c') \<Rightarrow>
     if replayed then c' = c
     else length (seen c') \<le> 1024 \<or> list_all (\<lambda>(k, e). now < e) (seen c')"
  by (auto simp: SeenBefore_live Let_def list_all_iff)

text \<open>A Redis error never reads as a replay decision of the store: it is resolved by the configured
  fail mode alone, the log entry carries the error and the fail mode and nothing of the proof, and
  construction refuses a configuration without a client or without an explicit fail mode.\<close>

theorem redis_error_resolved_by_fail_mode:
  assumes "redis_New cfg = Inr c" and "rr_client c r (rr_keyPrefix c @ RawURL_EncodeToString (sha256 (jti @ ''|'' @ htu))) ''1''
      (time_Sub exp now) = (Inl err, r')"
    and "time_Sub exp now \<ge> millisecond"
  shows "rc_FailMode cfg \<in> {FailOpen, FailClosed}
    \<and> redis_SeenBefore sha256 c r now jti htu exp =
       (rc_FailMode cfg = FailClosed, r',
        if rc_HasLogger cfg then [(err, if rc_FailMode cfg = FailOpen then ''fail_open'' else ''fail_closed'')] else [])"
proof -
  have fm: "rc_FailMode cfg \<in> {FailOpen, FailClosed}" and c: "rr_failMode c = rc_FailMode cfg"
    "rr_hasLogger c = rc_HasLogger cfg"
    using assms(1) by (auto simp: redis_New_def split: option.splits if_splits)
  then show ?thesis
    using assms(2,3) by (auto simp: redis_SeenBefore_def Let_def FailMode_String_def)
qed

theorem redis_error_resolved_by_fail_mode_witness:
  "let cfg = \<lparr>rc_Client = Some (\<lambda>(r :: unit) k v t. (Inl (ErrorString ''down''), r)), rc_FailMode = 2, rc_KeyPrefix = [],
       rc_HasLogger = True, rc_OpTimeout = 0\<rparr>
   in \<exists>c. redis_New cfg = Inr c
      \<and> redis_SeenBefore (\<lambda>x. x) c () 0 ''j'' ''u'' second = (True, (), [(ErrorString ''down'', ''fail_closed'')])"
proof -
  let ?cfg = "\<lparr>rc_Client = Some (\<lambda>(r :: unit) k v t. (Inl (ErrorString ''down''), r)), rc_FailMode = 2, rc_KeyPrefix = [],
       rc_HasLogger = True, rc_OpTimeout = 0\<rparr>"
  obtain c where c: "redis_New ?cfg = Inr c" and cl: "rr_client c = (\<lambda>(r :: unit) k v t. (Inl (ErrorString ''down''), r))"
    by (simp add: redis_New_def)
  have "redis_SeenBefore (\<lambda>x. x) c () 0 ''j'' ''u'' second = (True, (), [(ErrorString ''down'', ''fail_closed'')])"
    using redis_error_resolved_by_fail_mode [OF c, of "()" "\<lambda>x. x" "''j''" "''u''" second 0 "ErrorString ''down''" "()"] cl
    by (simp add: time_Sub_def)
  with c show ?thesis by (auto simp: Let_def)
qed

end
