(* ===== verification/Go_URL.thy ===== *)
theory Go_URL
  imports Errors Go_Strings
begin

text \<open>
  net/url as far as the library calls it: \<open>Parse\<close>, \<open>URL.String\<close> and \<open>URL.Hostname\<close>. The treatment of a host that contains a bracket or more than one colon differs between
  Go releases; it is the parameter \<open>lit\<close> of the parser.
\<close>

section \<open>URLs\<close>

record userinfo =
  ui_Username :: string
  ui_Password :: "string option"

record go_url =
  u_Scheme :: string
  u_Opaque :: string
  u_User :: "userinfo option"
  u_Host :: string
  u_Path :: string
  u_RawPath :: string
  u_OmitHost :: bool
  u_ForceQuery :: bool
  u_RawQuery :: string
  u_Fragment :: string
  u_RawFragment :: string

definition zero_url :: go_url where
  "zero_url = \<lparr>u_Scheme = [], u_Opaque = [], u_User = None, u_Host = [], u_Path = [], u_RawPath = [], u_OmitHost = False,
     u_ForceQuery = False, u_RawQuery = [], u_Fragment = [], u_RawFragment = []\<rparr>"

section \<open>Percent-encoding\<close>

datatype url_mode = encodePath | encodeUserPassword | encodeHost | encodeZone | encodeFragment

definition is_alpha :: "char \<Rightarrow> bool" where
  "is_alpha c \<longleftrightarrow> 65 \<le> byte c \<and> byte c \<le> 90 \<or> 97 \<le> byte c \<and> byte c \<le> 122"

definition shouldEscape :: "char \<Rightarrow> url_mode \<Rightarrow> bool" where
  "shouldEscape c mode =
     (if is_alpha c \<or> is_digit c then False
      else if mode \<in> {encodeHost, encodeZone} \<and> c \<in> set ''!$&()*+,;=:[]<>'' \<union> {CHR 0x22, CHR 0x27} then False
      else if c \<in> set ''-_.~'' then False
      else if mode = encodePath \<and> c \<in> set ''$&+,/:;=?@'' then c = CHR ''?''
      else if mode = encodeUserPassword \<and> c \<in> set ''$&+,/:;=?@'' then c \<in> set ''@/?:''
      else if mode = encodeFragment \<and> c \<in> set ''$&+,/:;=?@'' then False
      else if mode = encodeFragment \<and> c \<in> set ''!()*'' then False
      else True)"

definition upperhex :: "nat \<Rightarrow> char" where
  "upperhex n = ''0123456789ABCDEF'' ! n"

definition url_escape :: "string \<Rightarrow> url_mode \<Rightarrow> string" where
  "url_escape s mode =
     concat (map (\<lambda>c. if shouldEscape c mode then [CHR ''%'', upperhex (byte c div 16), upperhex (byte c mod 16)] else [c]) s)"

definition unescape_error :: "string \<Rightarrow> goerr" where
  "unescape_error s = Errorf ''invalid URL escape %q'' [take 3 s] None"

fun unescape :: "string \<Rightarrow> url_mode \<Rightarrow> goerr + string" where
  "unescape [] mode = Inr []"
| "unescape (c # cs) mode =
     (if c = CHR ''%'' then
        (case cs of
           a # b # r \<Rightarrow>
             (case (hex_value a, hex_value b) of
                (Some x, Some y) \<Rightarrow>
                  (if mode = encodeHost \<and> x < 8 \<and> [a, b] \<noteq> ''25'' then Inl (unescape_error (c # cs))
                   else if mode = encodeZone \<and> [a, b] \<noteq> ''25'' \<and> char_of (16 * x + y) \<noteq> CHR '' ''
                        \<and> shouldEscape (char_of (16 * x + y)) encodeHost then Inl (unescape_error (c # cs))
                   else (case unescape r mode of Inl e \<Rightarrow> Inl e | Inr t \<Rightarrow> Inr (char_of (16 * x + y) # t)))
              | _ \<Rightarrow> Inl (unescape_error (c # cs)))
         | _ \<Rightarrow> Inl (unescape_error (c # cs)))
      else if mode \<in> {encodeHost, encodeZone} \<and> byte c < 0x80 \<and> shouldEscape c mode
      then Inl (Errorf ''invalid character %q in host name'' [[c]] None)
      else (case unescape cs mode of Inl e \<Rightarrow> Inl e | Inr t \<Rightarrow> Inr (c # t)))"

definition validEncoded :: "string \<Rightarrow> url_mode \<Rightarrow> bool" where
  "validEncoded s mode \<longleftrightarrow> list_all (\<lambda>c. c \<in> set ''!$&()*+,;=:@[]%'' \<or> c = CHR 0x27 \<or> \<not> shouldEscape c mode) s"

section \<open>Parse\<close>

definition strings_Cut :: "string \<Rightarrow> char \<Rightarrow> string \<times> string" where
  "strings_Cut s c = (takeWhile (\<lambda>x. x \<noteq> c) s, tl (dropWhile (\<lambda>x. x \<noteq> c) s))"

text \<open>The part after the last occurrence of a byte, and the part before it.\<close>

definition after_last :: "char \<Rightarrow> string \<Rightarrow> string" where
  "after_last c s = rev (takeWhile (\<lambda>x. x \<noteq> c) (rev s))"

definition before_last :: "char \<Rightarrow> string \<Rightarrow> string" where
  "before_last c s = take (length s - length (after_last c s) - 1) s"

definition validOptionalPort :: "string \<Rightarrow> bool" where
  "validOptionalPort p \<longleftrightarrow> p = [] \<or> (hd p = CHR '':'' \<and> list_all is_digit (tl p))"

text \<open>The scheme and what follows its colon; no scheme is the empty string.\<close>

definition getScheme :: "string \<Rightarrow> goerr + string \<times> string" where
  "getScheme raw =
     (let t = takeWhile (\<lambda>c. is_alpha c \<or> is_digit c \<or> c \<in> set ''+-.'') raw;
          r = drop (length t) raw
      in if t \<noteq> [] \<and> \<not> is_alpha (hd t) then Inr ([], raw)
         else if r \<noteq> [] \<and> hd r = CHR '':'' then
           (if t = [] then Inl (ErrorString ''missing protocol scheme'') else Inr (t, tl r))
         else Inr ([], raw))"

definition parseHost :: "(string \<Rightarrow> goerr + string) \<Rightarrow> string \<Rightarrow> goerr + string" where
  "parseHost lit host =
     (if CHR ''['' \<in> set host \<or> 1 < length (filter (\<lambda>c. c = CHR '':'') host) then lit host
      else if CHR '':'' \<in> set host \<and> \<not> validOptionalPort (CHR '':'' # after_last CHR '':'' host)
      then Inl (Errorf ''invalid port %q after host'' [CHR '':'' # after_last CHR '':'' host] None)
      else unescape host encodeHost)"

definition validUserinfo :: "string \<Rightarrow> bool" where
  "validUserinfo s \<longleftrightarrow> list_all (\<lambda>c. is_alpha c \<or> is_digit c \<or> c \<in> set ''-._:~!$&()*+,;=%@'' \<or> c = CHR 0x27) s"

definition parse_user :: "string \<Rightarrow> goerr + userinfo" where
  "parse_user s =
     (if \<not> validUserinfo s then Inl (ErrorString ''net/url: invalid userinfo'')
      else if CHR '':'' \<notin> set s then
        (case unescape s encodeUserPassword of
           Inl e \<Rightarrow> Inl e
         | Inr name \<Rightarrow> Inr \<lparr>ui_Username = name, ui_Password = None\<rparr>)
      else
        (case unescape (fst (strings_Cut s CHR '':'')) encodeUserPassword of
           Inl e \<Rightarrow> Inl e
         | Inr name \<Rightarrow>
        (case unescape (snd (strings_Cut s CHR '':'')) encodeUserPassword of
           Inl e \<Rightarrow> Inl e
         | Inr pass \<Rightarrow> Inr \<lparr>ui_Username = name, ui_Password = Some pass\<rparr>)))"

definition parseAuthority :: "(string \<Rightarrow> goerr + string) \<Rightarrow> string \<Rightarrow> goerr + userinfo option \<times> string" where
  "parseAuthority lit authority =
     (case parseHost lit (after_last CHR ''@'' authority) of
        Inl e \<Rightarrow> Inl e
      | Inr host \<Rightarrow>
          (if CHR ''@'' \<notin> set authority then Inr (None, host)
           else (case parse_user (before_last CHR ''@'' authority) of
                   Inl e \<Rightarrow> Inl e
                 | Inr user \<Rightarrow> Inr (Some user, host))))"

definition setPath :: "string \<Rightarrow> go_url \<Rightarrow> goerr + go_url" where
  "setPath p u =
     (case unescape p encodePath of
        Inl e \<Rightarrow> Inl e
      | Inr path \<Rightarrow> Inr (u\<lparr>u_Path := path, u_RawPath := (if p = url_escape path encodePath then [] else p)\<rparr>))"

definition setFragment :: "string \<Rightarrow> go_url \<Rightarrow> goerr + go_url" where
  "setFragment f u =
     (case unescape f encodeFragment of
        Inl e \<Rightarrow> Inl e
      | Inr frag \<Rightarrow> Inr (u\<lparr>u_Fragment := frag, u_RawFragment := (if f = url_escape frag encodeFragment then [] else f)\<rparr>))"

text \<open>From after the scheme, with the query cut off: the authority and the path.\<close>

definition parse_rest :: "(string \<Rightarrow> goerr + string) \<Rightarrow> string \<Rightarrow> go_url \<Rightarrow> goerr + go_url" where
  "parse_rest lit rest u =
     (if take 1 rest \<noteq> ''/'' \<and> u_Scheme u \<noteq> [] then Inr (u\<lparr>u_Opaque := rest\<rparr>)
      else if take 1 rest \<noteq> ''/'' \<and> CHR '':'' \<in> set (fst (strings_Cut rest CHR ''/''))
      then Inl (ErrorString ''first path segment in URL cannot contain colon'')
      else if (u_Scheme u \<noteq> [] \<or> take 3 rest \<noteq> ''///'') \<and> take 2 rest = ''//'' then
        (case parseAuthority lit (takeWhile (\<lambda>c. c \<noteq> CHR ''/'') (drop 2 rest)) of
           Inl e \<Rightarrow> Inl e
         | Inr (user, host) \<Rightarrow>
             setPath (dropWhile (\<lambda>c. c \<noteq> CHR ''/'') (drop 2 rest)) (u\<lparr>u_User := user, u_Host := host\<rparr>))
      else setPath rest (u\<lparr>u_OmitHost := (u_Scheme u \<noteq> [] \<and> take 1 rest = ''/'')\<rparr>))"

text \<open>A query that is present but empty is recorded by \<open>ForceQuery\<close>.\<close>

definition cut_query :: "string \<Rightarrow> string \<times> bool \<times> string" where
  "cut_query rest =
     (if rest \<noteq> [] \<and> last rest = CHR ''?'' \<and> CHR ''?'' \<notin> set (butlast rest) then (butlast rest, True, [])
      else (fst (strings_Cut rest CHR ''?''), False, snd (strings_Cut rest CHR ''?'')))"

definition url_parse :: "(string \<Rightarrow> goerr + string) \<Rightarrow> string \<Rightarrow> goerr + go_url" where
  "url_parse lit raw =
     (if \<not> list_all (\<lambda>c. 0x20 \<le> byte c \<and> byte c \<noteq> 0x7F) raw
      then Inl (ErrorString ''net/url: invalid control character in URL'')
      else if raw = ''*'' then Inr (zero_url\<lparr>u_Path := ''*''\<rparr>)
      else case getScheme raw of
        Inl e \<Rightarrow> Inl e
      | Inr (scheme, rest) \<Rightarrow>
          (case cut_query rest of
             (rest, force, query) \<Rightarrow>
               parse_rest lit rest (zero_url\<lparr>u_Scheme := map ascii_lower scheme, u_ForceQuery := force, u_RawQuery := query\<rparr>)))"

definition parse_error :: "string \<Rightarrow> goerr \<Rightarrow> goerr" where
  "parse_error u e = Errorf ''parse %q: %w'' [u] (Some e)"

definition Parse_URL :: "(string \<Rightarrow> goerr + string) \<Rightarrow> string \<Rightarrow> goerr + go_url" where
  "Parse_URL lit raw =
     (let (u, frag) = strings_Cut raw CHR ''#'' in
      case url_parse lit u of
        Inl e \<Rightarrow> Inl (parse_error u e)
      | Inr url \<Rightarrow>
          (if frag = [] then Inr url
           else (case setFragment frag url of Inl e \<Rightarrow> Inl (parse_error raw e) | Inr url \<Rightarrow> Inr url)))"

section \<open>String and Hostname\<close>

definition userinfo_String :: "userinfo \<Rightarrow> string" where
  "userinfo_String ui = url_escape (ui_Username ui) encodeUserPassword
     @ (case ui_Password ui of None \<Rightarrow> [] | Some p \<Rightarrow> '':'' @ url_escape p encodeUserPassword)"

definition EscapedPath :: "go_url \<Rightarrow> string" where
  "EscapedPath u =
     (if u_RawPath u \<noteq> [] \<and> validEncoded (u_RawPath u) encodePath \<and> unescape (u_RawPath u) encodePath = Inr (u_Path u)
      then u_RawPath u
      else if u_Path u = ''*'' then ''*''
      else url_escape (u_Path u) encodePath)"

definition EscapedFragment :: "go_url \<Rightarrow> string" where
  "EscapedFragment u =
     (if u_RawFragment u \<noteq> [] \<and> validEncoded (u_RawFragment u) encodeFragment
         \<and> unescape (u_RawFragment u) encodeFragment = Inr (u_Fragment u)
      then u_RawFragment u
      else url_escape (u_Fragment u) encodeFragment)"

definition url_authority :: "go_url \<Rightarrow> string" where
  "url_authority u =
     (if (u_Scheme u \<noteq> [] \<or> u_Host u \<noteq> [] \<or> u_User u \<noteq> None) \<and> \<not> (u_OmitHost u \<and> u_Host u = [] \<and> u_User u = None)
      then (if u_Host u \<noteq> [] \<or> u_Path u \<noteq> [] \<or> u_User u \<noteq> None then ''//'' else [])
           @ (case u_User u of None \<Rightarrow> [] | Some ui \<Rightarrow> userinfo_String ui @ ''@'')
           @ url_escape (u_Host u) encodeHost
      else [])"

definition URL_String :: "go_url \<Rightarrow> string" where
  "URL_String u =
     (let scheme = (if u_Scheme u \<noteq> [] then u_Scheme u @ '':'' else []);
          body = (if u_Opaque u \<noteq> [] then u_Opaque u
                  else
                    (let auth = url_authority u;
                         path = EscapedPath u;
                         sep = (if path \<noteq> [] \<and> hd path \<noteq> CHR ''/'' \<and> u_Host u \<noteq> [] then ''/'' else []);
                         dot = (if scheme @ auth @ sep = [] \<and> CHR '':'' \<in> set (fst (strings_Cut path CHR ''/'')) then ''./'' else [])
                     in auth @ sep @ dot @ path))
      in scheme @ body
         @ (if u_ForceQuery u \<or> u_RawQuery u \<noteq> [] then ''?'' @ u_RawQuery u else [])
         @ (if u_Fragment u \<noteq> [] then ''#'' @ EscapedFragment u else []))"

text \<open>The host without its port and without the brackets of an IPv6 literal.\<close>

definition Hostname :: "go_url \<Rightarrow> string" where
  "Hostname u =
     (let h = u_Host u;
          host = (if CHR '':'' \<in> set h \<and> validOptionalPort (CHR '':'' # after_last CHR '':'' h) then before_last CHR '':'' h else h)
      in if host \<noteq> [] \<and> hd host = CHR ''['' \<and> last host = CHR '']'' then butlast (tl host) else host)"

text \<open>A reading of bracketed hosts that refuses them all.\<close>

definition no_literals :: "string \<Rightarrow> goerr + string" where
  "no_literals s = Inl (ErrorString ''invalid host'')"

end
