(* ===== verification/Dpop.thy ===== *)
theory Dpop
  imports Nonce Replay Go_JSON Go_URL
begin

text \<open>
  dpop/proof.go and dpop/verifier.go: enforcement of DPoP proof-of-possession. The jwx functions the
  code calls are the record \<open>jose\<close>; SHA-256, the text level of encoding/json and net/url are the record
  \<open>dpop_std\<close>. A verifier holds a replay cache as the operation \<open>SeenBefore\<close> on a state that is threaded
  through the calls; each reading of a clock is an argument (\<open>now\<close> for the verifier, \<open>cnow\<close> for the
  cache), as is the randomness of a nonce.
\<close>

section \<open>Parameters\<close>

record 'key jws_header =
  jh_Type :: string
  jh_Algorithm :: string
  jh_JWK :: "'key option"

record 'key jws_message =
  jm_Signatures :: "'key jws_header list"
  jm_Payload :: string

text \<open>
  \<open>jws.Parse\<close>, \<open>jws.Verify\<close> with a given algorithm and key (whether it returns no error),
  \<open>jwk.IsPrivateKey\<close> and the SHA-256 \<open>Thumbprint\<close>; \<open>None\<close> is an error.
\<close>

record 'key jose =
  jws_Parse :: "string \<Rightarrow> 'key jws_message option"
  jws_Verify :: "string \<Rightarrow> string \<Rightarrow> 'key \<Rightarrow> bool"
  jwk_IsPrivateKey :: "'key \<Rightarrow> bool option"
  jwk_Thumbprint :: "'key \<Rightarrow> string option"

record dpop_std =
  sha256 :: "string \<Rightarrow> string"
  json_tree :: "string \<Rightarrow> json option"
  url_Parse :: "string \<Rightarrow> go_url option"
  url_String :: "go_url \<Rightarrow> string"

text \<open>A \<open>NonceSource\<close>: the randomness of \<open>Issue\<close> is an argument.\<close>

record nonce_src =
  ns_Issue :: "time \<Rightarrow> string option \<Rightarrow> string"
  ns_Validate :: "string \<Rightarrow> time \<Rightarrow> bool"

section \<open>proof.go\<close>

record proofClaims =
  pc_JTI :: string
  pc_HTM :: string
  pc_HTU :: string
  pc_IAT :: int
  pc_ATH :: string
  pc_Nonce :: string

definition zero_proofClaims :: proofClaims where
  "zero_proofClaims = \<lparr>pc_JTI = [], pc_HTM = [], pc_HTU = [], pc_IAT = 0, pc_ATH = [], pc_Nonce = []\<rparr>"

definition set_proofClaims :: "string \<Rightarrow> json \<Rightarrow> proofClaims \<Rightarrow> proofClaims option" where
  "set_proofClaims n v c =
     (if n = ''jti'' then map_option (\<lambda>x. c\<lparr>pc_JTI := x\<rparr>) (dec_string v (pc_JTI c))
      else if n = ''htm'' then map_option (\<lambda>x. c\<lparr>pc_HTM := x\<rparr>) (dec_string v (pc_HTM c))
      else if n = ''htu'' then map_option (\<lambda>x. c\<lparr>pc_HTU := x\<rparr>) (dec_string v (pc_HTU c))
      else if n = ''iat'' then map_option (\<lambda>x. c\<lparr>pc_IAT := x\<rparr>) (dec_int64 v (pc_IAT c))
      else if n = ''ath'' then map_option (\<lambda>x. c\<lparr>pc_ATH := x\<rparr>) (dec_string v (pc_ATH c))
      else map_option (\<lambda>x. c\<lparr>pc_Nonce := x\<rparr>) (dec_string v (pc_Nonce c)))"

definition unmarshal_proofClaims :: "dpop_std \<Rightarrow> string \<Rightarrow> proofClaims option" where
  "unmarshal_proofClaims std payload =
     (case json_tree std payload of
        None \<Rightarrow> None
      | Some j \<Rightarrow> decode_struct set_proofClaims [''jti'', ''htm'', ''htu'', ''iat'', ''ath'', ''nonce'']
                    zero_proofClaims j)"

definition ath :: "dpop_std \<Rightarrow> string \<Rightarrow> string" where
  "ath std accessToken = RawURL_EncodeToString (sha256 std accessToken)"

definition stripURL :: "dpop_std \<Rightarrow> string \<Rightarrow> string" where
  "stripURL std raw =
     (case url_Parse std raw of
        None \<Rightarrow> raw
      | Some u \<Rightarrow> url_String std (u\<lparr>u_RawQuery := [], u_Fragment := []\<rparr>))"

section \<open>verifier.go\<close>

abbreviation (input) Opportunistic :: int where "Opportunistic \<equiv> 0"
abbreviation (input) Require :: int where "Require \<equiv> 1"
abbreviation defaultIATLeeway :: duration where "defaultIATLeeway \<equiv> 60 * second"

definition defaultAlgs :: "string list" where
  "defaultAlgs = [''ES256'', ''ES384'', ''ES512'', ''PS256'', ''PS384'', ''PS512'', ''EdDSA'']"

record 's dpop_config =
  dc_Mode :: int
  dc_IATLeeway :: duration
  dc_ReplayCache :: "'s replay option"
  dc_AlgAllow :: "string list"
  dc_Nonce :: "nonce_src option"

record 's dpop_verifier =
  dv_mode :: int
  dv_iatLeeway :: duration
  dv_replay :: "'s replay"
  dv_algAllow :: "string set"
  dv_nonce :: "nonce_src option"

text \<open>\<open>none\<close> and the HMAC algorithms are dropped from any allowlist.\<close>

definition algSet :: "string list \<Rightarrow> string set" where
  "algSet algs = set (filter (\<lambda>a. a \<notin> {''none'', ''HS256'', ''HS384'', ''HS512''}) algs)"

definition algAllowed :: "'s dpop_verifier \<Rightarrow> string \<Rightarrow> bool" where
  "algAllowed v a \<longleftrightarrow> a \<in> dv_algAllow v"

text \<open>\<open>mem\<close> is the operation of the in-memory cache that construction creates when none is configured.\<close>

definition NewVerifier :: "'s replay \<Rightarrow> 's dpop_config \<Rightarrow> 's dpop_verifier" where
  "NewVerifier mem cfg =
     \<lparr>dv_mode = dc_Mode cfg,
      dv_iatLeeway = (if dc_IATLeeway cfg < second then defaultIATLeeway else dc_IATLeeway cfg),
      dv_replay = (case dc_ReplayCache cfg of None \<Rightarrow> mem | Some r \<Rightarrow> r),
      dv_algAllow = algSet (if dc_AlgAllow cfg = [] then defaultAlgs else dc_AlgAllow cfg),
      dv_nonce = dc_Nonce cfg\<rparr>"

record dpop_input =
  in_Proofs :: "string list"
  in_Method :: string
  in_URL :: string
  in_AccessToken :: string
  in_BoundJKT :: string

definition dpop_reject :: "string \<Rightarrow> goerr" where
  "dpop_reject reason = AuthErr (With ErrInvalidDPoPProof (ErrorString reason))"

definition checkProof :: "'key jose \<Rightarrow> dpop_std \<Rightarrow> 's dpop_verifier \<Rightarrow> string \<Rightarrow> dpop_input \<Rightarrow> time \<Rightarrow> time \<Rightarrow> 's
    \<Rightarrow> goerr option \<times> 's" where
  "checkProof jo std v proof inp now cnow st =
     (let reject = (\<lambda>reason. (Some (dpop_reject reason), st)) in
      case jws_Parse jo proof of
        None \<Rightarrow> reject ''malformed dpop proof''
      | Some msg \<Rightarrow>
     (case jm_Signatures msg of
        [hdr] \<Rightarrow>
     (if jh_Type hdr \<noteq> ''dpop+jwt'' then reject ''dpop proof typ is not dpop+jwt''
      else if \<not> algAllowed v (jh_Algorithm hdr) then reject ''dpop proof alg not allowed''
      else
      case jh_JWK hdr of
        None \<Rightarrow> reject ''dpop proof missing embedded jwk''
      | Some key \<Rightarrow>
     (if jwk_IsPrivateKey jo key \<noteq> Some False then reject ''dpop proof jwk must be a public key''
      else if \<not> jws_Verify jo proof (jh_Algorithm hdr) key then reject ''dpop proof signature invalid''
      else
      case unmarshal_proofClaims std (jm_Payload msg) of
        None \<Rightarrow> reject ''dpop proof payload invalid''
      | Some c \<Rightarrow>
     (if pc_JTI c = [] \<or> pc_HTM c = [] \<or> pc_HTU c = [] \<or> pc_IAT c = 0 \<or> pc_ATH c = []
      then reject ''dpop proof missing a required claim''
      else if pc_HTM c \<noteq> in_Method inp then reject ''dpop htm mismatch''
      else if stripURL std (pc_HTU c) \<noteq> stripURL std (in_URL inp) then reject ''dpop htu mismatch''
      else
      let iat = time_Unix (pc_IAT c) in
      if iat < time_Add now (dur_neg (dv_iatLeeway v)) \<or> iat > time_Add now (dv_iatLeeway v)
      then reject ''dpop iat outside acceptable window''
      else if pc_ATH c \<noteq> ath std (in_AccessToken inp) then reject ''dpop ath mismatch''
      else
      case jwk_Thumbprint jo key of
        None \<Rightarrow> reject ''dpop thumbprint error''
      | Some tp \<Rightarrow>
     (if RawURL_EncodeToString tp \<noteq> in_BoundJKT inp then reject ''dpop key does not match token binding''
      else if (case dv_nonce v of
                 None \<Rightarrow> False
               | Some ns \<Rightarrow> pc_Nonce c = [] \<or> \<not> ns_Validate ns (pc_Nonce c) now)
      then (Some (AuthErr (With ErrUseDPoPNonce (ErrorString ''dpop proof missing or stale nonce''))), st)
      else
      case dv_replay v st cnow (pc_JTI c) (stripURL std (pc_HTU c)) (time_Add iat (dv_iatLeeway v)) of
        (seen_before, st') \<Rightarrow>
          (if seen_before then (Some (dpop_reject ''dpop proof replayed''), st') else (None, st'))))))
      | _ \<Rightarrow> reject ''dpop proof must carry exactly one signature''))"

definition Enforce :: "'key jose \<Rightarrow> dpop_std \<Rightarrow> 's dpop_verifier \<Rightarrow> dpop_input \<Rightarrow> time \<Rightarrow> time \<Rightarrow> 's
    \<Rightarrow> goerr option \<times> 's" where
  "Enforce jo std v inp now cnow st =
     (if in_BoundJKT inp \<noteq> [] then
        (case in_Proofs inp of
           [proof] \<Rightarrow> checkProof jo std v proof inp now cnow st
         | [] \<Rightarrow> (Some (dpop_reject ''bound token presented without a dpop proof''), st)
         | _ \<Rightarrow> (Some (dpop_reject ''more than one dpop proof header''), st))
      else if dv_mode v = Require
      then (Some (dpop_reject ''dpop binding required but token is unbound''), st)
      else (None, st))"

definition IssueNonce :: "'s dpop_verifier \<Rightarrow> time \<Rightarrow> string option \<Rightarrow> string" where
  "IssueNonce v now rnd = (case dv_nonce v of None \<Rightarrow> [] | Some ns \<Rightarrow> ns_Issue ns now rnd)"

definition NonceConfigured :: "'s dpop_verifier \<Rightarrow> bool" where
  "NonceConfigured v \<longleftrightarrow> dv_nonce v \<noteq> None"

text \<open>A \<open>SignedNonce\<close> as a nonce source.\<close>

definition signed_source :: "(string \<Rightarrow> string \<Rightarrow> string) \<Rightarrow> signed_nonce \<Rightarrow> nonce_src" where
  "signed_source hmac s = \<lparr>ns_Issue = Issue hmac s, ns_Validate = nonce_Validate hmac s\<rparr>"

section \<open>What a proof must satisfy\<close>

text \<open>
  The RFC 9449 receiver checks as one predicate: \<open>holder_proof\<close> is everything but the nonce and the
  single use, \<open>nonce_ok\<close> is the nonce rule.
\<close>

definition in_window :: "'s dpop_verifier \<Rightarrow> time \<Rightarrow> time \<Rightarrow> bool" where
  "in_window v now iat \<longleftrightarrow> time_Add now (dur_neg (dv_iatLeeway v)) \<le> iat \<and> iat \<le> time_Add now (dv_iatLeeway v)"

definition holder_proof :: "'key jose \<Rightarrow> dpop_std \<Rightarrow> 's dpop_verifier \<Rightarrow> string \<Rightarrow> dpop_input \<Rightarrow> time
    \<Rightarrow> 'key \<Rightarrow> string \<Rightarrow> proofClaims \<Rightarrow> bool" where
  "holder_proof jo std v proof inp now key alg c \<longleftrightarrow>
     (\<exists>payload. jws_Parse jo proof =
         Some \<lparr>jm_Signatures = [\<lparr>jh_Type = ''dpop+jwt'', jh_Algorithm = alg, jh_JWK = Some key\<rparr>], jm_Payload = payload\<rparr>
       \<and> unmarshal_proofClaims std payload = Some c)
     \<and> algAllowed v alg \<and> jwk_IsPrivateKey jo key = Some False \<and> jws_Verify jo proof alg key
     \<and> pc_JTI c \<noteq> [] \<and> pc_HTM c \<noteq> [] \<and> pc_HTU c \<noteq> [] \<and> pc_IAT c \<noteq> 0 \<and> pc_ATH c \<noteq> []
     \<and> pc_HTM c = in_Method inp \<and> stripURL std (pc_HTU c) = stripURL std (in_URL inp)
     \<and> in_window v now (time_Unix (pc_IAT c))
     \<and> pc_ATH c = ath std (in_AccessToken inp)
     \<and> map_option RawURL_EncodeToString (jwk_Thumbprint jo key) = Some (in_BoundJKT inp)"

definition nonce_ok :: "'s dpop_verifier \<Rightarrow> time \<Rightarrow> proofClaims \<Rightarrow> bool" where
  "nonce_ok v now c \<longleftrightarrow>
     (case dv_nonce v of None \<Rightarrow> True | Some ns \<Rightarrow> pc_Nonce c \<noteq> [] \<and> ns_Validate ns (pc_Nonce c) now)"

text \<open>When the entry that records a proof expires.\<close>

definition proof_expiry :: "'s dpop_verifier \<Rightarrow> proofClaims \<Rightarrow> time" where
  "proof_expiry v c = time_Add (time_Unix (pc_IAT c)) (dv_iatLeeway v)"

definition record_proof :: "dpop_std \<Rightarrow> 's dpop_verifier \<Rightarrow> proofClaims \<Rightarrow> time \<Rightarrow> 's \<Rightarrow> bool \<times> 's" where
  "record_proof std v c cnow st = dv_replay v st cnow (pc_JTI c) (stripURL std (pc_HTU c)) (proof_expiry v c)"

definition dpop_reasons :: "string list" where
  "dpop_reasons = [''malformed dpop proof'', ''dpop proof must carry exactly one signature'',
     ''dpop proof typ is not dpop+jwt'', ''dpop proof alg not allowed'', ''dpop proof missing embedded jwk'',
     ''dpop proof jwk must be a public key'', ''dpop proof signature invalid'', ''dpop proof payload invalid'',
     ''dpop proof missing a required claim'', ''dpop htm mismatch'', ''dpop htu mismatch'',
     ''dpop iat outside acceptable window'', ''dpop ath mismatch'', ''dpop thumbprint error'',
     ''dpop key does not match token binding'', ''dpop proof replayed'',
     ''bound token presented without a dpop proof'', ''more than one dpop proof header'',
     ''dpop binding required but token is unbound'']"


definition holder_outcome :: "dpop_std \<Rightarrow> 's dpop_verifier \<Rightarrow> time \<Rightarrow> time \<Rightarrow> 's \<Rightarrow> proofClaims \<Rightarrow> goerr option \<times> 's" where
  "holder_outcome std v now cnow st c =
     (if \<not> nonce_ok v now c
      then (Some (AuthErr (With ErrUseDPoPNonce (ErrorString ''dpop proof missing or stale nonce''))), st)
      else (case record_proof std v c cnow st of
              (replayed, st') \<Rightarrow> (if replayed then Some (dpop_reject ''dpop proof replayed'') else None, st')))"

lemmas holder_defs = holder_outcome_def nonce_ok_def record_proof_def proof_expiry_def in_window_def

lemma checkProof_holder:
  "holder_proof jo std v proof inp now key alg c \<Longrightarrow>
   checkProof jo std v proof inp now cnow st = holder_outcome std v now cnow st c"
  by (auto simp: checkProof_def holder_proof_def holder_defs Let_def not_less
      split: option.splits prod.splits)

lemma checkProof_bad:
  assumes "\<And>key alg c. \<not> holder_proof jo std v proof inp now key alg c"
  shows "\<exists>r \<in> set dpop_reasons. checkProof jo std v proof inp now cnow st = (Some (dpop_reject r), st)"
proof (cases "jws_Parse jo proof")
  case None
  then show ?thesis by (simp add: checkProof_def dpop_reasons_def)
next
  case (Some msg)
  note parse = Some
  show ?thesis
  proof (cases "\<exists>key alg. jm_Signatures msg = [\<lparr>jh_Type = ''dpop+jwt'', jh_Algorithm = alg, jh_JWK = Some key\<rparr>]")
    case False
    then have "\<not> (jh_Type hdr = ''dpop+jwt'' \<and> jh_JWK hdr = Some key)" if "jm_Signatures msg = [hdr]" for hdr key
      using that by (metis jws_header.surjective old.unit.exhaust)
    with parse show ?thesis
      by (auto simp: checkProof_def dpop_reasons_def Let_def split: list.splits option.splits)
  next
    case True
    then obtain key alg where sig: "jm_Signatures msg = [\<lparr>jh_Type = ''dpop+jwt'', jh_Algorithm = alg, jh_JWK = Some key\<rparr>]"
      by blast
    then have msg: "msg = \<lparr>jm_Signatures = [\<lparr>jh_Type = ''dpop+jwt'', jh_Algorithm = alg, jh_JWK = Some key\<rparr>],
        jm_Payload = jm_Payload msg\<rparr>" by simp
    show ?thesis
    proof (cases "unmarshal_proofClaims std (jm_Payload msg)")
      case None
      with parse sig show ?thesis by (simp add: checkProof_def dpop_reasons_def Let_def)
    next
      case (Some c)
      with assms [of key alg c] parse msg sig show ?thesis
        by (auto simp: checkProof_def holder_proof_def in_window_def dpop_reasons_def Let_def split: option.splits)
    qed
  qed
qed

text \<open>Each call of \<open>Enforce\<close> is one of three kinds.\<close>

lemma Enforce_cases:
  obtains (plain) "in_BoundJKT inp = []" and "dv_mode v \<noteq> Require" and "Enforce jo std v inp now cnow st = (None, st)"
  | (holder) pf key alg c where "in_BoundJKT inp \<noteq> []" and "in_Proofs inp = [pf]"
      and "holder_proof jo std v pf inp now key alg c"
      and "Enforce jo std v inp now cnow st = holder_outcome std v now cnow st c"
  | (bad) r where "r \<in> set dpop_reasons" and "Enforce jo std v inp now cnow st = (Some (dpop_reject r), st)"
proof (cases "in_BoundJKT inp = []")
  case True
  show ?thesis
  proof (cases "dv_mode v = Require")
    case True
    show ?thesis
      by (rule bad [of "''dpop binding required but token is unbound''"])
        (use True \<open>in_BoundJKT inp = []\<close> in \<open>simp_all add: Enforce_def dpop_reasons_def\<close>)
  qed (use True plain in \<open>simp add: Enforce_def\<close>)
next
  case bound: False
  consider p where "in_Proofs inp = [p]" | "in_Proofs inp = []" | p q ps where "in_Proofs inp = p # q # ps"
    by (metis list.exhaust)
  then show ?thesis
  proof cases
    case 1
    then have e: "Enforce jo std v inp now cnow st = checkProof jo std v p inp now cnow st"
      using bound by (simp add: Enforce_def)
    show ?thesis
      using holder [OF bound 1] checkProof_holder [of jo std v p inp now] bad
        checkProof_bad [of jo std v p inp now cnow st] e by metis
  next
    case 2
    show ?thesis
      by (rule bad [of "''bound token presented without a dpop proof''"])
        (use 2 bound in \<open>simp_all add: Enforce_def dpop_reasons_def\<close>)
  next
    case 3
    show ?thesis
      by (rule bad [of "''more than one dpop proof header''"])
        (use 3 bound in \<open>simp_all add: Enforce_def dpop_reasons_def\<close>)
  qed
qed

section \<open>Single use across calls\<close>

fun enforce_calls :: "'key jose \<Rightarrow> dpop_std \<Rightarrow> 's dpop_verifier \<Rightarrow> 's \<Rightarrow> (dpop_input \<times> time \<times> time) list \<Rightarrow> 's" where
  "enforce_calls jo std v st [] = st"
| "enforce_calls jo std v st ((inp, now, cnow) # cs) =
     enforce_calls jo std v (snd (Enforce jo std v inp now cnow st)) cs"

definition proof_claims :: "'key jose \<Rightarrow> dpop_std \<Rightarrow> string \<Rightarrow> proofClaims option" where
  "proof_claims jo std p =
     (case jws_Parse jo p of None \<Rightarrow> None | Some msg \<Rightarrow> unmarshal_proofClaims std (jm_Payload msg))"

lemma holder_proof_claims: "holder_proof jo std v p inp now key alg c \<Longrightarrow> proof_claims jo std p = Some c"
  by (auto simp: holder_proof_def proof_claims_def)

lemma holder_proof_window:
  "holder_proof jo std v p inp now key alg c \<Longrightarrow> in_window v now (time_Unix (pc_IAT c))"
  by (simp add: holder_proof_def)

lemma Enforce_accepted:
  assumes "Enforce jo std v inp now cnow st = (None, st')" and "in_BoundJKT inp \<noteq> []"
  obtains p key alg c where "in_Proofs inp = [p]" and "holder_proof jo std v p inp now key alg c"
    and "nonce_ok v now c" and "record_proof std v c cnow st = (False, st')"
proof (cases rule: Enforce_cases [of inp v jo std now cnow st])
  case (holder pf key alg c)
  then show ?thesis
    using assms that by (auto simp: holder_outcome_def split: prod.splits if_splits)
qed (use assms in auto)

lemma Enforce_accepted_holder:
  assumes "Enforce jo std v inp now cnow st = (None, st')" and "in_BoundJKT inp \<noteq> []"
    and "in_Proofs inp = [p]" and "proof_claims jo std p = Some c"
  shows "\<exists>key alg. holder_proof jo std v p inp now key alg c"
proof -
  from assms(1,2) obtain p' key alg c' where "in_Proofs inp = [p']" and "holder_proof jo std v p' inp now key alg c'"
    by (rule Enforce_accepted)
  with assms(3,4) show ?thesis using holder_proof_claims by fastforce
qed

lemma Enforce_state:
  "snd (Enforce jo std v inp now cnow st) = st \<or>
   (\<exists>jti htu exp. snd (Enforce jo std v inp now cnow st) = snd (dv_replay v st cnow jti htu exp))"
proof (cases rule: Enforce_cases [of inp v jo std now cnow st])
  case (holder pf key alg c)
  then show ?thesis by (auto simp: holder_outcome_def record_proof_def split: prod.splits) (metis snd_conv)
qed auto

context replay_cache
begin

lemma enforce_calls_persist:
  assumes "dv_replay v = seen_before"
  shows "invar st \<Longrightarrow> live st t jti htu \<Longrightarrow> \<forall>x \<in> set cs. snd (snd x) \<le> t \<Longrightarrow>
    live (enforce_calls jo std v st cs) t jti htu \<and> invar (enforce_calls jo std v st cs)"
proof (induction cs arbitrary: st)
  case (Cons x cs)
  obtain inp now cnow where x: "x = (inp, now, cnow)" by (cases x)
  let ?st = "snd (Enforce jo std v inp now cnow st)"
  from Enforce_state [of jo std v inp now cnow st] have "live ?st t jti htu \<and> invar ?st"
  proof (elim disjE exE)
    fix j h e
    assume "?st = snd (dv_replay v st cnow j h e)"
    with Cons.prems x assms persists keeps_invar show ?thesis by simp
  qed (use Cons.prems in simp)
  with Cons.IH [of ?st] Cons.prems x show ?case by simp
qed simp

text \<open>
  After an accepted proof, any proof with the same jti and target is refused until the entry expires,
  whatever requests were enforced in between.
\<close>

lemma accepted_once:
  assumes cache: "dv_replay v = seen_before" and inv: "invar st"
    and first: "Enforce jo std v inp now cnow st = (None, st1)" "in_BoundJKT inp \<noteq> []"
      "in_Proofs inp = [p]" "proof_claims jo std p = Some c"
    and between: "\<forall>x \<in> set cs. snd (snd x) \<le> t" "cnow \<le> t"
    and again: "Enforce jo std v inp' now' t (enforce_calls jo std v st1 cs) = (None, st2)" "in_BoundJKT inp' \<noteq> []"
      "in_Proofs inp' = [p']" "proof_claims jo std p' = Some c'"
      "pc_JTI c' = pc_JTI c" "stripURL std (pc_HTU c') = stripURL std (pc_HTU c)"
  shows "proof_expiry v c \<le> t"
proof (rule ccontr)
  assume "\<not> proof_expiry v c \<le> t"
  then have lt: "t < proof_expiry v c" by simp
  let ?j = "pc_JTI c" and ?h = "stripURL std (pc_HTU c)"
  have "record_proof std v c cnow st = (False, st1)"
    using first by (auto elim!: Enforce_accepted dest: holder_proof_claims)
  then have rec: "seen_before st cnow ?j ?h (proof_expiry v c) = (False, st1)"
    by (simp add: record_proof_def cache)
  have "\<not> live st cnow ?j ?h" using answers [OF inv, of cnow ?j ?h "proof_expiry v c"] rec by simp
  then have "live st1 t ?j ?h" using records [OF inv _ between(2) lt] rec by (metis snd_conv)
  moreover have "invar st1" using keeps_invar [OF inv] rec by (metis snd_conv)
  ultimately have l: "live (enforce_calls jo std v st1 cs) t ?j ?h" and i: "invar (enforce_calls jo std v st1 cs)"
    using enforce_calls_persist [OF cache, of st1 t ?j ?h cs] between(1) by auto
  have "record_proof std v c' t (enforce_calls jo std v st1 cs) = (False, st2)"
    using again by (auto elim!: Enforce_accepted dest: holder_proof_claims)
  then show False
    using answers [OF i, of t ?j ?h "proof_expiry v c'"] l again(5,6) by (simp add: record_proof_def cache)
qed

end

lemma leeway_range:
  "in_int64 (dc_IATLeeway cfg) \<Longrightarrow> second \<le> dv_iatLeeway (NewVerifier mem cfg) \<and> in_int64 (dv_iatLeeway (NewVerifier mem cfg))"
  by (auto simp: NewVerifier_def in_int64_def)

text \<open>At a sane clock reading the freshness window and the cache expiry are plain sums.\<close>

lemma window_expiry:
  assumes sane: "sane_time t" and L: "second \<le> dv_iatLeeway v" "in_int64 (dv_iatLeeway v)" and w: "in_window v t iat"
  shows "time_Add iat (dv_iatLeeway v) = iat + dv_iatLeeway v \<and> t \<le> iat + dv_iatLeeway v \<and> iat \<le> t + dv_iatLeeway v"
proof -
  let ?L = "dv_iatLeeway v"
  have "time_Add t (dur_neg ?L) = t - ?L" "time_Add t ?L = t + ?L"
    using L sane_time_Add [OF sane, of "- ?L"] sane_time_Add [OF sane, of ?L]
    by (simp_all add: dur_neg_eq in_int64_def)
  with w have bounds: "t - ?L \<le> iat" "iat \<le> t + ?L" by (simp_all add: in_window_def)
  have hi: "iat + ?L \<le> 170582340873709551614" and lo: "- 37087775236854775808 \<le> iat + ?L"
    using bounds L sane by (auto simp: sane_time_def in_int64_def abs_le_iff)
  have "time_Add iat ?L = iat + ?L"
    by (rule time_Add_eq) (use zdiv_mono1 [OF lo, of second] zdiv_mono1 [OF hi, of second] in \<open>simp add: in_int64_def\<close>)
  with bounds show ?thesis by simp
qed

section \<open>A concrete deployment\<close>

text \<open>
  Values for the parameters, used to evaluate the verifier on one request: a single key, a proof whose
  payload is known, and URLs the parser rejects (so they are compared as they are).
\<close>

definition demo_jose :: "string jose" where
  "demo_jose = \<lparr>jws_Parse = (\<lambda>p. Some \<lparr>jm_Signatures = [\<lparr>jh_Type = ''dpop+jwt'', jh_Algorithm = ''ES256'',
       jh_JWK = Some ''key''\<rparr>], jm_Payload = p\<rparr>),
     jws_Verify = (\<lambda>p alg k. True), jwk_IsPrivateKey = (\<lambda>k. Some False), jwk_Thumbprint = (\<lambda>k. Some k)\<rparr>"

definition demo_std :: dpop_std where
  "demo_std = \<lparr>sha256 = (\<lambda>x. x),
     json_tree = (\<lambda>s. Some (JObj [(''jti'', JStr ''j''), (''htm'', JStr ''POST''), (''htu'', JStr ''https://a/m''),
        (''iat'', JNum ''1700000000''), (''ath'', JStr (RawURL_EncodeToString ''token'')), (''nonce'', JStr s)])),
     url_Parse = (\<lambda>s. None), url_String = (\<lambda>u. [])\<rparr>"

definition demo_claims :: "string \<Rightarrow> proofClaims" where
  "demo_claims n = \<lparr>pc_JTI = ''j'', pc_HTM = ''POST'', pc_HTU = ''https://a/m'', pc_IAT = 1700000000,
     pc_ATH = RawURL_EncodeToString ''token'', pc_Nonce = n\<rparr>"

definition demo_input :: "string \<Rightarrow> dpop_input" where
  "demo_input p = \<lparr>in_Proofs = [p], in_Method = ''POST'', in_URL = ''https://a/m'', in_AccessToken = ''token'',
     in_BoundJKT = RawURL_EncodeToString ''key''\<rparr>"

definition demo_dpop_config :: "nonce_src option \<Rightarrow> memory_replay dpop_config" where
  "demo_dpop_config n = \<lparr>dc_Mode = 0, dc_IATLeeway = 0, dc_ReplayCache = None, dc_AlgAllow = [], dc_Nonce = n\<rparr>"

abbreviation demo_iat :: time where "demo_iat \<equiv> (1700000000 + unixToInternal) * second"

lemma demo_unmarshal: "unmarshal_proofClaims demo_std n = Some (demo_claims n)"
  by (simp add: unmarshal_proofClaims_def demo_std_def decode_struct_def match_field_def set_proofClaims_def
      dec_string_def dec_int64_def parse_int64_def demo_claims_def zero_proofClaims_def)

lemma demo_jkt: "RawURL_EncodeToString ''key'' \<noteq> []"
  by (simp add: RawURL_EncodeToString_def)

lemma demo_ath: "RawURL_EncodeToString ''token'' \<noteq> []"
  by (simp add: RawURL_EncodeToString_def)

lemma demo_iat_eq: "time_Unix (pc_IAT (demo_claims n)) = demo_iat"
  by (simp add: demo_claims_def time_Unix_eq)

lemma demo_leeway: "dv_iatLeeway (NewVerifier m (demo_dpop_config n)) = 60 * second"
  by (simp add: NewVerifier_def demo_dpop_config_def)

lemma demo_holder:
  assumes "\<bar>d\<bar> \<le> 60 * second"
  shows "holder_proof demo_jose demo_std (NewVerifier m (demo_dpop_config ns)) n (demo_input n) (demo_iat + d)
    ''key'' ''ES256'' (demo_claims n)"
proof -
  have sane: "sane_time (demo_iat + d)" using assms by (simp add: sane_time_def abs_le_iff)
  have "in_window (NewVerifier m (demo_dpop_config ns)) (demo_iat + d) (time_Unix (pc_IAT (demo_claims n)))"
    using assms sane_time_Add [OF sane, of "60 * second"] sane_time_Add [OF sane, of "- (60 * second)"]
    by (simp add: in_window_def demo_leeway demo_iat_eq dur_neg_eq in_int64_def abs_le_iff)
  moreover have "algAllowed (NewVerifier m (demo_dpop_config ns)) ''ES256''"
    by (simp add: algAllowed_def NewVerifier_def demo_dpop_config_def algSet_def defaultAlgs_def)
  ultimately show ?thesis
    by (simp add: holder_proof_def demo_jose_def demo_unmarshal demo_input_def demo_ath)
      (simp add: demo_claims_def demo_ath ath_def demo_std_def)
qed

lemma demo_expiry: "proof_expiry (NewVerifier m (demo_dpop_config ns)) (demo_claims n) = demo_iat + 60 * second"
  unfolding proof_expiry_def demo_iat_eq demo_leeway
  by (subst time_Add_eq) (simp_all add: in_int64_def)

lemma demo_key: "replay_key (pc_JTI (demo_claims n)) (stripURL demo_std (pc_HTU (demo_claims n))) = ''j|https://a/m''"
  by (simp add: demo_claims_def stripURL_def demo_std_def replay_key_def)

lemma demo_record:
  "record_proof demo_std (NewVerifier SeenBefore (demo_dpop_config ns)) (demo_claims n) cnow NewMemoryReplayCache =
    (False, \<lparr>seen = [(''j|https://a/m'', demo_iat + 60 * second)]\<rparr>)"
  unfolding record_proof_def demo_expiry
  by (simp add: NewVerifier_def demo_dpop_config_def SeenBefore_live mem_live_def NewMemoryReplayCache_def demo_key Let_def)

lemma demo_nonce: "nonce_ok (NewVerifier m (demo_dpop_config None)) now c"
  by (simp add: nonce_ok_def NewVerifier_def demo_dpop_config_def)

lemma demo_accepted:
  assumes "\<bar>d\<bar> \<le> 60 * second"
  shows "Enforce demo_jose demo_std (NewVerifier SeenBefore (demo_dpop_config None)) (demo_input n) (demo_iat + d) cnow
      NewMemoryReplayCache = (None, \<lparr>seen = [(''j|https://a/m'', demo_iat + 60 * second)]\<rparr>)"
  using checkProof_holder [OF demo_holder [OF assms]] demo_jkt
  by (simp add: Enforce_def demo_input_def holder_outcome_def demo_record demo_nonce)

text \<open>The same proof again, at the instant its window ends.\<close>

lemma demo_boundary:
  "Enforce demo_jose demo_std (NewVerifier SeenBefore (demo_dpop_config None)) (demo_input n) (demo_iat + 60 * second) (demo_iat + 60 * second)
     \<lparr>seen = [(''j|https://a/m'', demo_iat + 60 * second)]\<rparr> = (None, \<lparr>seen = [(''j|https://a/m'', demo_iat + 60 * second)]\<rparr>)"
proof -
  let ?v = "NewVerifier SeenBefore (demo_dpop_config None)" and ?t = "demo_iat + 60 * second"
  let ?st = "\<lparr>seen = [(''j|https://a/m'', demo_iat + 60 * second)]\<rparr>"
  have rec: "record_proof demo_std ?v (demo_claims n) ?t ?st = (False, ?st)"
    unfolding record_proof_def demo_expiry
    by (simp add: NewVerifier_def demo_dpop_config_def SeenBefore_live mem_live_def demo_key Let_def)
  have h: "holder_proof demo_jose demo_std ?v n (demo_input n) ?t ''key'' ''ES256'' (demo_claims n)"
    by (rule demo_holder) simp
  show ?thesis
    using checkProof_holder [OF h] demo_jkt rec
    by (simp add: Enforce_def demo_input_def holder_outcome_def demo_nonce)
qed

section \<open>Properties\<close>

text \<open>C1: a request is accepted exactly when its token is unbound and binding is not required, or it
  carries exactly one DPoP proof that passes every check of RFC 9449 (one signature, type, allowed
  algorithm, embedded public key, signature under that key, required claims, method, target, freshness,
  access-token hash, key thumbprint equal to the token's binding), with an acceptable nonce when one is
  required, and whose identifier the replay cache had not seen. A bound token is never accepted as a
  plain bearer.\<close>

theorem Enforce_accepts_iff:
  "Enforce jo std v inp now cnow st = (None, st') \<longleftrightarrow>
    (if in_BoundJKT inp = [] then dv_mode v \<noteq> 1 \<and> st' = st
     else (\<exists>p key alg c. in_Proofs inp = [p] \<and> holder_proof jo std v p inp now key alg c
            \<and> nonce_ok v now c \<and> record_proof std v c cnow st = (False, st')))"
proof (cases "in_BoundJKT inp = []")
  case False
  have "Enforce jo std v inp now cnow st = (None, st')"
    if "in_Proofs inp = [p]" "holder_proof jo std v p inp now key alg c" "nonce_ok v now c"
      "record_proof std v c cnow st = (False, st')" for p key alg c
    using that False by (simp add: Enforce_def checkProof_holder holder_outcome_def)
  moreover have "\<exists>p key alg c. in_Proofs inp = [p] \<and> holder_proof jo std v p inp now key alg c
      \<and> nonce_ok v now c \<and> record_proof std v c cnow st = (False, st')"
    if "Enforce jo std v inp now cnow st = (None, st')"
    using that False by (rule Enforce_accepted) blast
  ultimately show ?thesis using False by auto
qed (auto simp: Enforce_def)

text \<open>C35: whatever allowlist is configured, an enforced request is never accepted with an unsigned or
  symmetric proof, and the algorithm is one of the configured ones, or of the asymmetric defaults when
  none is configured.\<close>

theorem Enforce_never_symmetric:
  assumes "Enforce jo std (NewVerifier mem cfg) inp now cnow st = (None, st')" and "in_BoundJKT inp \<noteq> []"
  shows "\<exists>p key alg c. in_Proofs inp = [p] \<and> holder_proof jo std (NewVerifier mem cfg) p inp now key alg c
    \<and> jws_Verify jo p alg key \<and> alg \<notin> {''none'', ''HS256'', ''HS384'', ''HS512''}
    \<and> alg \<in> set (if dc_AlgAllow cfg = [] then [''ES256'', ''ES384'', ''ES512'', ''PS256'', ''PS384'', ''PS512'', ''EdDSA'']
                  else dc_AlgAllow cfg)"
proof -
  from assms obtain p key alg c where p: "in_Proofs inp = [p]"
    and h: "holder_proof jo std (NewVerifier mem cfg) p inp now key alg c"
    by (rule Enforce_accepted)
  from h have "alg \<in> algSet (if dc_AlgAllow cfg = [] then defaultAlgs else dc_AlgAllow cfg)"
    and "jws_Verify jo p alg key"
    by (simp_all add: holder_proof_def algAllowed_def NewVerifier_def)
  then have "jws_Verify jo p alg key" and "alg \<notin> {''none'', ''HS256'', ''HS384'', ''HS512''}"
    and "alg \<in> set (if dc_AlgAllow cfg = [] then defaultAlgs else dc_AlgAllow cfg)"
    by (simp_all add: algSet_def)
  with p h show ?thesis unfolding defaultAlgs_def by blast
qed

theorem Enforce_never_symmetric_witness:
  "\<exists>p key alg c. in_Proofs (demo_input []) = [p]
     \<and> holder_proof demo_jose demo_std (NewVerifier SeenBefore (demo_dpop_config None)) p (demo_input []) demo_iat key alg c
     \<and> alg \<notin> {''none'', ''HS256'', ''HS384'', ''HS512''}"
proof -
  have b: "in_BoundJKT (demo_input []) \<noteq> []" using demo_jkt by (simp add: demo_input_def)
  have e: "Enforce demo_jose demo_std (NewVerifier SeenBefore (demo_dpop_config None)) (demo_input []) demo_iat 0
      NewMemoryReplayCache = (None, \<lparr>seen = [(''j|https://a/m'', demo_iat + 60 * second)]\<rparr>)"
    using demo_accepted [of 0 "[]"] by simp
  show ?thesis using Enforce_never_symmetric [OF e b] by blast
qed

text \<open>C36: a rejection is ErrInvalidDPoPProof or ErrUseDPoPNonce with one of a fixed list of constant
  reasons, so neither the token nor the proof reaches a log through it; and the replay cache is only
  consulted by a proof that passed every other check: otherwise its state is unchanged.\<close>

theorem Enforce_rejection_constant:
  assumes "Enforce jo std v inp now cnow st = (Some e, st')"
  shows "(e = AuthErr (With ErrUseDPoPNonce (ErrorString ''dpop proof missing or stale nonce'')) \<and> st' = st)
    \<or> (\<exists>r \<in> set dpop_reasons. e = AuthErr (With ErrInvalidDPoPProof (ErrorString r))
        \<and> (st' = st \<or> (\<exists>p key alg c. in_Proofs inp = [p] \<and> holder_proof jo std v p inp now key alg c
              \<and> nonce_ok v now c \<and> record_proof std v c cnow st = (True, st'))))"
proof (cases rule: Enforce_cases [of inp v jo std now cnow st])
  case (holder pf key alg c)
  show ?thesis
  proof (cases "nonce_ok v now c")
    case True
    with holder assms have "record_proof std v c cnow st = (True, st')" and "e = dpop_reject ''dpop proof replayed''"
      by (auto simp: holder_outcome_def split: prod.splits if_splits)
    with holder True show ?thesis by (auto simp: dpop_reject_def dpop_reasons_def)
  qed (use holder assms in \<open>simp add: holder_outcome_def\<close>)
qed (use assms in \<open>auto simp: dpop_reject_def\<close>)

theorem Enforce_rejection_constant_witness:
  "\<exists>e. Enforce demo_jose demo_std (NewVerifier SeenBefore (demo_dpop_config None)) (demo_input []\<lparr>in_Proofs := []\<rparr>)
      demo_iat 0 NewMemoryReplayCache = (Some e, NewMemoryReplayCache)
    \<and> (\<exists>r. r \<in> set dpop_reasons \<and> e = AuthErr (With ErrInvalidDPoPProof (ErrorString r)))"
proof -
  have e: "Enforce demo_jose demo_std (NewVerifier SeenBefore (demo_dpop_config None)) (demo_input []\<lparr>in_Proofs := []\<rparr>)
      demo_iat 0 NewMemoryReplayCache =
      (Some (dpop_reject ''bound token presented without a dpop proof''), NewMemoryReplayCache)"
    using demo_jkt by (simp add: Enforce_def demo_input_def)
  show ?thesis
    using Enforce_rejection_constant [OF e] e
    by (auto simp: dpop_reject_def With_def ErrInvalidDPoPProof_def ErrUseDPoPNonce_def)
qed

text \<open>A proof is single-use. With the in-memory cache, after a request with a proof was accepted, the
  same proof is accepted again, on the same clock and whatever requests came in between, only at the one
  instant that ends its freshness window, iat plus the leeway, which still belongs to the closed
  window while the cache entry has already expired.\<close>

theorem dpop_proof_single_use:
  assumes v: "v = NewVerifier SeenBefore cfg" "dc_ReplayCache cfg = None" "in_int64 (dc_IATLeeway cfg)"
    and inv: "wf_gomap (seen st)" and sane: "sane_time t"
    and first: "Enforce jo std v inp now cnow st = (None, st1)" "in_BoundJKT inp \<noteq> []"
      "in_Proofs inp = [p]" "proof_claims jo std p = Some c"
    and between: "\<forall>x \<in> set cs. snd (snd x) \<le> t" "cnow \<le> t"
    and again: "Enforce jo std v inp' t t (enforce_calls jo std v st1 cs) = (None, st2)" "in_BoundJKT inp' \<noteq> []"
      "in_Proofs inp' = [p]"
  shows "t = time_Unix (pc_IAT c) + dv_iatLeeway v"
proof -
  have L: "second \<le> dv_iatLeeway v" "in_int64 (dv_iatLeeway v)" using v leeway_range [of cfg SeenBefore] by simp_all
  have "dv_replay v = SeenBefore" using v by (simp add: NewVerifier_def)
  then have le: "proof_expiry v c \<le> t"
    using memory_replay.accepted_once [OF _ inv first between again first(4)] by simp
  obtain key alg where "holder_proof jo std v p inp' t key alg c"
    using Enforce_accepted_holder [OF again first(4)] by blast
  from window_expiry [OF sane L holder_proof_window [OF this]] le show ?thesis by (simp add: proof_expiry_def)
qed

theorem dpop_proof_single_use_witness:
  "let v = NewVerifier SeenBefore (demo_dpop_config None); t = demo_iat + 60 * second;
       st1 = snd (Enforce demo_jose demo_std v (demo_input []) demo_iat demo_iat NewMemoryReplayCache)
   in fst (Enforce demo_jose demo_std v (demo_input []) demo_iat demo_iat NewMemoryReplayCache) = None
    \<and> fst (Enforce demo_jose demo_std v (demo_input []) t t st1) = None
    \<and> t = time_Unix (pc_IAT (demo_claims [])) + dv_iatLeeway v"
proof -
  let ?v = "NewVerifier SeenBefore (demo_dpop_config None)" and ?t = "demo_iat + 60 * second"
  let ?st = "\<lparr>seen = [(''j|https://a/m'', demo_iat + 60 * second)]\<rparr>"
  have first: "Enforce demo_jose demo_std ?v (demo_input []) demo_iat demo_iat NewMemoryReplayCache = (None, ?st)"
    using demo_accepted [of 0 "[]" demo_iat] by simp
  have b: "in_BoundJKT (demo_input []) \<noteq> []" using demo_jkt by (simp add: demo_input_def)
  have again: "Enforce demo_jose demo_std ?v (demo_input []) ?t ?t ?st = (None, ?st)" by (rule demo_boundary)
  have c: "proof_claims demo_jose demo_std [] = Some (demo_claims [])"
    using holder_proof_claims [OF demo_holder [where d = 0 and n = "[]"]] by simp
  have "?t = time_Unix (pc_IAT (demo_claims [])) + dv_iatLeeway ?v"
  proof (rule dpop_proof_single_use [of ?v "demo_dpop_config None" NewMemoryReplayCache ?t demo_jose demo_std
        "demo_input []" demo_iat demo_iat ?st "[]" "demo_claims []" "[]" "demo_input []" ?st])
    show "Enforce demo_jose demo_std ?v (demo_input []) ?t ?t (enforce_calls demo_jose demo_std ?v ?st []) = (None, ?st)"
      using again by simp
  qed (use first b c in \<open>simp_all add: demo_dpop_config_def demo_input_def NewMemoryReplayCache_def sane_time_def
      in_int64_def wf_gomap_def\<close>)
  with first again show ?thesis by (simp add: Let_def)
qed

end
