(* ===== verification/Go_HTTP.thy ===== *)
theory Go_HTTP
  imports Claims Dpop
begin

text \<open>
  The parts of net/http the transports use: headers with canonical keys, requests, and a response writer
  whose headers are frozen by the first status line. Bodies are kept as the values the handlers write;
  write errors of the connection are not represented.
\<close>

section \<open>Headers\<close>

type_synonym header = "(string, string list) gomap"

text \<open>\<open>textproto.CanonicalMIMEHeaderKey\<close> for keys made of token characters.\<close>

fun canonical_loop :: "bool \<Rightarrow> string \<Rightarrow> string" where
  "canonical_loop up [] = []"
| "canonical_loop up (c # cs) =
     (if up then ascii_upper c else ascii_lower c) # canonical_loop (c = CHR ''-'') cs"

definition CanonicalHeaderKey :: "string \<Rightarrow> string" where
  "CanonicalHeaderKey k = canonical_loop True k"

definition Header_Values :: "header \<Rightarrow> string \<Rightarrow> string list" where
  "Header_Values h k = (case map_of h (CanonicalHeaderKey k) of None \<Rightarrow> [] | Some vs \<Rightarrow> vs)"

definition Header_Get :: "header \<Rightarrow> string \<Rightarrow> string" where
  "Header_Get h k = (case Header_Values h k of [] \<Rightarrow> [] | v # vs \<Rightarrow> v)"

definition Header_Set :: "header \<Rightarrow> string \<Rightarrow> string \<Rightarrow> header" where
  "Header_Set h k v = AList.update (CanonicalHeaderKey k) [v] h"

definition Header_Del :: "header \<Rightarrow> string \<Rightarrow> header" where
  "Header_Del h k = AList.delete (CanonicalHeaderKey k) h"

lemma CanonicalHeaderKey_DPoP_Nonce: "CanonicalHeaderKey ''DPoP-Nonce'' = ''Dpop-Nonce''"
  by code_simp

lemma Header_Values_Set [simp]:
  "Header_Values (Header_Set h k v) k' =
    (if CanonicalHeaderKey k' = CanonicalHeaderKey k then [v] else Header_Values h k')"
  by (simp add: Header_Values_def Header_Set_def update_conv')

lemma Header_Get_Set [simp]:
  "Header_Get (Header_Set h k v) k' =
    (if CanonicalHeaderKey k' = CanonicalHeaderKey k then v else Header_Get h k')"
  by (simp add: Header_Get_def)

lemma Header_Get_Del [simp]:
  "Header_Get (Header_Del h k) k' =
    (if CanonicalHeaderKey k' = CanonicalHeaderKey k then [] else Header_Get h k')"
  by (simp add: Header_Get_def Header_Values_def Header_Del_def delete_conv')

section \<open>Requests and responses\<close>

record http_request =
  rq_Method :: string
  rq_Host :: string
  rq_Path :: string
  rq_TLS :: bool
  rq_Header :: header
  rq_Context :: go_context

datatype body_part = BodyText string | BodyJSON json

text \<open>\<open>rs_sent\<close> is the status line and the headers that went out with it, once written.\<close>

record response =
  rs_header :: header
  rs_sent :: "(int \<times> header) option"
  rs_body :: "body_part list"

definition new_response :: response where
  "new_response = \<lparr>rs_header = [], rs_sent = None, rs_body = []\<rparr>"

definition set_header :: "string \<Rightarrow> string \<Rightarrow> response \<Rightarrow> response" where
  "set_header k v w = w\<lparr>rs_header := Header_Set (rs_header w) k v\<rparr>"

text \<open>An informational status (1xx other than 101) is sent at once and leaves the final one open.\<close>

definition informational :: "int \<Rightarrow> bool" where
  "informational code \<longleftrightarrow> 100 \<le> code \<and> code \<le> 199 \<and> code \<noteq> 101"

definition WriteHeader :: "int \<Rightarrow> response \<Rightarrow> response" where
  "WriteHeader code w =
     (if rs_sent w = None \<and> \<not> informational code then w\<lparr>rs_sent := Some (code, rs_header w)\<rparr> else w)"

definition Write :: "body_part \<Rightarrow> response \<Rightarrow> response" where
  "Write b w = (let w' = WriteHeader 200 w in w'\<lparr>rs_body := rs_body w' @ [b]\<rparr>)"

definition http_Error :: "string \<Rightarrow> int \<Rightarrow> response \<Rightarrow> response" where
  "http_Error msg code w =
     Write (BodyText (msg @ [CHR 0x0A]))
       (WriteHeader code
         (set_header ''X-Content-Type-Options'' ''nosniff''
           (set_header ''Content-Type'' ''text/plain; charset=utf-8''
             (w\<lparr>rs_header := Header_Del (rs_header w) ''Content-Length''\<rparr>))))"

text \<open>A handler: it answers on the writer and may change the application's state.\<close>

type_synonym 'w handler = "http_request \<Rightarrow> response \<Rightarrow> 'w \<Rightarrow> response \<times> 'w"

lemmas response_simps = set_header_def WriteHeader_def Write_def http_Error_def informational_def Let_def

section \<open>Header values\<close>

text \<open>The bytes a quoted string keeps, and those a header field may hold.\<close>

definition quoted_ok :: "char \<Rightarrow> bool" where
  "quoted_ok c \<longleftrightarrow> \<not> (c = CHR 0x22 \<or> c = CHR 0x5C \<or> (of_char c :: nat) < 0x20 \<or> (of_char c :: nat) = 0x7F)"

definition field_byte :: "char \<Rightarrow> bool" where
  "field_byte c \<longleftrightarrow> 0x20 \<le> (of_char c :: nat) \<and> (of_char c :: nat) \<noteq> 0x7F"

lemma quoted_ok_field: "quoted_ok c \<Longrightarrow> field_byte c"
  by (simp add: quoted_ok_def field_byte_def)

lemma list_all_Join:
  "list_all P sep \<Longrightarrow> \<forall>w \<in> set ws. list_all P w \<Longrightarrow> list_all P (strings_Join ws sep)"
  by (induction ws sep rule: strings_Join.induct) auto

end
