(* ===== verification/Policy.thy ===== *)
theory Policy
  imports Claims
begin

text \<open>
  verifier.go and authorizer.go: the two kinds of authorization policy, run on the token at
  validation time (\<open>ClaimVerifier\<close>) or on the typed claims later (\<open>Authorizer\<close>). Both are functions
  from a context and a subject to an error, nil meaning allowed. The locale \<open>access_policy\<close> is what a
  caller of either relies on; every policy constructor of the library is an instance of it.
\<close>

type_synonym claim_verifier = "go_context \<Rightarrow> jwt_token \<Rightarrow> goerr option"
type_synonym authorizer = "go_context \<Rightarrow> claims \<Rightarrow> goerr option"

section \<open>The operations\<close>

text \<open>The Go set literal \<open>have := map[string]struct{}\<close> filled in a loop.\<close>

fun fill_set :: "string list \<Rightarrow> string set \<Rightarrow> string set" where
  "fill_set [] have = have"
| "fill_set (s # ss) have = fill_set ss (insert s have)"

definition VerifyRequiredStringClaims :: "(string, string) gomap \<Rightarrow> claim_verifier" where
  "VerifyRequiredStringClaims required ctx tok =
     first_some (\<lambda>(name, want).
       case tok_Get tok name of
         None \<Rightarrow> Some (AuthErr (With ErrForbidden (Errorf ''claim %q missing'' [name] None)))
       | Some raw \<Rightarrow>
           (case raw of
              AnyString got \<Rightarrow>
                (if got \<noteq> want
                 then Some (AuthErr (With ErrForbidden (Errorf ''claim %q != %q'' [name, want] None)))
                 else None)
            | _ \<Rightarrow> Some (AuthErr (With ErrForbidden (Errorf ''claim %q != %q'' [name, want] None)))))
       required"

definition missing_scope :: "string \<Rightarrow> goerr" where
  "missing_scope want = AuthErr (With ErrInsufficientScope (Errorf ''missing scope %q'' [want] None))"

definition RequireScopes :: "string list \<Rightarrow> claim_verifier" where
  "RequireScopes required ctx tok =
     (if length required = 0 then None
      else let have = fill_set (scopesFromToken tok) {} in
        first_some (\<lambda>want. if want \<in> have then None else Some (missing_scope want)) required)"

definition HasScopes :: "string list \<Rightarrow> authorizer" where
  "HasScopes required ctx c =
     (if length required = 0 then None
      else let have = fill_set (Scopes c) {} in
        first_some (\<lambda>want. if want \<in> have then None else Some (missing_scope want)) required)"

fun any_present :: "string set \<Rightarrow> string list \<Rightarrow> bool" where
  "any_present have [] = False"
| "any_present have (want # rest) = (if want \<in> have then True else any_present have rest)"

definition HasAnyScope :: "string list \<Rightarrow> authorizer" where
  "HasAnyScope scopes ctx c =
     (if length scopes = 0 then None
      else let have = fill_set (Scopes c) {} in
        if any_present have scopes then None
        else Some (AuthErr (With ErrInsufficientScope (Errorf ''none of the scopes %v present'' scopes None))))"

definition HasClaim :: "string \<Rightarrow> string \<Rightarrow> authorizer" where
  "HasClaim name value ctx c =
     (case Raw c name of
        Some got \<Rightarrow> (if got \<noteq> value then Some (AuthErr (With ErrForbidden (Errorf ''claim %q != %q'' [name, value] None)))
                     else None)
      | None \<Rightarrow> Some (AuthErr (With ErrForbidden (Errorf ''claim %q != %q'' [name, value] None))))"

fun AllOf :: "authorizer list \<Rightarrow> authorizer" where
  "AllOf [] ctx c = None"
| "AllOf (a # azs) ctx c = (case a ctx c of Some err \<Rightarrow> Some err | None \<Rightarrow> AllOf azs ctx c)"

fun AnyOf :: "authorizer list \<Rightarrow> authorizer" where
  "AnyOf [] ctx c = Some (AuthErr (With ErrForbidden (ErrorString ''no authorizer allowed the request'')))"
| "AnyOf (a # azs) ctx c = (if a ctx c = None then None else AnyOf azs ctx c)"

definition AllowAll :: authorizer where
  "AllowAll ctx c = None"

definition DenyAll :: authorizer where
  "DenyAll ctx c = Some (AuthErr ErrForbidden)"

section \<open>Helper lemmas\<close>

lemma fill_set_eq: "fill_set ss hv = set ss \<union> hv"
  by (induction ss arbitrary: hv) auto

lemma any_present_eq: "any_present hv ws \<longleftrightarrow> (\<exists>w \<in> set ws. w \<in> hv)"
  by (induction ws) auto

lemma AllOf_None: "AllOf azs ctx c = None \<longleftrightarrow> (\<forall>a \<in> set azs. a ctx c = None)"
  by (induction azs) (auto split: option.splits)

lemma AllOf_Some_in: "AllOf azs ctx c = Some e \<Longrightarrow> \<exists>a \<in> set azs. a ctx c = Some e"
  by (induction azs) (auto split: option.splits)

lemma AnyOf_None: "AnyOf azs ctx c = None \<longleftrightarrow> (\<exists>a \<in> set azs. a ctx c = None)"
  by (induction azs) auto

lemma AnyOf_Some:
  "AnyOf azs ctx c = Some e \<Longrightarrow>
   e = AuthErr (With ErrForbidden (ErrorString ''no authorizer allowed the request''))"
  by (induction azs) (auto split: if_splits)

definition denies_403 :: "goerr \<Rightarrow> bool" where
  "denies_403 e \<longleftrightarrow> (\<exists>ae. errors_As e = Some ae \<and> HTTPStatus ae = 403 \<and>
     (Code ae = Code ErrForbidden \<and> Message ae = Message ErrForbidden \<or>
      Code ae = Code ErrInsufficientScope \<and> Message ae = Message ErrInsufficientScope))"

lemma denies_403_intros [simp]:
  "denies_403 (AuthErr (With ErrForbidden x))"
  "denies_403 (AuthErr (With ErrInsufficientScope x))"
  "denies_403 (AuthErr ErrForbidden)"
  "denies_403 (missing_scope w)"
  by (simp_all add: denies_403_def missing_scope_def) (simp_all add: sentinel_defs)

section \<open>The contract of a policy\<close>

text \<open>
  \<open>decide\<close> allows exactly the subjects \<open>permits\<close> describes, and a denial is a 403 whose public code and
  message are those of \<open>ErrForbidden\<close> or \<open>ErrInsufficientScope\<close>.
\<close>

locale access_policy =
  fixes decide :: "go_context \<Rightarrow> 'a \<Rightarrow> goerr option"
    and permits :: "'a \<Rightarrow> bool"
  assumes decides: "decide ctx x = None \<longleftrightarrow> permits x"
    and denial: "decide ctx x = Some e \<Longrightarrow> denies_403 e"
begin

lemma context_independent: "(decide ctx x = None) = (decide ctx' x = None)"
  by (simp add: decides)

lemma denied_status: "\<not> permits x \<Longrightarrow> \<exists>e ae. decide ctx x = Some e \<and> errors_As e = Some ae \<and> HTTPStatus ae = 403"
  using decides [of ctx x] denial [of ctx x] by (cases "decide ctx x") (auto simp: denies_403_def)

end

interpretation verify_required: access_policy
  "VerifyRequiredStringClaims required"
  "\<lambda>tok. \<forall>(name, want) \<in> set required. tok_Get tok name = Some (AnyString want)"
  for required
proof unfold_locales
  fix ctx tok e
  show "(VerifyRequiredStringClaims required ctx tok = None) =
      (\<forall>(name, want) \<in> set required. tok_Get tok name = Some (AnyString want))"
    by (auto simp: VerifyRequiredStringClaims_def split: option.splits any_val.splits if_splits)
  assume "VerifyRequiredStringClaims required ctx tok = Some e"
  then show "denies_403 e"
    by (auto simp: VerifyRequiredStringClaims_def dest!: first_some_in
        split: option.splits any_val.splits if_splits)
qed

interpretation require_scopes: access_policy
  "RequireScopes required" "\<lambda>tok. set required \<subseteq> set (scopesFromToken tok)" for required
  by unfold_locales
    (auto simp: RequireScopes_def fill_set_eq Let_def dest!: first_some_in split: if_splits)

interpretation has_scopes: access_policy
  "HasScopes required" "\<lambda>c. set required \<subseteq> set (Scopes c)" for required
  by unfold_locales
    (auto simp: HasScopes_def fill_set_eq Let_def dest!: first_some_in split: if_splits)

interpretation has_any_scope: access_policy
  "HasAnyScope scopes" "\<lambda>c. scopes = [] \<or> set scopes \<inter> set (Scopes c) \<noteq> {}" for scopes
  by unfold_locales (auto simp: HasAnyScope_def fill_set_eq any_present_eq Let_def split: if_splits)

interpretation has_claim: access_policy
  "HasClaim name v" "\<lambda>c. Raw c name = Some v" for name v
  by unfold_locales (auto simp: HasClaim_def split: option.splits if_splits)

interpretation allow_all: access_policy AllowAll "\<lambda>c. True"
  by unfold_locales (auto simp: AllowAll_def)

interpretation deny_all: access_policy DenyAll "\<lambda>c. False"
  by unfold_locales (auto simp: DenyAll_def)

section \<open>Composed policies\<close>

text \<open>
  The policies a deployment can write with the constructors, as syntax: \<open>compile\<close> builds the
  Authorizer the Go expression builds, \<open>permits\<close> is the intended meaning as a predicate on claims.
\<close>

datatype policy =
    PHasScopes "string list"
  | PHasAnyScope "string list"
  | PHasClaim string string
  | PAllOf "policy list"
  | PAnyOf "policy list"
  | PAllowAll
  | PDenyAll

fun compile :: "policy \<Rightarrow> authorizer" where
  "compile (PHasScopes ss) = HasScopes ss"
| "compile (PHasAnyScope ss) = HasAnyScope ss"
| "compile (PHasClaim n v) = HasClaim n v"
| "compile (PAllOf ps) = AllOf (map compile ps)"
| "compile (PAnyOf ps) = AnyOf (map compile ps)"
| "compile PAllowAll = AllowAll"
| "compile PDenyAll = DenyAll"

fun permits :: "policy \<Rightarrow> claims \<Rightarrow> bool" where
  "permits (PHasScopes ss) c = (set ss \<subseteq> set (Scopes c))"
| "permits (PHasAnyScope ss) c = (ss = [] \<or> set ss \<inter> set (Scopes c) \<noteq> {})"
| "permits (PHasClaim n v) c = (Raw c n = Some v)"
| "permits (PAllOf ps) c = list_all (\<lambda>p. permits p c) ps"
| "permits (PAnyOf ps) c = list_ex (\<lambda>p. permits p c) ps"
| "permits PAllowAll c = True"
| "permits PDenyAll c = False"

lemma compile_decides: "compile p ctx c = None \<longleftrightarrow> permits p c"
  by (induction p rule: compile.induct)
    (auto simp: has_scopes.decides has_any_scope.decides has_claim.decides allow_all.decides deny_all.decides
      AllOf_None AnyOf_None list_all_iff list_ex_iff)

lemma compile_denial: "compile p ctx c = Some e \<Longrightarrow> denies_403 e"
proof (induction p arbitrary: e rule: compile.induct)
  case (4 ps)
  then show ?case by (auto dest!: AllOf_Some_in)
next
  case (5 ps)
  then show ?case by (auto dest!: AnyOf_Some)
qed (auto intro: has_scopes.denial has_any_scope.denial has_claim.denial allow_all.denial deny_all.denial)

interpretation compiled: access_policy "compile p" "permits p" for p
  by unfold_locales (simp add: compile_decides, rule compile_denial)

lemma permits_mono:
  "permits p c \<Longrightarrow> set (Scopes c) \<subseteq> set (Scopes c') \<Longrightarrow> Raw c' = Raw c \<Longrightarrow> permits p c'"
proof (induction p)
  case (PAllOf ps)
  then show ?case by (auto simp: list_all_iff)
next
  case (PAnyOf ps)
  then show ?case by (auto simp: list_ex_iff)
qed auto

text \<open>C14: every policy built from the library's constructors decides exactly its boolean meaning on the
  claims, whatever the context.\<close>

theorem authorizer_composition_sound:
  "(compile p ctx c = None) = permits p c"
  by (rule compiled.decides)

text \<open>Whatever composed policy denies, the denial is an HTTP 403 whose public code and message are
  those of \<open>ErrForbidden\<close> or \<open>ErrInsufficientScope\<close>: the wrapped reason never shows.\<close>

theorem authorizer_denial_is_403:
  assumes "compile p ctx c = Some e"
  shows "\<exists>ae. errors_As e = Some ae \<and> HTTPStatus ae = 403 \<and>
     (Code ae, Message ae) \<in> {(Code ErrForbidden, Message ErrForbidden),
        (Code ErrInsufficientScope, Message ErrInsufficientScope)}"
  using compiled.denial [OF assms] by (auto simp: denies_403_def)

theorem authorizer_denial_is_403_witness:
  "\<exists>c e. compile (PAllOf [PAllowAll, PDenyAll]) [] c = Some e \<and> e = AuthErr ErrForbidden \<and>
     (\<exists>ae. errors_As e = Some ae \<and> HTTPStatus ae = 403)"
proof -
  let ?c = "undefined :: claims"
  have d: "compile (PAllOf [PAllowAll, PDenyAll]) [] ?c = Some (AuthErr ErrForbidden)"
    by (simp add: AllowAll_def DenyAll_def)
  show ?thesis using d authorizer_denial_is_403 [OF d] by blast
qed

text \<open>Authorization is monotone in the scopes: a caller who is allowed stays allowed when the token
  carries more scopes and the same private claims.\<close>

theorem authorizer_scope_monotone:
  assumes "compile p ctx c = None" and "set (Scopes c) \<subseteq> set (Scopes c')" and "Raw c' = Raw c"
  shows "compile p ctx' c' = None"
  using assms permits_mono by (simp add: compile_decides)

definition scoped_claims :: "string list \<Rightarrow> claims" where
  "scoped_claims ss = \<lparr>Subject = ''u'', Email = [], Issuer = [], Audience = [], ExpiresAt = 0, IssuedAt = 0,
     Scopes = ss, Confirmation = [], Raw = Map.empty\<rparr>"

theorem authorizer_scope_monotone_witness:
  "compile (PHasScopes [''a'']) [] (scoped_claims [''a'']) = None \<and>
   compile (PHasScopes [''a'']) [] (scoped_claims [''b'', ''a'']) = None"
proof -
  have h: "compile (PHasScopes [''a'']) [] (scoped_claims [''a'']) = None"
    by (simp add: HasScopes_def fill_set_eq scoped_claims_def)
  show ?thesis
    using h authorizer_scope_monotone [OF h, of "scoped_claims [''b'', ''a'']" "[]"]
    by (simp add: scoped_claims_def)
qed

text \<open>\<open>VerifyRequiredStringClaims\<close> accepts exactly the tokens that carry every required claim as a
  string with the expected value, and the outcome does not depend on the order in which the map of
  required claims is iterated.\<close>

theorem VerifyRequiredStringClaims_exact:
  "(VerifyRequiredStringClaims required ctx tok = None) =
     (\<forall>(name, want) \<in> set required. tok_Get tok name = Some (AnyString want))
   \<and> (set required = set required' \<longrightarrow>
       (VerifyRequiredStringClaims required ctx tok = None) = (VerifyRequiredStringClaims required' ctx tok = None))"
  by (simp add: verify_required.decides)

theorem VerifyRequiredStringClaims_exact_witness:
  "\<exists>tok. (VerifyRequiredStringClaims [(''backend'', ''bedrock'')] [] tok = None)
    \<and> tok_Get tok ''backend'' = Some (AnyString ''bedrock'')
    \<and> (\<forall>(name, want) \<in> set [(''backend'', ''bedrock'')]. tok_Get tok name = Some (AnyString want))"
proof -
  let ?tok = "(undefined :: jwt_token)\<lparr>tok_Get := map_of [(''backend'', AnyString ''bedrock'')]\<rparr>"
  have "VerifyRequiredStringClaims [(''backend'', ''bedrock'')] [] ?tok = None"
    using VerifyRequiredStringClaims_exact [of "[(''backend'', ''bedrock'')]" "[]" ?tok] by simp
  then show ?thesis by (intro exI [of _ ?tok]) simp
qed

end
