(* ===== verification/Validator.thy ===== *)
theory Validator
  imports Policy
begin

text \<open>
  validator.go and multivalidator.go: validation of a bearer JWT against one issuer, and routing among
  several issuers by the unverified iss claim. The jwx package is the record \<open>jwx\<close>: its key-set cache,
  its verifying parser, its non-verifying parser and its test for the expiry error, as they answer
  during one call. The locale \<open>token_validator\<close> is the \<open>TokenValidator\<close> interface a transport uses.
\<close>

section \<open>The jwx package as a parameter\<close>

record 'ks jwx =
  jwx_Register :: "string \<Rightarrow> duration \<Rightarrow> goerr option"
  jwx_Refresh :: "string \<Rightarrow> goerr option"
  jwx_CacheGet :: "string \<Rightarrow> goerr + 'ks"
  jwx_Parse :: "string \<Rightarrow> 'ks \<Rightarrow> string \<Rightarrow> string \<Rightarrow> duration \<Rightarrow> goerr + jwt_token"
  jwx_ParseInsecure :: "string \<Rightarrow> goerr + jwt_token"
  jwx_IsTokenExpired :: "goerr \<Rightarrow> bool"

text \<open>
  Documented behaviour of \<open>jwt.WithIssuer\<close> and \<open>jwt.WithAudience\<close>: a token that parses under them has
  that issuer and lists that audience.
\<close>

definition jwx_checks_claims :: "'ks jwx \<Rightarrow> bool" where
  "jwx_checks_claims env \<longleftrightarrow>
     (\<forall>b ks iss aud skew tok. iss \<noteq> [] \<longrightarrow> aud \<noteq> [] \<longrightarrow> jwx_Parse env b ks iss aud skew = Inr tok \<longrightarrow>
        tok_Issuer tok = iss \<and> aud \<in> set (tok_Audience tok))"

section \<open>One issuer\<close>

record validator_config =
  JWKSURL :: string
  cfg_Issuer :: string
  cfg_Audience :: string
  MinRefreshInterval :: duration
  ClockSkew :: duration
  Verifiers :: "claim_verifier list"

record validator =
  v_cfg :: validator_config

definition NewValidator :: "'ks jwx \<Rightarrow> validator_config \<Rightarrow> goerr + validator" where
  "NewValidator env cfg =
     (if JWKSURL cfg = [] then Inl (ErrorString ''auth: ValidatorConfig.JWKSURL is required'')
      else if cfg_Issuer cfg = [] then Inl (ErrorString ''auth: ValidatorConfig.Issuer is required'')
      else if cfg_Audience cfg = [] then Inl (ErrorString ''auth: ValidatorConfig.Audience is required'')
      else
        let cfg1 = (if MinRefreshInterval cfg < minute then cfg\<lparr>MinRefreshInterval := 15 * minute\<rparr> else cfg);
            cfg2 = (if ClockSkew cfg1 \<le> 0 then cfg1\<lparr>ClockSkew := 30 * second\<rparr> else cfg1)
        in
        (case jwx_Register env (JWKSURL cfg2) (MinRefreshInterval cfg2) of
           Some err \<Rightarrow> Inl (Errorf ''auth: register jwks %q: %w'' [JWKSURL cfg2] (Some err))
         | None \<Rightarrow>
             (case jwx_Refresh env (JWKSURL cfg2) of
                Some err \<Rightarrow> Inl (Errorf ''auth: initial jwks fetch %q: %w'' [JWKSURL cfg2] (Some err))
              | None \<Rightarrow> Inr \<lparr>v_cfg = cfg2\<rparr>)))"

definition isExpiredError :: "'ks jwx \<Rightarrow> goerr \<Rightarrow> bool" where
  "isExpiredError env err = jwx_IsTokenExpired env err"

fun run_verifiers :: "claim_verifier list \<Rightarrow> go_context \<Rightarrow> jwt_token \<Rightarrow> goerr option" where
  "run_verifiers [] ctx tok = None"
| "run_verifiers (verify # rest) ctx tok =
     (case verify ctx tok of Some err \<Rightarrow> Some err | None \<Rightarrow> run_verifiers rest ctx tok)"

definition Validate :: "'ks jwx \<Rightarrow> validator \<Rightarrow> go_context \<Rightarrow> string \<Rightarrow> goerr + claims" where
  "Validate env v ctx bearer =
     (if bearer = [] then Inl (AuthErr ErrMissingToken)
      else
        (case jwx_CacheGet env (JWKSURL (v_cfg v)) of
           Inl err \<Rightarrow> Inl (AuthErr (With ErrInvalidToken (Errorf ''jwks unavailable: %w'' [] (Some err))))
         | Inr ks \<Rightarrow>
             (case jwx_Parse env bearer ks (cfg_Issuer (v_cfg v)) (cfg_Audience (v_cfg v)) (ClockSkew (v_cfg v)) of
                Inl err \<Rightarrow>
                  (if isExpiredError env err then Inl (AuthErr (With ErrExpiredToken err))
                   else Inl (AuthErr (With ErrInvalidToken err)))
              | Inr tok \<Rightarrow>
                  (case run_verifiers (Verifiers (v_cfg v)) ctx tok of
                     Some err \<Rightarrow> Inl err
                   | None \<Rightarrow> Inr (claimsFromToken tok)))))"

section \<open>Several issuers\<close>

record multi_validator =
  byIssuer :: "(string, validator) gomap"

fun new_multi_loop :: "'ks jwx \<Rightarrow> nat \<Rightarrow> validator_config list \<Rightarrow> (string, validator) gomap
    \<Rightarrow> goerr + multi_validator" where
  "new_multi_loop env i [] m = Inr \<lparr>byIssuer = m\<rparr>"
| "new_multi_loop env i (ic # ics) m =
     (case map_of m (cfg_Issuer ic) of
        Some _ \<Rightarrow> Inl (Errorf ''auth: multivalidator: duplicate issuer %q'' [cfg_Issuer ic] None)
      | None \<Rightarrow>
          (case NewValidator env ic of
             Inl err \<Rightarrow>
               Inl (Errorf ''auth: multivalidator: issuer %d (%q): %w'' [Itoa (int i), cfg_Issuer ic] (Some err))
           | Inr v \<Rightarrow> new_multi_loop env (Suc i) ics (AList.update (cfg_Issuer ic) v m)))"

definition NewMultiValidator :: "'ks jwx \<Rightarrow> validator_config list \<Rightarrow> goerr + multi_validator" where
  "NewMultiValidator env Issuers =
     (if length Issuers = 0 then Inl (ErrorString ''auth: multivalidator: at least one issuer is required'')
      else new_multi_loop env 0 Issuers [])"

definition MultiValidate :: "'ks jwx \<Rightarrow> multi_validator \<Rightarrow> go_context \<Rightarrow> string \<Rightarrow> goerr + claims" where
  "MultiValidate env m ctx bearer =
     (if bearer = [] then Inl (AuthErr ErrMissingToken)
      else
        (case jwx_ParseInsecure env bearer of
           Inl _ \<Rightarrow> Inl (AuthErr (With ErrInvalidToken (ErrorString ''malformed token'')))
         | Inr tok \<Rightarrow>
             (let iss = tok_Issuer tok in
              if iss = [] then Inl (AuthErr (With ErrInvalidToken (ErrorString ''issuer claim missing'')))
              else
                (case map_of (byIssuer m) iss of
                   None \<Rightarrow> Inl (AuthErr (With ErrInvalidToken (ErrorString ''issuer not configured'')))
                 | Some v \<Rightarrow> Validate env v ctx bearer))))"

section \<open>The TokenValidator interface\<close>

text \<open>
  A validator may keep state (a cache); \<open>sinv\<close> is its invariant. \<open>vouched ctx b c\<close> says what an
  acceptance of bearer \<open>b\<close> with claims \<open>c\<close> guarantees.
\<close>

locale token_validator =
  fixes validate :: "'s \<Rightarrow> go_context \<Rightarrow> string \<Rightarrow> (goerr + claims) \<times> 's"
    and vouched :: "go_context \<Rightarrow> string \<Rightarrow> claims \<Rightarrow> bool"
    and sinv :: "'s \<Rightarrow> bool"
  assumes missing: "fst (validate s ctx []) = Inl (AuthErr ErrMissingToken)"
    and sound: "sinv s \<Longrightarrow> validate s ctx b = (Inr c, s') \<Longrightarrow> vouched ctx b c"
    and keeps_inv: "sinv s \<Longrightarrow> sinv (snd (validate s ctx b))"
begin

lemma accepted_nonempty: "validate s ctx b = (Inr c, s') \<Longrightarrow> b \<noteq> []"
  using missing [of s ctx] by (metis Inl_Inr_False fst_conv)

lemma accepted_inv: "sinv s \<Longrightarrow> validate s ctx b = (r, s') \<Longrightarrow> sinv s'"
  using keeps_inv [of s ctx b] by simp

end

definition vouched_by :: "'ks jwx \<Rightarrow> validator \<Rightarrow> go_context \<Rightarrow> string \<Rightarrow> claims \<Rightarrow> bool" where
  "vouched_by env v ctx b c \<longleftrightarrow>
     (\<exists>ks tok. jwx_CacheGet env (JWKSURL (v_cfg v)) = Inr ks
        \<and> jwx_Parse env b ks (cfg_Issuer (v_cfg v)) (cfg_Audience (v_cfg v)) (ClockSkew (v_cfg v)) = Inr tok
        \<and> (\<forall>vf \<in> set (Verifiers (v_cfg v)). vf ctx tok = None)
        \<and> c = claimsFromToken tok)"

definition multi_vouched_by :: "'ks jwx \<Rightarrow> multi_validator \<Rightarrow> go_context \<Rightarrow> string \<Rightarrow> claims \<Rightarrow> bool" where
  "multi_vouched_by env m ctx b c \<longleftrightarrow>
     (\<exists>peek v. jwx_ParseInsecure env b = Inr peek \<and> tok_Issuer peek \<noteq> []
        \<and> map_of (byIssuer m) (tok_Issuer peek) = Some v \<and> vouched_by env v ctx b c)"

lemma run_verifiers_None: "run_verifiers vs ctx tok = None \<longleftrightarrow> (\<forall>vf \<in> set vs. vf ctx tok = None)"
  by (induction vs) (auto split: option.splits)

lemma run_verifiers_Some: "run_verifiers vs ctx tok = Some e \<Longrightarrow> \<exists>vf \<in> set vs. vf ctx tok = Some e"
  by (induction vs) (auto split: option.splits)

lemma Validate_Inr: "Validate env v ctx b = Inr c \<longleftrightarrow> b \<noteq> [] \<and> vouched_by env v ctx b c"
  by (auto simp: Validate_def vouched_by_def run_verifiers_None [symmetric] split: sum.splits option.splits)

lemma MultiValidate_Inr: "MultiValidate env m ctx b = Inr c \<longleftrightarrow> b \<noteq> [] \<and> multi_vouched_by env m ctx b c"
  by (auto simp: MultiValidate_def multi_vouched_by_def Validate_Inr Let_def split: sum.splits option.splits)

interpretation jwt_validator: token_validator
  "\<lambda>s ctx b. (Validate env v ctx b, s)" "vouched_by env v" "\<lambda>s. True" for env v
  by unfold_locales (auto simp: Validate_Inr, simp add: Validate_def)

interpretation multi: token_validator
  "\<lambda>s ctx b. (MultiValidate env m ctx b, s)" "multi_vouched_by env m" "\<lambda>s. True" for env m
  by unfold_locales (auto simp: MultiValidate_Inr, simp add: MultiValidate_def)

lemma jwx_checks_claimsD:
  "jwx_checks_claims env \<Longrightarrow> jwx_Parse env b ks iss aud skew = Inr tok \<Longrightarrow> iss \<noteq> [] \<Longrightarrow> aud \<noteq> [] \<Longrightarrow>
   tok_Issuer tok = iss \<and> aud \<in> set (tok_Audience tok)"
  unfolding jwx_checks_claims_def by blast

lemma claimsFromToken_issuer [simp]:
  "Issuer (claimsFromToken tok) = tok_Issuer tok" "Audience (claimsFromToken tok) = tok_Audience tok"
  "Subject (claimsFromToken tok) = tok_Subject tok"
  by (simp_all add: claimsFromToken_def)

lemma vouched_by_binds:
  assumes "jwx_checks_claims env" and "vouched_by env v ctx b c"
    and "cfg_Issuer (v_cfg v) \<noteq> []" and "cfg_Audience (v_cfg v) \<noteq> []"
  shows "Issuer c = cfg_Issuer (v_cfg v) \<and> cfg_Audience (v_cfg v) \<in> set (Audience c)"
proof -
  from assms(2) obtain ks tok
    where "jwx_Parse env b ks (cfg_Issuer (v_cfg v)) (cfg_Audience (v_cfg v)) (ClockSkew (v_cfg v)) = Inr tok"
      and "c = claimsFromToken tok"
    by (auto simp: vouched_by_def)
  with jwx_checks_claimsD [OF assms(1) _ assms(3,4)] show ?thesis by simp
qed

section \<open>Construction\<close>

definition wf_validator :: "validator \<Rightarrow> bool" where
  "wf_validator v \<longleftrightarrow> JWKSURL (v_cfg v) \<noteq> [] \<and> cfg_Issuer (v_cfg v) \<noteq> [] \<and> cfg_Audience (v_cfg v) \<noteq> []
     \<and> minute \<le> MinRefreshInterval (v_cfg v) \<and> 0 < ClockSkew (v_cfg v)"

lemma NewValidator_wf:
  "NewValidator env cfg = Inr v \<Longrightarrow> wf_validator v \<and> cfg_Issuer (v_cfg v) = cfg_Issuer cfg
     \<and> cfg_Audience (v_cfg v) = cfg_Audience cfg \<and> JWKSURL (v_cfg v) = JWKSURL cfg \<and> Verifiers (v_cfg v) = Verifiers cfg"
  by (auto simp: NewValidator_def wf_validator_def Let_def split: if_splits option.splits)

text \<open>The table of a multi-validator: each key is the issuer of its validator.\<close>

definition wf_table :: "(string, validator) gomap \<Rightarrow> bool" where
  "wf_table m \<longleftrightarrow> wf_gomap m \<and> (\<forall>(iss, v) \<in> set m. wf_validator v \<and> cfg_Issuer (v_cfg v) = iss)"

lemma wf_table_update:
  "wf_table m \<Longrightarrow> wf_validator v \<Longrightarrow> cfg_Issuer (v_cfg v) = iss \<Longrightarrow> wf_table (AList.update iss v m)"
proof -
  assume a: "wf_table m" "wf_validator v" "cfg_Issuer (v_cfg v) = iss"
  then have wf: "wf_gomap (AList.update iss v m)" by (simp add: wf_table_def)
  have "wf_validator w \<and> cfg_Issuer (v_cfg w) = k" if "(k, w) \<in> set (AList.update iss v m)" for k w
  proof -
    from that wf have "map_of (AList.update iss v m) k = Some w" by (simp add: wf_gomap_lookup)
    with a show ?thesis
      by (auto simp: alist_simps wf_table_def wf_gomap_lookup split: if_splits dest!: map_of_SomeD)
  qed
  with wf show ?thesis by (auto simp: wf_table_def)
qed

lemma new_multi_loop_wf:
  "wf_table m \<Longrightarrow> new_multi_loop env i ics m = Inr mv \<Longrightarrow>
     wf_table (byIssuer mv) \<and> fst ` set (byIssuer mv) = fst ` set m \<union> cfg_Issuer ` set ics
     \<and> distinct (map cfg_Issuer ics) \<and> cfg_Issuer ` set ics \<inter> fst ` set m = {}"
proof (induction env i ics m rule: new_multi_loop.induct)
  case (2 env i ic ics m)
  from "2.prems"(2) obtain v where none: "map_of m (cfg_Issuer ic) = None"
    and v: "NewValidator env ic = Inr v"
    and rec: "new_multi_loop env (Suc i) ics (AList.update (cfg_Issuer ic) v m) = Inr mv"
    by (auto split: option.splits sum.splits)
  have "wf_table (AList.update (cfg_Issuer ic) v m)"
    using "2.prems"(1) NewValidator_wf [OF v] by (intro wf_table_update) auto
  from "2.IH" [OF none v this rec] none show ?case
    by (auto simp: dom_update map_of_eq_None_iff)
qed auto

lemma new_multi_loop_origin:
  "new_multi_loop env i ics m = Inr mv \<Longrightarrow> map_of (byIssuer mv) iss = Some v \<Longrightarrow>
     map_of m iss = Some v \<or> (\<exists>ic \<in> set ics. NewValidator env ic = Inr v \<and> cfg_Issuer ic = iss)"
proof (induction env i ics m rule: new_multi_loop.induct)
  case (2 env i ic ics m)
  from "2.prems"(1) obtain w where none: "map_of m (cfg_Issuer ic) = None"
    and w: "NewValidator env ic = Inr w"
    and rec: "new_multi_loop env (Suc i) ics (AList.update (cfg_Issuer ic) w m) = Inr mv"
    by (auto split: option.splits sum.splits)
  from "2.IH" [OF none w rec "2.prems"(2)] w show ?case
    by (auto simp: alist_simps split: if_splits)
qed auto

lemma NewMultiValidator_wf:
  "NewMultiValidator env Issuers = Inr mv \<Longrightarrow>
     wf_table (byIssuer mv) \<and> fst ` set (byIssuer mv) = cfg_Issuer ` set Issuers
     \<and> distinct (map cfg_Issuer Issuers) \<and> Issuers \<noteq> []"
  using new_multi_loop_wf [of "[]" env 0 Issuers mv]
  by (auto simp: NewMultiValidator_def wf_table_def split: if_splits)

section \<open>Properties\<close>

text \<open>C13: a validator accepts a bearer token exactly when it is non-empty, the key set is available,
  jwx verifies it under the configured issuer, audience and skew, and every configured verifier allows
  it; the claims returned are those of the verified token.\<close>

theorem Validate_accepts_iff:
  "(Validate env v ctx bearer = Inr c) =
     (bearer \<noteq> [] \<and>
      (\<exists>ks tok. jwx_CacheGet env (JWKSURL (v_cfg v)) = Inr ks
        \<and> jwx_Parse env bearer ks (cfg_Issuer (v_cfg v)) (cfg_Audience (v_cfg v)) (ClockSkew (v_cfg v)) = Inr tok
        \<and> (\<forall>vf \<in> set (Verifiers (v_cfg v)). vf ctx tok = None)
        \<and> c = claimsFromToken tok))"
  by (simp add: Validate_Inr vouched_by_def)

theorem Validate_accepts_iff_witness:
  "\<exists>(env :: unit jwx) v tok. Validate env v [] ''t'' = Inr (claimsFromToken tok) \<and> Verifiers (v_cfg v) = []"
proof -
  let ?tok = "undefined :: jwt_token"
  let ?env = "(undefined :: unit jwx)\<lparr>jwx_CacheGet := \<lambda>_. Inr (), jwx_Parse := \<lambda>_ _ _ _ _. Inr ?tok\<rparr>"
  let ?v = "\<lparr>v_cfg = (undefined :: validator_config)\<lparr>Verifiers := []\<rparr>\<rparr>"
  have "Validate ?env ?v [] ''t'' = Inr (claimsFromToken ?tok)"
    using Validate_accepts_iff [of ?env ?v "[]" "''t''" "claimsFromToken ?tok"] by simp
  then show ?thesis by (intro exI [of _ ?env] exI [of _ ?v] exI [of _ ?tok]) simp
qed

text \<open>A rejection by a validator is either a 401 of the library (missing, expired or invalid token)
  or the error of one of the configured verifiers, unchanged: validation itself never produces a 5xx.\<close>

theorem Validate_rejection_classified:
  assumes "Validate env v ctx bearer = Inl e"
  shows "(\<exists>ae. errors_As e = Some ae \<and> HTTPStatus ae = 401 \<and>
            Code ae \<in> {Code ErrMissingToken, Code ErrExpiredToken, Code ErrInvalidToken})
       \<or> (\<exists>vf \<in> set (Verifiers (v_cfg v)). \<exists>tok. vf ctx tok = Some e)"
  using assms unfolding Validate_def
  by (auto simp: sentinel_defs split: if_splits sum.splits option.splits dest!: run_verifiers_Some)

theorem Validate_rejection_classified_witness:
  "\<exists>(env :: unit jwx) v e. Validate env v [] ''t'' = Inl e \<and>
     (\<exists>ae. errors_As e = Some ae \<and> HTTPStatus ae = 401)"
proof -
  let ?env = "(undefined :: unit jwx)\<lparr>jwx_CacheGet := \<lambda>_. Inl (ErrorString ''down'')\<rparr>"
  let ?v = "\<lparr>v_cfg = (undefined :: validator_config)\<lparr>Verifiers := []\<rparr>\<rparr>"
  let ?e = "AuthErr (With ErrInvalidToken (Errorf ''jwks unavailable: %w'' [] (Some (ErrorString ''down''))))"
  have h: "Validate ?env ?v [] ''t'' = Inl ?e" by (simp add: Validate_def)
  have "\<exists>ae. errors_As ?e = Some ae \<and> HTTPStatus ae = 401"
    using Validate_rejection_classified [OF h] by auto
  with h show ?thesis by blast
qed

text \<open>A validator that construction returns has its required fields set, a refresh interval of at
  least one minute and a positive skew; a configured interval below one minute becomes fifteen minutes,
  not one minute, and everything else is as configured.\<close>

theorem NewValidator_defaults:
  assumes "NewValidator env cfg = Inr v"
  shows "wf_validator v
    \<and> MinRefreshInterval (v_cfg v) =
        (if MinRefreshInterval cfg < minute then 15 * minute else MinRefreshInterval cfg)
    \<and> ClockSkew (v_cfg v) = (if ClockSkew cfg \<le> 0 then 30 * second else ClockSkew cfg)
    \<and> cfg_Issuer (v_cfg v) = cfg_Issuer cfg \<and> cfg_Audience (v_cfg v) = cfg_Audience cfg
    \<and> JWKSURL (v_cfg v) = JWKSURL cfg \<and> Verifiers (v_cfg v) = Verifiers cfg"
  using NewValidator_wf [OF assms] assms
  by (auto simp: NewValidator_def Let_def split: if_splits option.splits)

definition demo_config :: "string \<Rightarrow> validator_config" where
  "demo_config iss = \<lparr>JWKSURL = ''https://idp/keys'', cfg_Issuer = iss, cfg_Audience = ''https://mcp'',
     MinRefreshInterval = 0, ClockSkew = 0, Verifiers = []\<rparr>"

definition demo_token :: "string \<Rightarrow> jwt_token" where
  "demo_token iss = \<lparr>tok_Subject = ''u'', tok_Issuer = iss, tok_Audience = [''https://mcp''], tok_Expiration = 9,
     tok_IssuedAt = 1, tok_Get = Map.empty, tok_PrivateClaims = []\<rparr>"

text \<open>A jwx whose verifying parser accepts a token that names its issuer, for the examples.\<close>

definition demo_jwx :: "unit jwx" where
  "demo_jwx = \<lparr>jwx_Register = \<lambda>_ _. None, jwx_Refresh = \<lambda>_. None, jwx_CacheGet = \<lambda>_. Inr (),
     jwx_Parse = \<lambda>b ks iss aud skew. (if b = iss \<and> aud = ''https://mcp'' then Inr (demo_token iss)
                                        else Inl (ErrorString ''invalid'')),
     jwx_ParseInsecure = \<lambda>b. Inr (demo_token b), jwx_IsTokenExpired = \<lambda>_. False\<rparr>"

theorem NewValidator_defaults_witness:
  "\<exists>v. NewValidator demo_jwx (demo_config ''iss'') = Inr v \<and> MinRefreshInterval (v_cfg v) = 15 * minute"
proof -
  obtain v where v: "NewValidator demo_jwx (demo_config ''iss'') = Inr v"
    by (simp add: NewValidator_def demo_jwx_def demo_config_def)
  from NewValidator_defaults [OF v] have "MinRefreshInterval (v_cfg v) = 15 * minute"
    by (simp add: demo_config_def)
  with v show ?thesis by blast
qed

text \<open>C2: with the documented issuer and audience checks of jwx, a token a multi-validator accepts is
  one whose verified issuer is one of the configured issuers, is the issuer it was routed by, and whose
  audience list contains the audience configured for that very issuer.\<close>

theorem MultiValidate_binds_issuer_and_audience:
  assumes "jwx_checks_claims env" and "NewMultiValidator env Issuers = Inr m"
    and "MultiValidate env m ctx bearer = Inr c"
  shows "\<exists>cfg \<in> set Issuers. Issuer c = cfg_Issuer cfg \<and> cfg_Audience cfg \<in> set (Audience c)
    \<and> (\<exists>peek. jwx_ParseInsecure env bearer = Inr peek \<and> tok_Issuer peek = cfg_Issuer cfg)
    \<and> (\<forall>cfg' \<in> set Issuers. cfg_Issuer cfg' = Issuer c \<longrightarrow> cfg' = cfg)"
proof -
  have wf: "wf_table (byIssuer m)" and dom: "fst ` set (byIssuer m) = cfg_Issuer ` set Issuers"
    and dist: "distinct (map cfg_Issuer Issuers)"
    using NewMultiValidator_wf [OF assms(2)] by auto
  from assms(3) obtain peek v where peek: "jwx_ParseInsecure env bearer = Inr peek"
    and lk: "map_of (byIssuer m) (tok_Issuer peek) = Some v" and vb: "vouched_by env v ctx bearer c"
    by (auto simp: MultiValidate_Inr multi_vouched_by_def)
  from lk wf have v: "wf_validator v" "cfg_Issuer (v_cfg v) = tok_Issuer peek"
    by (auto simp: wf_table_def dest!: map_of_SomeD)
  have c: "Issuer c = cfg_Issuer (v_cfg v)" "cfg_Audience (v_cfg v) \<in> set (Audience c)"
    using vouched_by_binds [OF assms(1) vb] v(1) by (simp_all add: wf_validator_def)
  have "\<exists>cfg \<in> set Issuers. NewValidator env cfg = Inr v \<and> cfg_Issuer cfg = tok_Issuer peek"
    using new_multi_loop_origin [of env 0 Issuers "[]" m] assms(2) lk
    by (auto simp: NewMultiValidator_def split: if_splits)
  then obtain cfg where cfg: "cfg \<in> set Issuers" "NewValidator env cfg = Inr v" "cfg_Issuer cfg = tok_Issuer peek"
    by blast
  have uniq: "cfg' = cfg" if "cfg' \<in> set Issuers" "cfg_Issuer cfg' = Issuer c" for cfg'
    using that cfg(1,3) dist c(1) v(2) by (metis distinct_map inj_onD)
  have "Issuer c = cfg_Issuer cfg" and "cfg_Audience cfg \<in> set (Audience c)"
    using NewValidator_wf [OF cfg(2)] c cfg(3) v(2) by simp_all
  moreover have "\<exists>peek. jwx_ParseInsecure env bearer = Inr peek \<and> tok_Issuer peek = cfg_Issuer cfg"
    using peek cfg(3) by simp
  ultimately show ?thesis using uniq by (intro bexI [OF _ cfg(1)] conjI ballI impI) simp_all
qed

theorem MultiValidate_binds_issuer_and_audience_witness:
  "\<exists>m c. jwx_checks_claims demo_jwx
     \<and> NewMultiValidator demo_jwx [demo_config ''issA'', demo_config ''issB''] = Inr m
     \<and> MultiValidate demo_jwx m [] ''issB'' = Inr c \<and> Issuer c = ''issB''"
proof -
  let ?is = "[demo_config ''issA'', demo_config ''issB'']"
  have ck: "jwx_checks_claims demo_jwx"
    by (auto simp: jwx_checks_claims_def demo_jwx_def demo_token_def split: if_splits)
  obtain m where m: "NewMultiValidator demo_jwx ?is = Inr m"
    and val: "MultiValidate demo_jwx m [] ''issB'' = Inr (claimsFromToken (demo_token ''issB''))"
    by (simp add: NewMultiValidator_def NewValidator_def MultiValidate_def Validate_def demo_jwx_def
        demo_config_def demo_token_def)
  from MultiValidate_binds_issuer_and_audience [OF ck m val]
  have "Issuer (claimsFromToken (demo_token ''issB'')) \<in> {''issA'', ''issB''}"
    by (auto simp: demo_config_def)
  with ck m val show ?thesis by (auto simp: claimsFromToken_def demo_token_def)
qed

text \<open>A token whose unverified issuer is missing, empty or not configured is rejected as an invalid
  token with a constant cause, and the answer is the same whatever the key-set cache and the verifying
  parser would say: no key set is consulted.\<close>

theorem MultiValidate_unknown_issuer_fails_closed:
  assumes "bearer \<noteq> []"
    and "case jwx_ParseInsecure env bearer of Inl _ \<Rightarrow> True | Inr tok \<Rightarrow> tok_Issuer tok \<notin> fst ` set (byIssuer m) \<or> tok_Issuer tok = []"
  shows "(\<exists>s \<in> {''malformed token'', ''issuer claim missing'', ''issuer not configured''}.
            MultiValidate env m ctx bearer = Inl (AuthErr (With ErrInvalidToken (ErrorString s))))
    \<and> MultiValidate (env\<lparr>jwx_CacheGet := g, jwx_Parse := p\<rparr>) m ctx bearer = MultiValidate env m ctx bearer"
  using assms by (auto simp: MultiValidate_def Let_def map_of_eq_None_iff [symmetric] split: sum.splits option.splits)

theorem MultiValidate_unknown_issuer_fails_closed_witness:
  "MultiValidate demo_jwx \<lparr>byIssuer = []\<rparr> [] ''evil'' =
     Inl (AuthErr (With ErrInvalidToken (ErrorString ''issuer not configured'')))"
  using MultiValidate_unknown_issuer_fails_closed
    [where bearer = "''evil''" and env = demo_jwx and m = "\<lparr>byIssuer = []\<rparr>" and ctx = "[]"]
  by (simp add: demo_jwx_def demo_token_def MultiValidate_def)

end
