(* ===== verification/HTTP.thy ===== *)
theory HTTP
  imports Go_HTTP Validator
begin

text \<open>
  transport/http/middleware.go and transport/http/metadata.go: the net/http middleware that admits a
  request, its challenges and error answers, and the RFC 9728 metadata handler. The validator, the rate
  limiter and the downstream handler are arguments; the state they keep is threaded through the call as
  the record \<open>http_world\<close>, together with the log.
\<close>

section \<open>Helpers\<close>

definition extractBearer :: "http_request \<Rightarrow> goerr + string" where
  "extractBearer r =
     (let h = Header_Get (rq_Header r) ''Authorization''; pre = ''Bearer '' in
      if h = [] then Inl (AuthErr ErrMissingToken)
      else if length h \<le> length pre \<or> \<not> ascii_EqualFold (take (length pre) h) pre
      then Inl (AuthErr ErrMissingToken)
      else
        (let token = strings_TrimSpace (drop (length pre) h) in
         if token = [] then Inl (AuthErr ErrMissingToken) else Inr token))"

definition sanitizeQuoted :: "string \<Rightarrow> string" where
  "sanitizeQuoted s = filter quoted_ok s"

text \<open>A challenge parameter \<open>name="value"\<close>.\<close>

definition qparam :: "string \<Rightarrow> string \<Rightarrow> string" where
  "qparam name val = name @ [CHR ''='', CHR 0x22] @ val @ [CHR 0x22]"

definition challenge_params :: "auth_error \<Rightarrow> string list \<Rightarrow> string \<times> string list" where
  "challenge_params e scopes =
     (if Code e = Code ErrInvalidToken then (''Bearer'', [qparam ''error'' ''invalid_token''])
      else if Code e = Code ErrExpiredToken
      then (''Bearer'', [qparam ''error'' ''invalid_token'', qparam ''error_description'' ''the access token expired''])
      else if Code e = Code ErrInsufficientScope
      then (''Bearer'', [qparam ''error'' ''insufficient_scope'']
              @ (if scopes \<noteq> [] then [qparam ''scope'' (sanitizeQuoted (strings_Join scopes '' ''))] else []))
      else if Code e = Code ErrInvalidDPoPProof then (''DPoP'', [qparam ''error'' ''invalid_dpop_proof''])
      else if Code e = Code ErrUseDPoPNonce then (''DPoP'', [qparam ''error'' ''use_dpop_nonce''])
      else (''Bearer'', []))"

definition buildWWWAuthenticate :: "auth_error \<Rightarrow> string \<Rightarrow> string list \<Rightarrow> string" where
  "buildWWWAuthenticate e resourceMetadataURL scopes =
     (case challenge_params e scopes of
        (scheme, ps) \<Rightarrow>
          scheme @ '' '' @ strings_Join
            ([qparam ''realm'' ''mcp''] @ ps
             @ (if resourceMetadataURL \<noteq> [] then [qparam ''resource_metadata'' (sanitizeQuoted resourceMetadataURL)] else []))
            '', '')"

definition requestURL :: "http_request \<Rightarrow> string \<Rightarrow> string" where
  "requestURL r baseURL =
     (if baseURL \<noteq> [] then trim_right_char CHR ''/'' baseURL @ rq_Path r
      else (if rq_TLS r then ''https'' else ''http'') @ ''://'' @ rq_Host r @ rq_Path r)"

text \<open>
  \<open>int(math.Ceil(d.Seconds()))\<close> for a positive duration. \<open>Seconds\<close> adds the float64 of the whole
  seconds and the float64 of the rest; the sum rounds back to the whole seconds exactly when the rest is
  below half a unit in the last place of a float64 of that size.
\<close>

fun bit_len :: "nat \<Rightarrow> nat" where
  "bit_len n = (if n = 0 then 0 else Suc (bit_len (n div 2)))"

declare bit_len.simps [simp del]

definition ceil_Seconds :: "duration \<Rightarrow> int" where
  "ceil_Seconds d =
     (let s = d div second; n = d mod second in
      if n = 0 \<or> (s > 0 \<and> n * 2 ^ (53 - (bit_len (nat s) - 1)) < second) then s else s + 1)"

definition setRetryAfter :: "duration \<Rightarrow> response \<Rightarrow> response" where
  "setRetryAfter d w =
     (if d \<le> 0 then w
      else (let secs = ceil_Seconds d in
            set_header ''Retry-After'' (Itoa (if secs < 1 then 1 else secs)) w))"

section \<open>The middleware\<close>

datatype log_entry =
    LogUnclassified goerr
  | LogRejected string int "goerr option"

type_synonym 'v validate_fn = "'v \<Rightarrow> go_context \<Rightarrow> string \<Rightarrow> (goerr + claims) \<times> 'v"
type_synonym 'l allow_fn = "'l \<Rightarrow> string \<Rightarrow> time \<Rightarrow> (bool \<times> duration) \<times> 'l"

record ('v, 'd, 'l) middleware_config =
  mc_Validator :: "'v validate_fn option"
  mc_RateLimiter :: "'l allow_fn option"
  mc_HasLogger :: bool
  mc_ResourceMetadataURL :: string
  mc_Scopes :: "string list"
  mc_DPoP :: "'d dpop_verifier option"
  mc_BaseURL :: string

record ('v, 'd, 'l, 'a) http_world =
  hw_validator :: 'v
  hw_replay :: 'd
  hw_limiter :: 'l
  hw_app :: 'a
  hw_log :: "log_entry list"

text \<open>The clock readings and random draws of one request, in the order the code makes them.\<close>

record request_env =
  re_enforce :: time
  re_cache :: time
  re_challenge :: time
  re_challenge_rnd :: "string option"
  re_limit :: time
  re_rotate :: time
  re_rotate_rnd :: "string option"

definition writeAuthError :: "('v, 'd, 'l) middleware_config \<Rightarrow> goerr \<Rightarrow> response
    \<Rightarrow> ('v, 'd, 'l, 'a) http_world \<Rightarrow> response \<times> ('v, 'd, 'l, 'a) http_world" where
  "writeAuthError cfg err w hw =
     (case errors_As err of
        None \<Rightarrow> (http_Error ''internal error'' 500 w, hw\<lparr>hw_log := hw_log hw @ [LogUnclassified err]\<rparr>)
      | Some e \<Rightarrow>
          (Write (BodyJSON (error_json e))
             (WriteHeader (HTTPStatus e)
               (set_header ''Cache-Control'' ''no-store''
                 (set_header ''WWW-Authenticate'' (buildWWWAuthenticate e (mc_ResourceMetadataURL cfg) (mc_Scopes cfg))
                   (set_header ''Content-Type'' ''application/json'' w)))),
           hw\<lparr>hw_log := hw_log hw @ [LogRejected (Code e) (HTTPStatus e) (Cause e)]\<rparr>))"

definition dpop_input_of :: "http_request \<Rightarrow> string \<Rightarrow> string \<Rightarrow> claims \<Rightarrow> dpop_input" where
  "dpop_input_of r baseURL bearer c =
     \<lparr>in_Proofs = Header_Values (rq_Header r) ''DPoP'', in_Method = rq_Method r, in_URL = requestURL r baseURL,
      in_AccessToken = bearer, in_BoundJKT = Confirmation c\<rparr>"

text \<open>The two calls of \<open>IssueNonce\<close>: an empty nonce is never advertised.\<close>

definition challenge_nonce :: "'d dpop_verifier option \<Rightarrow> request_env \<Rightarrow> goerr \<Rightarrow> response \<Rightarrow> response" where
  "challenge_nonce dpop env err w =
     (case dpop of
        None \<Rightarrow> w
      | Some dv \<Rightarrow>
          (if errors_Is err ErrUseDPoPNonce then
             (let n = IssueNonce dv (re_challenge env) (re_challenge_rnd env) in
              if n \<noteq> [] then set_header ''DPoP-Nonce'' n w else w)
           else w))"

definition rotate_nonce :: "'d dpop_verifier option \<Rightarrow> request_env \<Rightarrow> response \<Rightarrow> response" where
  "rotate_nonce dpop env w =
     (case dpop of
        None \<Rightarrow> w
      | Some dv \<Rightarrow>
          (let n = IssueNonce dv (re_rotate env) (re_rotate_rnd env) in
           if n \<noteq> [] then set_header ''Cache-Control'' ''no-store'' (set_header ''DPoP-Nonce'' n w) else w))"

text \<open>The optional DPoP and rate-limit checks.\<close>

definition dpop_step :: "'key jose \<Rightarrow> dpop_std \<Rightarrow> ('v, 'd, 'l) middleware_config \<Rightarrow> request_env \<Rightarrow> http_request
    \<Rightarrow> string \<Rightarrow> claims \<Rightarrow> 'd \<Rightarrow> goerr option \<times> 'd" where
  "dpop_step jo std cfg env r bearer c st =
     (case mc_DPoP cfg of
        None \<Rightarrow> (None, st)
      | Some dv \<Rightarrow> Enforce jo std dv (dpop_input_of r (mc_BaseURL cfg) bearer c) (re_enforce env) (re_cache env) st)"

definition limit_step :: "('v, 'd, 'l) middleware_config \<Rightarrow> request_env \<Rightarrow> claims \<Rightarrow> 'l \<Rightarrow> (bool \<times> duration) \<times> 'l" where
  "limit_step cfg env c l =
     (case mc_RateLimiter cfg of None \<Rightarrow> ((True, 0), l) | Some allow \<Rightarrow> allow l (Subject c) (re_limit env))"

definition serve :: "'key jose \<Rightarrow> dpop_std \<Rightarrow> ('v, 'd, 'l) middleware_config \<Rightarrow> 'v validate_fn \<Rightarrow> request_env
    \<Rightarrow> ('v, 'd, 'l, 'a) http_world handler \<Rightarrow> ('v, 'd, 'l, 'a) http_world handler" where
  "serve jo std cfg validate env next_handler r w hw =
     (case extractBearer r of
        Inl err \<Rightarrow> writeAuthError cfg err w hw
      | Inr bearer \<Rightarrow>
     (case validate (hw_validator hw) (rq_Context r) bearer of
        (Inl err, v') \<Rightarrow> writeAuthError cfg err w (hw\<lparr>hw_validator := v'\<rparr>)
      | (Inr claims, v') \<Rightarrow>
     (let hw = hw\<lparr>hw_validator := v'\<rparr> in
      case dpop_step jo std cfg env r bearer claims (hw_replay hw) of
        (Some derr, st) \<Rightarrow> writeAuthError cfg derr (challenge_nonce (mc_DPoP cfg) env derr w) (hw\<lparr>hw_replay := st\<rparr>)
      | (None, st) \<Rightarrow>
     (let hw = hw\<lparr>hw_replay := st\<rparr> in
      case limit_step cfg env claims (hw_limiter hw) of
        ((ok, retryAfter), l) \<Rightarrow>
     (let hw = hw\<lparr>hw_limiter := l\<rparr> in
      if \<not> ok then writeAuthError cfg (AuthErr ErrRateLimitExceeded) (setRetryAfter retryAfter w) hw
      else
        (let ctx = WithRawToken (WithClaims (rq_Context r) claims) bearer in
         next_handler (r\<lparr>rq_Context := ctx\<rparr>) (rotate_nonce (mc_DPoP cfg) env w) hw))))))"

text \<open>Construction panics without a validator or a logger (left summand: the panic value).\<close>

definition Middleware :: "'key jose \<Rightarrow> dpop_std \<Rightarrow> ('v, 'd, 'l) middleware_config \<Rightarrow>
    string + (request_env \<Rightarrow> ('v, 'd, 'l, 'a) http_world handler \<Rightarrow> ('v, 'd, 'l, 'a) http_world handler)" where
  "Middleware jo std cfg =
     (case mc_Validator cfg of
        None \<Rightarrow> Inl ''auth/http: MiddlewareConfig.Validator is required''
      | Some validate \<Rightarrow>
          (if \<not> mc_HasLogger cfg then Inl ''auth/http: MiddlewareConfig.Logger is required''
           else Inr (serve jo std cfg validate)))"

section \<open>Metadata\<close>

definition MetadataPath :: string where
  "MetadataPath = ''/.well-known/oauth-protected-resource''"

definition MetadataPathFor :: "string \<Rightarrow> string" where
  "MetadataPathFor resourcePath =
     (let p = trim_char CHR ''/'' resourcePath in
      if p = [] then MetadataPath else MetadataPath @ ''/'' @ p)"

record protected_resource_metadata =
  md_Resource :: string
  md_AuthorizationServers :: "string list option"
  md_BearerMethodsSupported :: "string list option"
  md_ScopesSupported :: "string list option"
  md_ResourceName :: string

text \<open>\<open>json.Marshal\<close> of the struct; a nil slice (\<open>None\<close>) is written as null.\<close>

definition json_slice :: "string list option \<Rightarrow> json" where
  "json_slice xs = (case xs of None \<Rightarrow> JNull | Some l \<Rightarrow> JArr (map JStr l))"

definition metadata_json :: "protected_resource_metadata \<Rightarrow> json" where
  "metadata_json m =
     JObj ([(''resource'', JStr (md_Resource m)), (''authorization_servers'', json_slice (md_AuthorizationServers m)),
            (''bearer_methods_supported'', json_slice (md_BearerMethodsSupported m)),
            (''scopes_supported'', json_slice (md_ScopesSupported m))]
           @ (if md_ResourceName m = [] then [] else [(''resource_name'', JStr (md_ResourceName m))]))"

definition MetadataHandler :: "protected_resource_metadata \<Rightarrow> 'w handler" where
  "MetadataHandler meta r w hw =
     (if rq_Method r \<noteq> ''GET'' \<and> rq_Method r \<noteq> ''HEAD''
      then (http_Error ''method not allowed'' 405 (set_header ''Allow'' ''GET, HEAD'' w), hw)
      else
        (let w = WriteHeader 200 (set_header ''Cache-Control'' ''public, max-age=3600''
                   (set_header ''Content-Type'' ''application/json'' w)) in
         if rq_Method r = ''HEAD'' then (w, hw) else (Write (BodyJSON (metadata_json meta)) w, hw)))"

section \<open>Admission\<close>

text \<open>
  What it takes to reach the downstream handler: a bearer token, accepted by the validator with these
  claims, a DPoP decision that lets the request pass when DPoP is configured, and the rate limiter's
  consent when there is one. \<open>hw'\<close> is the state the downstream handler starts from.
\<close>

definition admitted :: "'key jose \<Rightarrow> dpop_std \<Rightarrow> ('v, 'd, 'l) middleware_config \<Rightarrow> 'v validate_fn \<Rightarrow> request_env
    \<Rightarrow> http_request \<Rightarrow> ('v, 'd, 'l, 'a) http_world \<Rightarrow> string \<Rightarrow> claims \<Rightarrow> ('v, 'd, 'l, 'a) http_world \<Rightarrow> bool" where
  "admitted jo std cfg validate env r hw bearer c hw' \<longleftrightarrow>
     extractBearer r = Inr bearer
     \<and> validate (hw_validator hw) (rq_Context r) bearer = (Inr c, hw_validator hw')
     \<and> dpop_step jo std cfg env r bearer c (hw_replay hw) = (None, hw_replay hw')
     \<and> (\<exists>d. limit_step cfg env c (hw_limiter hw) = ((True, d), hw_limiter hw'))
     \<and> hw_app hw' = hw_app hw \<and> hw_log hw' = hw_log hw"

definition downstream :: "http_request \<Rightarrow> string \<Rightarrow> claims \<Rightarrow> http_request" where
  "downstream r bearer c = r\<lparr>rq_Context := WithRawToken (WithClaims (rq_Context r) c) bearer\<rparr>"

lemma downstream_context [simp]:
  "ClaimsFrom (rq_Context (downstream r bearer c)) = Some c"
  "RawTokenFrom (rq_Context (downstream r bearer c)) = Some bearer"
  by (simp_all add: downstream_def ClaimsFrom_def RawTokenFrom_def WithClaims_def WithRawToken_def WithValue_def)

lemma http_world_eqI:
  "hw_validator a = hw_validator b \<Longrightarrow> hw_replay a = hw_replay b \<Longrightarrow> hw_limiter a = hw_limiter b \<Longrightarrow>
   hw_app a = hw_app b \<Longrightarrow> hw_log a = hw_log b \<Longrightarrow> a = (b :: ('v, 'd, 'l, 'a) http_world)"
  by simp

lemma serve_admitted:
  assumes "admitted jo std cfg validate env r hw bearer c hw'"
  shows "serve jo std cfg validate env next_handler r w hw =
    next_handler (downstream r bearer c) (rotate_nonce (mc_DPoP cfg) env w) hw'"
proof -
  have eq: "hw\<lparr>hw_validator := hw_validator hw', hw_replay := hw_replay hw', hw_limiter := hw_limiter hw'\<rparr> = hw'"
    using assms by (simp add: admitted_def)
  show ?thesis
    using assms
    by (auto simp: serve_def admitted_def downstream_def eq)
qed

lemma challenge_nonce_sent:
  "rs_sent (challenge_nonce dpop env err w) = rs_sent w" "rs_body (challenge_nonce dpop env err w) = rs_body w"
  by (simp_all add: challenge_nonce_def response_simps split: option.splits)

lemma setRetryAfter_sent:
  "rs_sent (setRetryAfter d w) = rs_sent w" "rs_body (setRetryAfter d w) = rs_body w"
  by (simp_all add: setRetryAfter_def response_simps)

text \<open>A request is admitted, or answered by \<open>writeAuthError\<close> whatever the downstream handler is.\<close>

lemma serve_cases:
  obtains (admit) bearer c hw' where "admitted jo std cfg validate env r hw bearer c hw'"
  | (deny) err w' hw' where "\<And>next_handler. serve jo std cfg validate env next_handler r w hw = writeAuthError cfg err w' hw'"
      and "rs_sent w' = rs_sent w" and "rs_body w' = rs_body w" and "hw_app hw' = hw_app hw"
      and "err = AuthErr ErrMissingToken \<or> (\<exists>b s'. validate (hw_validator hw) (rq_Context r) b = (Inl err, s'))
        \<or> (\<exists>b c. fst (dpop_step jo std cfg env r b c (hw_replay hw)) = Some err) \<or> err = AuthErr ErrRateLimitExceeded"
proof (cases "extractBearer r")
  case (Inl e)
  then have "e = AuthErr ErrMissingToken" by (auto simp: extractBearer_def Let_def split: if_splits)
  with Inl show ?thesis using deny [of e w hw] by (simp add: serve_def)
next
  case (Inr bearer)
  note b = Inr
  obtain res v' where v: "validate (hw_validator hw) (rq_Context r) bearer = (res, v')" by fastforce
  let ?hw1 = "hw\<lparr>hw_validator := v'\<rparr>"
  show ?thesis
  proof (cases res)
    case (Inl e)
    show ?thesis
    proof (rule deny [of e w ?hw1])
      show "e = AuthErr ErrMissingToken \<or> (\<exists>b s'. validate (hw_validator hw) (rq_Context r) b = (Inl e, s'))
          \<or> (\<exists>b c. fst (dpop_step jo std cfg env r b c (hw_replay hw)) = Some e) \<or> e = AuthErr ErrRateLimitExceeded"
        using v Inl by blast
    qed (use b v Inl in \<open>simp_all add: serve_def\<close>)
  next
    case (Inr c)
    note c = Inr
    obtain d st where d: "dpop_step jo std cfg env r bearer c (hw_replay hw) = (d, st)" by fastforce
    show ?thesis
    proof (cases d)
      case (Some derr)
      show ?thesis
      proof (rule deny [of derr "challenge_nonce (mc_DPoP cfg) env derr w" "?hw1\<lparr>hw_replay := st\<rparr>"])
        show "derr = AuthErr ErrMissingToken \<or> (\<exists>b s'. validate (hw_validator hw) (rq_Context r) b = (Inl derr, s'))
            \<or> (\<exists>b c. fst (dpop_step jo std cfg env r b c (hw_replay hw)) = Some derr) \<or> derr = AuthErr ErrRateLimitExceeded"
          using d Some by (metis fst_conv)
      qed (use b v c d Some in \<open>simp_all add: serve_def challenge_nonce_sent\<close>)
    next
      case None
      obtain ok ra l where l: "limit_step cfg env c (hw_limiter hw) = ((ok, ra), l)"
        by (metis prod.exhaust)
      let ?hw3 = "?hw1\<lparr>hw_replay := st, hw_limiter := l\<rparr>"
      show ?thesis
      proof (cases ok)
        case True
        with b v c d None l have "admitted jo std cfg validate env r hw bearer c ?hw3"
          by (auto simp: admitted_def)
        then show ?thesis by (rule admit)
      next
        case False
        show ?thesis
          by (rule deny [of "AuthErr ErrRateLimitExceeded" "setRetryAfter ra w" ?hw3])
            (use b v c d None l False in \<open>simp_all add: serve_def setRetryAfter_sent\<close>)
      qed
    qed
  qed
qed

context token_validator
begin

lemma admitted_vouched:
  assumes "sinv (hw_validator hw)" and "admitted jo std cfg validate env r hw bearer c hw'"
  shows "vouched (rq_Context r) bearer c \<and> sinv (hw_validator hw') \<and> bearer \<noteq> []"
  using assms sound accepted_inv accepted_nonempty unfolding admitted_def by blast

end

section \<open>Lemmas on challenges and waiting times\<close>

lemma sanitizeQuoted_ok: "list_all quoted_ok (sanitizeQuoted s)"
  by (simp add: sanitizeQuoted_def list_all_iff)

lemma field_byte_qparam [simp]:
  "list_all field_byte (qparam n v) \<longleftrightarrow> list_all field_byte n \<and> list_all field_byte v"
  by (auto simp: qparam_def field_byte_def)

lemma field_byte_sanitize [simp]: "list_all field_byte (sanitizeQuoted s)"
  using sanitizeQuoted_ok [of s] by (auto simp: list_all_iff quoted_ok_field)

lemma quotes_Join:
  "CHR 0x22 \<notin> set sep \<Longrightarrow> count_list (strings_Join ws sep) CHR 0x22 = (\<Sum>w \<leftarrow> ws. count_list w CHR 0x22)"
  by (induction ws sep rule: strings_Join.induct) auto

lemma quotes_qparam: "count_list (qparam n v) CHR 0x22 = count_list n CHR 0x22 + count_list v CHR 0x22 + 2"
  by (simp add: qparam_def)

lemma quotes_sanitize [simp]: "count_list (sanitizeQuoted s) CHR 0x22 = 0"
  by (simp add: sanitizeQuoted_def quoted_ok_def count_list_0_iff)

definition qparam_ok :: "string \<Rightarrow> bool" where
  "qparam_ok q \<longleftrightarrow> list_all field_byte q \<and> count_list q CHR 0x22 = 2"

lemma qparam_okI:
  "list_all field_byte n \<Longrightarrow> count_list n CHR 0x22 = 0 \<Longrightarrow> list_all field_byte v \<Longrightarrow> count_list v CHR 0x22 = 0 \<Longrightarrow>
   qparam_ok (qparam n v)"
  by (simp add: qparam_ok_def quotes_qparam)

lemma qparam_ok_const:
  "qparam_ok (qparam ''error'' ''invalid_token'')"
  "qparam_ok (qparam ''error_description'' ''the access token expired'')"
  "qparam_ok (qparam ''error'' ''insufficient_scope'')"
  "qparam_ok (qparam ''error'' ''invalid_dpop_proof'')"
  "qparam_ok (qparam ''error'' ''use_dpop_nonce'')"
  "qparam_ok (qparam ''realm'' ''mcp'')"
  "qparam_ok (qparam ''scope'' (sanitizeQuoted s))"
  "qparam_ok (qparam ''resource_metadata'' (sanitizeQuoted s))"
  by (rule qparam_okI; simp add: field_byte_def)+

lemma challenge_params_fields:
  "list_all qparam_ok (snd (challenge_params e scopes))"
  "fst (challenge_params e scopes) \<in> {''Bearer'', ''DPoP''}"
  by (simp_all add: challenge_params_def qparam_ok_const)

lemma bit_len_le: "n < 2 ^ k \<Longrightarrow> bit_len n \<le> k"
proof (induction k arbitrary: n)
  case 0
  then show ?case by (simp add: bit_len.simps)
next
  case (Suc k)
  then have "n div 2 < 2 ^ k" by auto
  with Suc.IH [of "n div 2"] show ?case by (subst bit_len.simps) simp
qed

lemma ceil_Seconds_exact:
  assumes "0 < d" and "d < 2 ^ 24 * second"
  shows "ceil_Seconds d = (if d mod second = 0 then d div second else d div second + 1)"
proof -
  let ?s = "d div second" and ?n = "d mod second" and ?k = "53 - (bit_len (nat (d div second)) - 1)"
  have "?s < 2 ^ 24" using assms(2) div_mult_mod_eq [of d second] pos_mod_sign [of second d] by linarith
  then have "bit_len (nat ?s) \<le> 24" by (intro bit_len_le) (simp add: nat_less_iff)
  then have "(2 :: int) ^ 30 \<le> 2 ^ ?k" by (intro power_increasing) auto
  then have "\<not> (?n * 2 ^ ?k < second)" if "?n \<noteq> 0"
  proof -
    have "1 \<le> ?n" using that by (metis pos_mod_sign int_one_le_iff_zero_less less_le zero_less_numeral)
    then have "1 * 2 ^ 30 \<le> ?n * 2 ^ ?k" using \<open>(2 :: int) ^ 30 \<le> 2 ^ ?k\<close> by (intro mult_mono) auto
    then show ?thesis by simp
  qed
  then show ?thesis by (simp add: ceil_Seconds_def Let_def)
qed

lemma ceil_bounds:
  "d \<le> (if d mod second = 0 then d div second else d div second + 1) * second
   \<and> ((if d mod second = 0 then d div second else d div second + 1) - 1) * second < (d :: int)"
proof -
  define q n where "q = d div second" and "n = d mod second"
  have "d = q * second + n" "0 \<le> n" "n < second" by (simp_all add: q_def n_def)
  then show ?thesis unfolding q_def [symmetric] n_def [symmetric] by (cases "n = 0") auto
qed

text \<open>What goes out for a library error.\<close>

lemma writeAuthError_sent:
  assumes "rs_sent w = None" and "errors_As err = Some e" and "\<not> informational (HTTPStatus e)"
  shows "rs_sent (fst (writeAuthError cfg err w hw)) = Some (HTTPStatus e,
    Header_Set (Header_Set (Header_Set (rs_header w) ''Content-Type'' ''application/json'')
      ''WWW-Authenticate'' (buildWWWAuthenticate e (mc_ResourceMetadataURL cfg) (mc_Scopes cfg))) ''Cache-Control'' ''no-store'')"
  using assms by (simp add: writeAuthError_def set_header_def WriteHeader_def Write_def Let_def)

section \<open>Properties\<close>

text \<open>C7: the middleware reaches the downstream handler only for a request whose bearer token the
  configured validator vouched for, whose DPoP check passed (when configured) and which the rate limiter
  let through (when configured), and then the handler's context carries exactly those claims and that
  token. Every other request is answered without the handler: the answer is the same for all handlers
  and the application state is untouched.\<close>

theorem middleware_admits_only_vouched:
  assumes "Middleware jo std cfg = Inr mw" and "mc_Validator cfg = Some (\<lambda>s ctx b. (MultiValidate jx m ctx b, s))"
  shows "(\<exists>bearer c hw'. (\<forall>next_handler. mw env next_handler r w hw =
              next_handler (downstream r bearer c) (rotate_nonce (mc_DPoP cfg) env w) hw')
            \<and> ClaimsFrom (rq_Context (downstream r bearer c)) = Some c
            \<and> RawTokenFrom (rq_Context (downstream r bearer c)) = Some bearer
            \<and> extractBearer r = Inr bearer \<and> bearer \<noteq> []
            \<and> multi_vouched_by jx m (rq_Context r) bearer c
            \<and> dpop_step jo std cfg env r bearer c (hw_replay hw) = (None, hw_replay hw')
            \<and> fst (fst (limit_step cfg env c (hw_limiter hw))))
    \<or> (\<exists>resp hw'. (\<forall>next_handler. mw env next_handler r w hw = (resp, hw')) \<and> hw_app hw' = hw_app hw)"
proof -
  let ?val = "\<lambda>s ctx b. (MultiValidate jx m ctx b, s)"
  have mw: "mw = serve jo std cfg ?val" using assms by (auto simp: Middleware_def split: if_splits)
  show ?thesis
  proof (cases rule: serve_cases [where jo = jo and std = std and cfg = cfg and validate = ?val and env = env and r = r and hw = hw and w = w])
    case (admit bearer c hw')
    then have "multi_vouched_by jx m (rq_Context r) bearer c" "bearer \<noteq> []"
      using multi.admitted_vouched [OF _ admit] by auto
    moreover have "extractBearer r = Inr bearer" "dpop_step jo std cfg env r bearer c (hw_replay hw) = (None, hw_replay hw')"
      "fst (fst (limit_step cfg env c (hw_limiter hw)))"
      using admit by (auto simp: admitted_def)
    ultimately show ?thesis
      by (intro disjI1 exI [of _ bearer] exI [of _ c] exI [of _ hw']) (simp add: mw serve_admitted [OF admit])
  next
    case (deny err w' hw')
    then have "hw_app (snd (writeAuthError cfg err w' hw')) = hw_app hw"
      by (simp add: writeAuthError_def split: option.splits)
    with deny(1) mw show ?thesis by (metis prod.collapse)
  qed
qed

definition demo_multi :: multi_validator where
  "demo_multi = \<lparr>byIssuer = [(''iss'', \<lparr>v_cfg = demo_config ''iss''\<rparr>)]\<rparr>"

definition demo_mw_config :: "(unit, unit, unit) middleware_config" where
  "demo_mw_config = \<lparr>mc_Validator = Some (\<lambda>s ctx b. (MultiValidate demo_jwx demo_multi ctx b, s)), mc_RateLimiter = None,
     mc_HasLogger = True, mc_ResourceMetadataURL = [], mc_Scopes = [], mc_DPoP = None, mc_BaseURL = []\<rparr>"

definition demo_request :: "string \<Rightarrow> http_request" where
  "demo_request authz = \<lparr>rq_Method = ''POST'', rq_Host = ''mcp'', rq_Path = ''/m'', rq_TLS = True,
     rq_Header = [(''Authorization'', [authz])], rq_Context = []\<rparr>"

definition demo_world :: "(unit, unit, unit, nat) http_world" where
  "demo_world = \<lparr>hw_validator = (), hw_replay = (), hw_limiter = (), hw_app = 0, hw_log = []\<rparr>"

definition demo_env :: "time \<Rightarrow> request_env" where
  "demo_env t = \<lparr>re_enforce = t, re_cache = t, re_challenge = t, re_challenge_rnd = None, re_limit = t, re_rotate = t,
     re_rotate_rnd = None\<rparr>"

lemma demo_bearer: "extractBearer (demo_request ''Bearer iss'') = Inr ''iss''"
  by (simp add: extractBearer_def demo_request_def Header_Get_def Header_Values_def CanonicalHeaderKey_def
      ascii_upper_def ascii_lower_def ascii_EqualFold_def strings_TrimSpace_def strip.simps space_width_def
      space_width_end_def space_runes_def)

lemma demo_validates: "MultiValidate demo_jwx demo_multi [] ''iss'' = Inr (claimsFromToken (demo_token ''iss''))"
  by (simp add: MultiValidate_def Validate_def demo_jwx_def demo_multi_def demo_config_def demo_token_def)

lemma demo_admitted:
  "admitted demo_jose demo_std demo_mw_config (\<lambda>s ctx b. (MultiValidate demo_jwx demo_multi ctx b, s)) env
     (demo_request ''Bearer iss'') demo_world ''iss'' (claimsFromToken (demo_token ''iss'')) demo_world"
proof -
  have "rq_Context (demo_request a) = []" for a by (simp add: demo_request_def)
  then show ?thesis
    by (simp add: admitted_def demo_bearer demo_validates dpop_step_def limit_step_def demo_mw_config_def)
qed

theorem middleware_admits_only_vouched_witness:
  "\<exists>mw bearer c. Middleware demo_jose demo_std demo_mw_config = Inr mw
     \<and> mw (demo_env 0) (\<lambda>r w hw. (w, hw\<lparr>hw_app := (1 :: nat)\<rparr>)) (demo_request ''Bearer iss'') new_response demo_world =
        (new_response, demo_world\<lparr>hw_app := 1\<rparr>)
     \<and> multi_vouched_by demo_jwx demo_multi [] bearer c"
proof -
  let ?h = "\<lambda>r w hw. (w, hw\<lparr>hw_app := (1 :: nat)\<rparr>)" and ?mw = "serve demo_jose demo_std demo_mw_config (\<lambda>s ctx b. (MultiValidate demo_jwx demo_multi ctx b, s))"
  have m: "Middleware demo_jose demo_std demo_mw_config = Inr ?mw"
    by (simp add: Middleware_def demo_mw_config_def)
  have v: "mc_Validator demo_mw_config = Some (\<lambda>s ctx b. (MultiValidate demo_jwx demo_multi ctx b, s))"
    by (simp add: demo_mw_config_def)
  have run: "?mw (demo_env 0) ?h (demo_request ''Bearer iss'') new_response demo_world = (new_response, demo_world\<lparr>hw_app := 1\<rparr>)"
    by (subst serve_admitted [OF demo_admitted]) (simp add: rotate_nonce_def demo_mw_config_def)
  have "hw_app (snd (?mw (demo_env 0) ?h (demo_request ''Bearer iss'') new_response demo_world)) \<noteq> hw_app demo_world"
    unfolding run by (simp add: demo_world_def)
  then have "\<nexists>resp hw'. (\<forall>h. ?mw (demo_env 0) h (demo_request ''Bearer iss'') new_response demo_world = (resp, hw'))
      \<and> hw_app hw' = hw_app demo_world"
    by (metis snd_conv)
  with middleware_admits_only_vouched [OF m v, of "demo_env 0" "demo_request ''Bearer iss''" new_response demo_world]
  obtain bearer c where "multi_vouched_by demo_jwx demo_multi (rq_Context (demo_request ''Bearer iss'')) bearer c"
    by blast
  with m run show ?thesis by (auto simp: demo_request_def)
qed

text \<open>C33: the answer to a rejected request shows nothing but the public error: for a library error the
  status, headers and body are those of the sentinel whatever its cause, with a challenge and
  no-store; anything else is a 500 with a constant text.\<close>

theorem writeAuthError_response:
  assumes "rs_sent w = None" and "e \<in> set auth_sentinels" and "errors_As other = None"
  shows "fst (writeAuthError cfg (AuthErr (With e cause)) w hw) = fst (writeAuthError cfg (AuthErr e) w hw)
    \<and> (\<exists>h. rs_sent (fst (writeAuthError cfg (AuthErr e) w hw)) = Some (HTTPStatus e, h)
          \<and> Header_Get h ''Cache-Control'' = ''no-store''
          \<and> Header_Get h ''WWW-Authenticate'' = buildWWWAuthenticate e (mc_ResourceMetadataURL cfg) (mc_Scopes cfg))
    \<and> 400 \<le> HTTPStatus e \<and> HTTPStatus e < 500
    \<and> rs_body (fst (writeAuthError cfg (AuthErr e) w hw)) = rs_body w @ [BodyJSON (error_json e)]
    \<and> map_option fst (rs_sent (fst (writeAuthError cfg other w hw))) = Some 500
    \<and> rs_body (fst (writeAuthError cfg other w hw)) = rs_body w @ [BodyText (''internal error'' @ [CHR 0x0A])]"
proof -
  have st: "400 \<le> HTTPStatus e" "HTTPStatus e < 500"
    using assms(2) by (auto simp: auth_sentinels_def sentinel_defs)
  have "buildWWWAuthenticate (With e cause) u sc = buildWWWAuthenticate e u sc" for u sc
    by (simp add: buildWWWAuthenticate_def challenge_params_def)
  moreover have "error_json (With e cause) = error_json e" by (simp add: error_json_def)
  ultimately show ?thesis
    using assms st by (simp add: writeAuthError_def response_simps CanonicalHeaderKey_def ascii_upper_def ascii_lower_def)
qed

theorem writeAuthError_response_witness:
  "map_option fst (rs_sent (fst (writeAuthError demo_mw_config (AuthErr ErrForbidden) new_response demo_world))) = Some 403"
  using writeAuthError_response [of new_response ErrForbidden "ErrorString ''boom''" demo_mw_config "ErrorString ''x''" demo_world]
  by (auto simp: new_response_def auth_sentinels_def ErrForbidden_def)

text \<open>C32: no challenge can be used for header injection: for every error, metadata URL and scope list,
  the value of WWW-Authenticate consists of printable bytes (no control characters, no line breaks) and
  its quotes are balanced, two for each parameter.\<close>

theorem challenge_no_injection:
  "list_all field_byte (buildWWWAuthenticate e url scopes)
   \<and> even (count_list (buildWWWAuthenticate e url scopes) CHR 0x22)"
proof -
  obtain scheme ps where cp: "challenge_params e scopes = (scheme, ps)" by fastforce
  let ?ps = "[qparam ''realm'' ''mcp''] @ ps
      @ (if url \<noteq> [] then [qparam ''resource_metadata'' (sanitizeQuoted url)] else [])"
  have ok: "\<forall>q \<in> set ?ps. list_all field_byte q \<and> count_list q CHR 0x22 = 2"
    using challenge_params_fields(1) [of e scopes] cp qparam_ok_const(6,8) by (auto simp: list_all_iff qparam_ok_def)
  then have f: "list_all field_byte (strings_Join ?ps '', '')" by (intro list_all_Join) (simp_all add: field_byte_def)
  have "even (\<Sum>w \<leftarrow> xs. count_list w CHR 0x22)" if "\<forall>w \<in> set xs. count_list w CHR 0x22 = 2" for xs :: "string list"
    using that by (induction xs) auto
  with ok have "even (count_list (strings_Join ?ps '', '') CHR 0x22)" by (subst quotes_Join) simp_all
  moreover have "scheme \<in> {''Bearer'', ''DPoP''}" using challenge_params_fields(2) [of e scopes] cp by simp
  ultimately show ?thesis
    using f cp by (auto simp: buildWWWAuthenticate_def field_byte_def)
qed

text \<open>C34: the Retry-After header never sends a client back too early nor makes it wait a second too
  long: for waits below 2^24 seconds it is the waiting time rounded up to whole seconds, at least one,
  and it is omitted when there is nothing to wait for.\<close>

theorem setRetryAfter_rounds_up:
  assumes "d < 2 ^ 24 * second"
  shows "if d \<le> 0 then setRetryAfter d w = w
    else (\<exists>n. setRetryAfter d w = set_header ''Retry-After'' (Itoa n) w \<and> 1 \<le> n \<and> d \<le> n * second \<and> (n - 1) * second < d)"
proof (cases "d \<le> 0")
  case False
  let ?n = "if d mod second = 0 then d div second else d div second + 1"
  have b: "d \<le> ?n * second" "(?n - 1) * second < d" using ceil_bounds [of d] by blast+
  then have "1 \<le> ?n" using False by (smt (verit) mult_nonpos_nonneg zero_less_numeral)
  with b False show ?thesis
    using ceil_Seconds_exact [of d] assms by (auto simp: setRetryAfter_def Let_def)
qed (simp add: setRetryAfter_def)

theorem setRetryAfter_rounds_up_witness:
  "\<exists>n. setRetryAfter (1500 * millisecond) new_response = set_header ''Retry-After'' (Itoa n) new_response
     \<and> 1500 * millisecond \<le> n * second \<and> (n - 1) * second < 1500 * millisecond"
  using setRetryAfter_rounds_up [of "1500 * millisecond" new_response] by auto

text \<open>The metadata document is served to GET and HEAD only, HEAD without the body, and every other
  method is answered 405 with the Allow header; the well-known path of a mounted resource does not depend
  on leading or trailing slashes.\<close>

theorem metadata_endpoint:
  assumes "rs_sent w = None"
  shows "map_option fst (rs_sent (fst (MetadataHandler meta r w hw))) =
      Some (if rq_Method r \<in> {''GET'', ''HEAD''} then 200 else 405)
    \<and> rs_body (fst (MetadataHandler meta r w hw)) = rs_body w
        @ (if rq_Method r = ''GET'' then [BodyJSON (metadata_json meta)]
           else if rq_Method r = ''HEAD'' then [] else [BodyText (''method not allowed'' @ [CHR 0x0A])])
    \<and> (rq_Method r \<in> {''GET'', ''HEAD''} \<or> Header_Get (rs_header (fst (MetadataHandler meta r w hw))) ''Allow'' = ''GET, HEAD'')
    \<and> MetadataPathFor (''/'' @ p @ ''/'') = MetadataPathFor p"
proof -
  have "trim_char CHR ''/'' (''/'' @ p @ ''/'') = trim_char CHR ''/'' p" using trim_char_both by simp
  then have path: "MetadataPathFor (''/'' @ p @ ''/'') = MetadataPathFor p" by (simp add: MetadataPathFor_def)
  consider (get) "rq_Method r = ''GET''" | (head) "rq_Method r = ''HEAD''"
    | (other) "rq_Method r \<noteq> ''GET''" "rq_Method r \<noteq> ''HEAD''" by blast
  then show ?thesis
  proof cases
    case other
    have "Header_Get (rs_header (fst (MetadataHandler meta r w hw))) ''Allow'' = ''GET, HEAD''"
      using other by (simp add: MetadataHandler_def response_simps CanonicalHeaderKey_def ascii_upper_def ascii_lower_def)
    with other assms path show ?thesis by (simp add: MetadataHandler_def response_simps)
  qed (use assms path in \<open>simp_all add: MetadataHandler_def response_simps\<close>)
qed

theorem metadata_endpoint_witness:
  "map_option fst (rs_sent (fst (MetadataHandler \<lparr>md_Resource = ''https://mcp'', md_AuthorizationServers = None,
      md_BearerMethodsSupported = None, md_ScopesSupported = None, md_ResourceName = []\<rparr> (demo_request []) new_response
      demo_world))) = Some 405"
  using metadata_endpoint [of new_response "\<lparr>md_Resource = ''https://mcp'', md_AuthorizationServers = None,
      md_BearerMethodsSupported = None, md_ScopesSupported = None, md_ResourceName = []\<rparr>" "demo_request []" demo_world]
  by (simp add: new_response_def demo_request_def)

end
