(* ===== verification/Go_Client.thy ===== *)
theory Go_Client
  imports Go_HTTP "HOL-Library.Multiset"
begin

text \<open>
  The client side of net/http and the form values of net/url, as the token-exchange and introspection
  clients use them: form encoding, outgoing requests, Basic authentication, and a transport that is a
  parameter (a state of the network and what it answers to a request).
\<close>

section \<open>Form values\<close>

type_synonym form = "(string, string list) gomap"

definition Values_Set :: "form \<Rightarrow> string \<Rightarrow> string \<Rightarrow> form" where
  "Values_Set f k v = AList.update k [v] f"

definition Values_Get :: "form \<Rightarrow> string \<Rightarrow> string" where
  "Values_Get f k = (case map_of f k of Some (v # _) \<Rightarrow> v | _ \<Rightarrow> [])"

lemma Values_Get_Set [simp]: "Values_Get (Values_Set f k v) k' = (if k' = k then v else Values_Get f k')"
  by (simp add: Values_Get_def Values_Set_def update_conv')

text \<open>\<open>url.QueryEscape\<close>.\<close>

definition upper_hex :: "nat \<Rightarrow> char" where
  "upper_hex n = (if n < 10 then char_of (48 + n) else char_of (55 + n))"

definition unreserved :: "char \<Rightarrow> bool" where
  "unreserved c \<longleftrightarrow> (let n = (of_char c :: nat) in
     48 \<le> n \<and> n \<le> 57 \<or> 65 \<le> n \<and> n \<le> 90 \<or> 97 \<le> n \<and> n \<le> 122 \<or> c \<in> set ''-_.~'')"

definition escape_char :: "char \<Rightarrow> string" where
  "escape_char c =
     (if c = CHR '' '' then ''+''
      else if unreserved c then [c]
      else (let n = (of_char c :: nat) in [CHR ''%'', upper_hex (n div 16), upper_hex (n mod 16)]))"

definition QueryEscape :: "string \<Rightarrow> string" where
  "QueryEscape s = concat (map escape_char s)"

text \<open>Byte-wise order of strings, for \<open>sort.Strings\<close> and the sorted keys of \<open>Values.Encode\<close>.\<close>

fun string_le :: "string \<Rightarrow> string \<Rightarrow> bool" where
  "string_le [] t = True"
| "string_le (c # s) [] = False"
| "string_le (c # s) (d # t) =
     ((of_char c :: nat) < of_char d \<or> (c = d \<and> string_le s t))"

fun string_insert :: "string \<Rightarrow> string list \<Rightarrow> string list" where
  "string_insert x [] = [x]"
| "string_insert x (y # ys) = (if string_le x y then x # y # ys else y # string_insert x ys)"

definition sort_Strings :: "string list \<Rightarrow> string list" where
  "sort_Strings xs = foldr string_insert xs []"

definition Values_Encode :: "form \<Rightarrow> string" where
  "Values_Encode f =
     strings_Join
       (concat (map (\<lambda>k. map (\<lambda>v. QueryEscape k @ ''='' @ QueryEscape v) (the (map_of f k)))
                    (sort_Strings (map fst f)))) ''&''"

lemma mset_string_insert: "mset (string_insert x ys) = add_mset x (mset ys)"
  by (induction ys) auto

lemma mset_sort_Strings [simp]: "mset (sort_Strings xs) = mset xs"
  by (induction xs) (auto simp: sort_Strings_def mset_string_insert)

section \<open>Requests, responses and the transport\<close>

record out_request =
  oq_Method :: string
  oq_URL :: string
  oq_Header :: header
  oq_Body :: string

text \<open>A response body is the bytes that can be read, and the error after them (\<open>None\<close>: end of file).\<close>

record http_resp =
  rp_Status :: int
  rp_Header :: header
  rp_Body :: string
  rp_BodyErr :: "goerr option"

text \<open>
  \<open>http.NewRequestWithContext\<close> fails on an unusable URL; \<open>hc_Do\<close> sends one request. The text level of
  encoding/json: \<open>hc_Unmarshal\<close> for a whole document, \<open>hc_Decode\<close> for the first value of a stream;
  \<open>hc_TypeError\<close> is the error of a document that does not fit the target type.
\<close>

record 'n http_client =
  hc_BadURL :: "string \<Rightarrow> goerr option"
  hc_Do :: "'n \<Rightarrow> out_request \<Rightarrow> (goerr + http_resp) \<times> 'n"
  hc_Unmarshal :: "string \<Rightarrow> goerr + json"
  hc_Decode :: "string \<Rightarrow> goerr option \<Rightarrow> goerr + json"
  hc_TypeError :: "json \<Rightarrow> goerr"

text \<open>\<open>io.ReadAll(io.LimitReader(body, n))\<close>.\<close>

definition ReadAll_limit :: "nat \<Rightarrow> http_resp \<Rightarrow> goerr + string" where
  "ReadAll_limit n rp =
     (if n \<le> length (rp_Body rp) then Inr (take n (rp_Body rp))
      else (case rp_BodyErr rp of Some e \<Rightarrow> Inl e | None \<Rightarrow> Inr (rp_Body rp)))"

definition SetBasicAuth :: "string \<Rightarrow> string \<Rightarrow> out_request \<Rightarrow> out_request" where
  "SetBasicAuth user pass q =
     q\<lparr>oq_Header := Header_Set (oq_Header q) ''Authorization'' (''Basic '' @ Std_EncodeToString (user @ '':'' @ pass))\<rparr>"

definition new_post :: "string \<Rightarrow> string \<Rightarrow> out_request" where
  "new_post url body =
     \<lparr>oq_Method = ''POST'', oq_URL = url,
      oq_Header = Header_Set (Header_Set [] ''Content-Type'' ''application/x-www-form-urlencoded'') ''Accept'' ''application/json'',
      oq_Body = body\<rparr>"

text \<open>A transport that also counts the requests it is given.\<close>

definition counting :: "'n http_client \<Rightarrow> ('n \<times> nat) http_client" where
  "counting hc = \<lparr>hc_BadURL = hc_BadURL hc,
     hc_Do = (\<lambda>(n, k) q. case hc_Do hc n q of (r, n') \<Rightarrow> (r, (n', Suc k))),
     hc_Unmarshal = hc_Unmarshal hc, hc_Decode = hc_Decode hc, hc_TypeError = hc_TypeError hc\<rparr>"

lemma counting_sel [simp]:
  "hc_BadURL (counting hc) = hc_BadURL hc" "hc_Unmarshal (counting hc) = hc_Unmarshal hc"
  "hc_Decode (counting hc) = hc_Decode hc" "hc_TypeError (counting hc) = hc_TypeError hc"
  by (simp_all add: counting_def)

lemma counting_Do: "hc_Do (counting hc) nk q = (fst (hc_Do hc (fst nk) q), (snd (hc_Do hc (fst nk) q), Suc (snd nk)))"
  by (cases nk) (simp add: counting_def split: prod.splits)

text \<open>A client that keeps what passed over the wire: each request with its outcome.\<close>

type_synonym exchange_log = "(out_request \<times> (goerr + http_resp)) list"

definition taping :: "'n http_client \<Rightarrow> ('n \<times> exchange_log) http_client" where
  "taping hc = \<lparr>hc_BadURL = hc_BadURL hc,
     hc_Do = (\<lambda>(n, tape) q. case hc_Do hc n q of (r, n') \<Rightarrow> (r, (n', tape @ [(q, r)]))),
     hc_Unmarshal = hc_Unmarshal hc, hc_Decode = hc_Decode hc, hc_TypeError = hc_TypeError hc\<rparr>"

lemma taping_sel [simp]:
  "hc_BadURL (taping hc) = hc_BadURL hc" "hc_Unmarshal (taping hc) = hc_Unmarshal hc"
  "hc_Decode (taping hc) = hc_Decode hc" "hc_TypeError (taping hc) = hc_TypeError hc"
  by (simp_all add: taping_def)

lemma taping_Do:
  "hc_Do (taping hc) nt q = (fst (hc_Do hc (fst nt) q), (snd (hc_Do hc (fst nt) q), snd nt @ [(q, fst (hc_Do hc (fst nt) q))]))"
  by (cases nt) (simp add: taping_def split: prod.splits)

text \<open>A client that keeps the requests it was given.\<close>

definition logging :: "'n http_client \<Rightarrow> ('n \<times> out_request list) http_client" where
  "logging hc = \<lparr>hc_BadURL = hc_BadURL hc,
     hc_Do = (\<lambda>(n, qs) q. case hc_Do hc n q of (r, n') \<Rightarrow> (r, (n', qs @ [q]))),
     hc_Unmarshal = hc_Unmarshal hc, hc_Decode = hc_Decode hc, hc_TypeError = hc_TypeError hc\<rparr>"

lemma logging_sel [simp]:
  "hc_BadURL (logging hc) = hc_BadURL hc" "hc_Unmarshal (logging hc) = hc_Unmarshal hc"
  "hc_Decode (logging hc) = hc_Decode hc" "hc_TypeError (logging hc) = hc_TypeError hc"
  by (simp_all add: logging_def)

lemma logging_Do: "hc_Do (logging hc) nk q = (fst (hc_Do hc (fst nk) q), (snd (hc_Do hc (fst nk) q), snd nk @ [q]))"
  by (cases nk) (simp add: logging_def split: prod.splits)

end
