(* ===== verification/Token_Cache.thy ===== *)
theory Token_Cache
  imports Go_Time Prelude
begin

text \<open>
  The cache contract shared by exchange.Cache and introspection.Cache, and the algorithm of the two
  in-memory implementations (exchange/cache.go and introspection/cache.go): a mutex-guarded map that
  serves an entry while the clock is before its expiry less a leeway, and deletes it afterwards. \<open>expiry\<close>
  reads the ExpiresAt field of a stored value.
\<close>

section \<open>Interfaces\<close>

text \<open>
  \<open>holds c k x\<close>: the cache may still answer \<open>x\<close> for \<open>k\<close>; \<open>fresh c t x\<close>: it serves \<open>x\<close> at time \<open>t\<close>.
  What a lookup returns is held and fresh; a lookup adds nothing; a store adds only its own pair.
\<close>

locale token_cache =
  fixes get :: "'c \<Rightarrow> time \<Rightarrow> string \<Rightarrow> 'v option \<times> 'c"
    and put :: "'c \<Rightarrow> string \<Rightarrow> 'v \<Rightarrow> 'c"
    and holds :: "'c \<Rightarrow> string \<Rightarrow> 'v \<Rightarrow> bool"
    and fresh :: "'c \<Rightarrow> time \<Rightarrow> 'v \<Rightarrow> bool"
  assumes get_sound: "get c t k = (Some x, c') \<Longrightarrow> holds c k x \<and> fresh c t x"
    and get_keeps: "holds (snd (get c t k)) k' x \<Longrightarrow> holds c k' x"
    and put_holds: "holds (put c k v) k' x \<Longrightarrow> (k' = k \<and> x = v) \<or> (k' \<noteq> k \<and> holds c k' x)"
begin

text \<open>Whatever is true of every held pair stays true.\<close>

definition all_held :: "(string \<Rightarrow> 'v \<Rightarrow> bool) \<Rightarrow> 'c \<Rightarrow> bool" where
  "all_held P c \<longleftrightarrow> (\<forall>k x. holds c k x \<longrightarrow> P k x)"

lemma all_held_get: "all_held P c \<Longrightarrow> all_held P (snd (get c t k))"
  by (auto simp: all_held_def dest: get_keeps)

lemma all_held_get': "all_held P c \<Longrightarrow> get c t k = (r, c') \<Longrightarrow> all_held P c'"
  using all_held_get [of P c t k] by simp

lemma all_held_put: "all_held P c \<Longrightarrow> P k v \<Longrightarrow> all_held P (put c k v)"
  by (auto simp: all_held_def dest: put_holds)

lemma all_held_answer: "all_held P c \<Longrightarrow> get c t k = (Some x, c') \<Longrightarrow> P k x"
  by (auto simp: all_held_def dest: get_sound)

lemma all_held_mono: "all_held P c \<Longrightarrow> (\<And>k x. P k x \<Longrightarrow> Q k x) \<Longrightarrow> all_held Q c"
  by (auto simp: all_held_def)

end

text \<open>A cache that also keeps what is stored until it goes stale.\<close>

locale storing_cache = token_cache +
  assumes put_get: "fresh c t v \<Longrightarrow> fst (get (put c k v) t k) = Some v"

section \<open>The in-memory algorithm\<close>

record 'v ttl_cache =
  tc_leeway :: duration
  tc_items :: "(string, 'v) gomap"

definition ttl_fresh :: "('v \<Rightarrow> time) \<Rightarrow> 'v ttl_cache \<Rightarrow> time \<Rightarrow> 'v \<Rightarrow> bool" where
  "ttl_fresh expiry c now v \<longleftrightarrow> now < time_Add (expiry v) (dur_neg (tc_leeway c))"

definition ttl_Get :: "('v \<Rightarrow> time) \<Rightarrow> 'v ttl_cache \<Rightarrow> time \<Rightarrow> string \<Rightarrow> 'v option \<times> 'v ttl_cache" where
  "ttl_Get expiry c now key =
     (case map_of (tc_items c) key of
        None \<Rightarrow> (None, c)
      | Some v \<Rightarrow>
          (if \<not> ttl_fresh expiry c now v then (None, c\<lparr>tc_items := AList.delete key (tc_items c)\<rparr>)
           else (Some v, c)))"

definition ttl_Set :: "'v ttl_cache \<Rightarrow> string \<Rightarrow> 'v \<Rightarrow> 'v ttl_cache" where
  "ttl_Set c key v = c\<lparr>tc_items := AList.update key v (tc_items c)\<rparr>"

definition ttl_holds :: "'v ttl_cache \<Rightarrow> string \<Rightarrow> 'v \<Rightarrow> bool" where
  "ttl_holds c k v \<longleftrightarrow> map_of (tc_items c) k = Some v"

interpretation ttl: storing_cache "ttl_Get expiry" ttl_Set ttl_holds "ttl_fresh expiry" for expiry :: "'v \<Rightarrow> time"
proof unfold_locales
  fix c :: "'v ttl_cache" and t k x c' k' v
  show "ttl_Get expiry c t k = (Some x, c') \<Longrightarrow> ttl_holds c k x \<and> ttl_fresh expiry c t x"
    by (auto simp: ttl_Get_def ttl_holds_def split: option.splits if_splits)
  show "ttl_holds (snd (ttl_Get expiry c t k)) k' x \<Longrightarrow> ttl_holds c k' x"
    by (auto simp: ttl_Get_def ttl_holds_def delete_conv' split: option.splits if_splits)
  show "ttl_holds (ttl_Set c k v) k' x \<Longrightarrow> (k' = k \<and> x = v) \<or> (k' \<noteq> k \<and> ttl_holds c k' x)"
    by (auto simp: ttl_Set_def ttl_holds_def update_conv' split: if_splits)
  show "ttl_fresh expiry c t v \<Longrightarrow> fst (ttl_Get expiry (ttl_Set c k v) t k) = Some v"
    by (simp add: ttl_Get_def ttl_Set_def ttl_fresh_def update_conv')
qed

text \<open>A stale entry is gone after the lookup that finds it.\<close>

lemma ttl_Get_evicts:
  "ttl_Get expiry c t k = (None, c') \<Longrightarrow> map_of (tc_items c') k = None"
  by (auto simp: ttl_Get_def delete_conv' split: option.splits if_splits)

end
