(* ===== verification/Go_Net.thy ===== *)
theory Go_Net
  imports Go_JSON Go_Strings
begin

text \<open>
  \<open>net.ParseIP\<close> and \<open>IP.IsLoopback\<close>: textual IPv4 and IPv6 addresses. An address is its sixteen bytes, an
  IPv4 address in its IPv4-in-IPv6 form.
\<close>

section \<open>IPv4\<close>

text \<open>One field of a dotted quad: decimal digits without a leading zero, at most 255.\<close>

definition ipv4_field :: "string \<Rightarrow> nat option" where
  "ipv4_field f =
     (if f = [] \<or> (1 < length f \<and> hd f = CHR ''0'') then None
      else (case parse_digits 0 f of
              None \<Rightarrow> None
            | Some n \<Rightarrow> if n \<le> 255 then Some n else None))"

definition parseIPv4Fields :: "string \<Rightarrow> nat list option" where
  "parseIPv4Fields s =
     (case map ipv4_field (split_on CHR ''.'' s) of
        [Some a, Some b, Some c, Some d] \<Rightarrow> Some [a, b, c, d]
      | _ \<Rightarrow> None)"

section \<open>IPv6\<close>

definition hex_number :: "string \<Rightarrow> nat" where
  "hex_number ds = foldl (\<lambda>a c. 16 * a + the (hex_value c)) 0 ds"

text \<open>
  The loop over the groups: the bytes so far, the position of the ellipsis, the rest of the text. The result
  is the bytes and the ellipsis once the text is used up.
\<close>

function ipv6_groups :: "nat list \<Rightarrow> nat option \<Rightarrow> string \<Rightarrow> (nat list \<times> nat option) option" where
  "ipv6_groups ip ellipsis s =
     (if 16 \<le> length ip then (if s = [] then Some (ip, ellipsis) else None)
      else
        (let ds = takeWhile (\<lambda>c. hex_value c \<noteq> None) s;
             r = drop (length ds) s
         in if ds = [] \<or> 4 < length ds then None
            else if take 1 r = ''.'' then
              (if ellipsis = None \<and> length ip \<noteq> 12 \<or> 16 < length ip + 4 then None
               else map_option (\<lambda>v4. (ip @ v4, ellipsis)) (parseIPv4Fields s))
            else
              (let ip' = ip @ [hex_number ds div 256, hex_number ds mod 256]
               in if r = [] then Some (ip', ellipsis)
                  else if hd r \<noteq> CHR '':'' \<or> length r = 1 then None
                  else if hd (tl r) = CHR '':'' then
                    (if ellipsis \<noteq> None then None
                     else if drop 2 r = [] then Some (ip', Some (length ip'))
                     else ipv6_groups ip' (Some (length ip')) (drop 2 r))
                  else ipv6_groups ip' ellipsis (tl r))))"
  by pat_completeness auto
termination
  by (relation "measure (\<lambda>(ip, e, s). length s)") (auto simp: Let_def)

declare ipv6_groups.simps [simp del]

text \<open>The ellipsis stands for the zero groups that are missing, at least one.\<close>

definition expand_ellipsis :: "nat list \<times> nat option \<Rightarrow> nat list option" where
  "expand_ellipsis g =
     (case g of
        (ip, None) \<Rightarrow> if length ip < 16 then None else Some ip
      | (ip, Some e) \<Rightarrow> if length ip < 16 then Some (take e ip @ replicate (16 - length ip) 0 @ drop e ip) else None)"

definition parseIPv6 :: "string \<Rightarrow> nat list option" where
  "parseIPv6 s =
     (if take 2 s = ''::'' then
        (if length s = 2 then Some (replicate 16 0)
         else Option.bind (ipv6_groups [] (Some 0) (drop 2 s)) expand_ellipsis)
      else Option.bind (ipv6_groups [] None s) expand_ellipsis)"

section \<open>ParseIP\<close>

definition v4InV6Prefix :: "nat list" where
  "v4InV6Prefix = [0, 0, 0, 0, 0, 0, 0, 0, 0, 0, 255, 255]"

text \<open>
  The first dot, colon or percent sign decides; an address with a zone (a percent sign) is not an \<open>IP\<close>.
\<close>

definition ParseIP :: "string \<Rightarrow> nat list option" where
  "ParseIP s =
     (case dropWhile (\<lambda>c. c \<notin> set ''.:%'') s of
        [] \<Rightarrow> None
      | c # _ \<Rightarrow>
          (if c = CHR ''.'' then map_option (\<lambda>v4. v4InV6Prefix @ v4) (parseIPv4Fields s)
           else if c = CHR '':'' \<and> CHR ''%'' \<notin> set s then parseIPv6 s
           else None))"

definition IsLoopback :: "nat list \<Rightarrow> bool" where
  "IsLoopback ip =
     (if take 12 ip = v4InV6Prefix then ip ! 12 = 127
      else ip = replicate 15 0 @ [1])"

section \<open>Dotted quads\<close>

definition dotted_quad :: "nat \<Rightarrow> nat \<Rightarrow> nat \<Rightarrow> nat \<Rightarrow> string" where
  "dotted_quad a b c d = strings_Join (map nat_digits [a, b, c, d]) ''.''"

lemma parse_digits_append: "parse_digits a (xs @ ys) = (case parse_digits a xs of None \<Rightarrow> None | Some b \<Rightarrow> parse_digits b ys)"
  by (induction xs arbitrary: a) (auto simp: Let_def)

lemma parse_digits_nat_digits: "parse_digits 0 (nat_digits n) = Some n"
proof (induction n rule: nat_digits.induct)
  case (1 n)
  then show ?case by (subst nat_digits.simps) (auto simp: parse_digits_append Let_def)
qed

lemma parse_digits_snoc:
  "parse_digits 0 (xs @ [c]) = Some n \<longleftrightarrow> is_digit c \<and> (\<exists>m. parse_digits 0 xs = Some m \<and> n = 10 * m + (byte c - 48))"
  by (auto simp: parse_digits_append is_digit_def byte_def Let_def split: option.splits if_splits)

lemma nat_digits_step: "m \<noteq> 0 \<Longrightarrow> k < 10 \<Longrightarrow> nat_digits (10 * m + k) = nat_digits m @ [char_of (48 + k)]"
  by (subst nat_digits.simps) simp

text \<open>A decimal number without leading zeros is written in exactly one way.\<close>

lemma parse_digits_unique:
  "parse_digits 0 f = Some n \<Longrightarrow> f \<noteq> [] \<Longrightarrow> \<not> (1 < length f \<and> hd f = CHR ''0'') \<Longrightarrow> f = nat_digits n"
proof (induction f arbitrary: n rule: rev_induct)
  case (snoc c xs)
  then obtain m where c: "is_digit c" and m: "parse_digits 0 xs = Some m" "n = 10 * m + (byte c - 48)"
    by (auto simp: parse_digits_snoc)
  have d: "byte c - 48 < 10" "char_of (48 + (byte c - 48)) = c" using c by (auto simp: is_digit_def)
  show ?case
  proof (cases "xs = []")
    case True
    with m d nat_digits.simps [of "byte c - 48"] show ?thesis by simp
  next
    case False
    with snoc m have xs: "xs = nat_digits m" by (cases xs) auto
    have "nat_digits 0 = ''0''" by code_simp
    with xs False snoc.prems(3) have "m \<noteq> 0" by (cases m) auto
    with m d xs show ?thesis by (simp add: nat_digits_step)
  qed
qed simp

lemma ipv4_field_iff: "ipv4_field f = Some n \<longleftrightarrow> n \<le> 255 \<and> f = nat_digits n"
proof
  assume "ipv4_field f = Some n"
  then show "n \<le> 255 \<and> f = nat_digits n"
    using parse_digits_unique [of f n] by (auto simp: ipv4_field_def split: if_splits option.splits)
next
  assume n: "n \<le> 255 \<and> f = nat_digits n"
  obtain c cs where "nat_digits n = c # cs" "c = CHR ''0'' \<longrightarrow> cs = []" using nat_digits_hd [of n] by blast
  with n parse_digits_nat_digits [of n] show "ipv4_field f = Some n" by (auto simp: ipv4_field_def)
qed

lemma ipv4_field_digits: "n \<le> 255 \<Longrightarrow> ipv4_field (nat_digits n) = Some n"
  by (simp add: ipv4_field_iff)

lemma nat_digits_no_dot: "CHR ''.'' \<notin> set (nat_digits n)"
  using nat_digits_digits [of n] by (auto simp: list_all_iff is_digit_def byte_def)

lemma parseIPv4Fields_iff:
  "parseIPv4Fields s = Some v \<longleftrightarrow> (\<exists>a b c d. v = [a, b, c, d] \<and> s = dotted_quad a b c d \<and> a \<le> 255 \<and> b \<le> 255 \<and> c \<le> 255 \<and> d \<le> 255)"
proof
  assume "parseIPv4Fields s = Some v"
  then obtain a b c d where v: "v = [a, b, c, d]" and m: "map ipv4_field (split_on CHR ''.'' s) = [Some a, Some b, Some c, Some d]"
    by (auto simp: parseIPv4Fields_def split: list.splits option.splits)
  then have "split_on CHR ''.'' s = map nat_digits [a, b, c, d]" and le: "a \<le> 255" "b \<le> 255" "c \<le> 255" "d \<le> 255"
    by (auto simp: map_eq_Cons_conv ipv4_field_iff)
  then have "s = dotted_quad a b c d" unfolding dotted_quad_def by (metis Join_split_on)
  with v le show "\<exists>a b c d. v = [a, b, c, d] \<and> s = dotted_quad a b c d \<and> a \<le> 255 \<and> b \<le> 255 \<and> c \<le> 255 \<and> d \<le> 255" by blast
next
  assume "\<exists>a b c d. v = [a, b, c, d] \<and> s = dotted_quad a b c d \<and> a \<le> 255 \<and> b \<le> 255 \<and> c \<le> 255 \<and> d \<le> 255"
  then obtain a b c d where v: "v = [a, b, c, d]" "s = dotted_quad a b c d" "a \<le> 255" "b \<le> 255" "c \<le> 255" "d \<le> 255" by blast
  have "split_on CHR ''.'' s = map nat_digits [a, b, c, d]"
    unfolding v(2) dotted_quad_def by (rule split_on_Join) (use nat_digits_no_dot in auto)
  with v show "parseIPv4Fields s = Some v" by (simp add: parseIPv4Fields_def ipv4_field_digits)
qed

text \<open>Which texts name a loopback address: the quads from 127, and IPv6 texts of the address \<open>::1\<close> or of an IPv4
  loopback address in IPv6 form.\<close>

definition loopback_text :: "string \<Rightarrow> bool" where
  "loopback_text h \<longleftrightarrow>
     (\<exists>b c d. b \<le> 255 \<and> c \<le> 255 \<and> d \<le> 255 \<and> h = dotted_quad 127 b c d)
     \<or> (CHR '':'' \<in> set h \<and> (parseIPv6 h = Some (replicate 15 0 @ [1]) \<or> (\<exists>w. parseIPv6 h = Some (v4InV6Prefix @ 127 # w))))"

lemma ipv6_groups_length: "ipv6_groups ip e s = Some (ip', e') \<Longrightarrow> length ip \<le> 16 \<Longrightarrow> even (length ip) \<Longrightarrow> length ip' \<le> 16"
proof (induction ip e s arbitrary: ip' e' rule: ipv6_groups.induct)
  case (1 ip e s)
  note run = "1.prems"(1) [unfolded ipv6_groups.simps [of ip e s]]
  have "length ip \<le> 14" if "\<not> 16 \<le> length ip" using that "1.prems"(3) by presburger
  with run "1.prems"(2,3) "1.IH" [OF _ refl refl _ _ refl] show ?case
    by (auto simp: Let_def parseIPv4Fields_iff split: if_splits)
qed

lemma expand_ellipsis_length: "expand_ellipsis g = Some ip \<Longrightarrow> length (fst g) \<le> 16 \<Longrightarrow> length ip = 16"
  by (cases g; cases "snd g") (auto simp: expand_ellipsis_def split: if_splits)

lemma parseIPv6_length: "parseIPv6 s = Some ip \<Longrightarrow> length ip = 16"
  by (auto simp: parseIPv6_def Option.bind_eq_Some_conv split: if_splits
      dest!: ipv6_groups_length elim: expand_ellipsis_length)

lemma loopback_dotted: "IsLoopback (v4InV6Prefix @ [a, b, c, d]) \<longleftrightarrow> a = 127"
  by (simp add: IsLoopback_def v4InV6Prefix_def)

lemma loopback_texts:
  assumes "ParseIP h = Some ip" "IsLoopback ip"
  shows "loopback_text h"
proof -
  from assms(1) consider (v4) v where "parseIPv4Fields h = Some v" "ip = v4InV6Prefix @ v"
    | (v6) "CHR '':'' \<in> set h" "parseIPv6 h = Some ip"
    by (auto simp: ParseIP_def split: list.splits if_splits dest!: arg_cong [of _ _ set, THEN equalityD2]) (metis set_dropWhileD)
  then show ?thesis
  proof cases
    case v4
    then obtain a b c d where "v = [a, b, c, d]" "h = dotted_quad a b c d" "b \<le> 255" "c \<le> 255" "d \<le> 255"
      by (auto simp: parseIPv4Fields_iff)
    with v4 assms(2) show ?thesis by (auto simp: loopback_dotted loopback_text_def)
  next
    case v6
    show ?thesis
    proof (cases "take 12 ip = v4InV6Prefix")
      case True
      then have "ip = v4InV6Prefix @ drop 12 ip" by (metis append_take_drop_id)
      moreover have "drop 12 ip = 127 # drop 13 ip"
        using assms(2) True parseIPv6_length [OF v6(2)] by (simp add: IsLoopback_def Cons_nth_drop_Suc [symmetric])
      ultimately show ?thesis using v6 unfolding loopback_text_def by metis
    next
      case False
      with v6 assms(2) show ?thesis by (auto simp: loopback_text_def IsLoopback_def)
    qed
  qed
qed

end
