(* ===== verification/Introspection.thy ===== *)
theory Introspection
  imports Go_Client Token_Cache Validator Go_Net
begin

text \<open>
  introspection/introspection.go, cache.go, clientauth.go and errors.go: validation of opaque tokens at an
  RFC 7662 endpoint. The transport and the JSON text level are parameters, as is
  the reading of bracketed hosts in URLs (\<open>lit\<close>);
  the state of one validator is its cache, the network and the state of its client authenticator. The
  validator is an instance of the \<open>token_validator\<close> interface.
\<close>

section \<open>errors.go and clientauth.go\<close>

definition ErrIntrospectionUnavailable :: auth_error where
  "ErrIntrospectionUnavailable = AuthError ''introspection_unavailable''
     ''The token could not be validated: the introspection endpoint was unavailable.'' [] 503 None"

definition intro_Unavailable :: "goerr \<Rightarrow> goerr" where
  "intro_Unavailable cause = AuthErr (With ErrIntrospectionUnavailable cause)"

text \<open>A client authenticator may set headers and change the form.\<close>

type_synonym 'a intro_auth = "'a \<Rightarrow> out_request \<Rightarrow> form \<Rightarrow> (goerr + out_request \<times> form) \<times> 'a"

definition intro_BasicAuth :: "string \<Rightarrow> string \<Rightarrow> 'a intro_auth" where
  "intro_BasicAuth ClientID ClientSecret a q f = (Inr (SetBasicAuth ClientID ClientSecret q, f), a)"

definition FormPost :: "string \<Rightarrow> string \<Rightarrow> 'a intro_auth" where
  "FormPost ClientID ClientSecret a q f =
     (Inr (q, Values_Set (Values_Set f ''client_id'' ClientID) ''client_secret'' ClientSecret), a)"

section \<open>cache.go\<close>

definition copyClaims :: "claims \<Rightarrow> claims" where
  "copyClaims c = c\<lparr>Audience := [] @ Audience c, Scopes := [] @ Scopes c, Raw := (\<lambda>k. Raw c k)\<rparr>"

lemma copyClaims_id [simp]: "copyClaims c = c"
  by (simp add: copyClaims_def)

definition intro_NewMemoryCache :: "duration \<Rightarrow> claims ttl_cache" where
  "intro_NewMemoryCache leeway = \<lparr>tc_leeway = leeway, tc_items = []\<rparr>"

definition intro_Cache_Get :: "claims ttl_cache \<Rightarrow> time \<Rightarrow> string \<Rightarrow> claims option \<times> claims ttl_cache" where
  "intro_Cache_Get c now key =
     (case map_of (tc_items c) key of
        None \<Rightarrow> (None, c)
      | Some cl \<Rightarrow>
          (if \<not> (now < time_Add (ExpiresAt cl) (dur_neg (tc_leeway c)))
           then (None, c\<lparr>tc_items := AList.delete key (tc_items c)\<rparr>)
           else (Some (copyClaims cl), c)))"

definition intro_Cache_Set :: "claims ttl_cache \<Rightarrow> string \<Rightarrow> claims \<Rightarrow> claims ttl_cache" where
  "intro_Cache_Set c key cl = c\<lparr>tc_items := AList.update key (copyClaims cl) (tc_items c)\<rparr>"

lemma intro_Cache_ttl: "intro_Cache_Get = ttl_Get ExpiresAt" "intro_Cache_Set = ttl_Set"
  by (auto simp: fun_eq_iff intro_Cache_Get_def intro_Cache_Set_def ttl_Get_def ttl_Set_def ttl_fresh_def
      split: option.splits)

section \<open>introspection.go: construction\<close>

record ('c, 'a, 'n) intro_config =
  ic_IntrospectionURL :: string
  ic_ClientAuth :: "'a intro_auth option"
  ic_Issuer :: string
  ic_Audience :: string
  ic_TokenTypeHint :: string
  ic_Cache :: "(('c \<Rightarrow> time \<Rightarrow> string \<Rightarrow> claims option \<times> 'c) \<times> ('c \<Rightarrow> string \<Rightarrow> claims \<Rightarrow> 'c)) option"
  ic_HTTPClient :: "'n http_client option"
  ic_ClockSkew :: duration

record ('c, 'a, 'n) intro_validator =
  iv_url :: string
  iv_clientAuth :: "'a intro_auth"
  iv_issuer :: string
  iv_audience :: string
  iv_hint :: string
  iv_cache :: "(('c \<Rightarrow> time \<Rightarrow> string \<Rightarrow> claims option \<times> 'c) \<times> ('c \<Rightarrow> string \<Rightarrow> claims \<Rightarrow> 'c)) option"
  iv_httpClient :: "'n http_client"
  iv_clockSkew :: duration

definition isLoopbackHost :: "string \<Rightarrow> bool" where
  "isLoopbackHost host =
     (if host = ''localhost'' then True
      else (case ParseIP host of None \<Rightarrow> False | Some ip \<Rightarrow> IsLoopback ip))"

definition checkURL :: "(string \<Rightarrow> goerr + string) \<Rightarrow> string \<Rightarrow> goerr option" where
  "checkURL lit raw =
     (case Parse_URL lit raw of
        Inl err \<Rightarrow> Some (Errorf ''introspection: Config.IntrospectionURL is not a valid URL: %w'' [] (Some err))
      | Inr u \<Rightarrow>
          (if u_Scheme u = ''https'' then None
           else if u_Scheme u = ''http'' \<and> isLoopbackHost (Hostname u) then None
           else Some (ErrorString ''introspection: Config.IntrospectionURL must be https (loopback http is allowed)'')))"

text \<open>\<open>default_client\<close> is the client with a 30 s timeout.\<close>

definition intro_NewValidator :: "(string \<Rightarrow> goerr + string) \<Rightarrow> 'n http_client
    \<Rightarrow> ('c, 'a, 'n) intro_config \<Rightarrow> goerr + ('c, 'a, 'n) intro_validator" where
  "intro_NewValidator lit default_client cfg =
     (if ic_IntrospectionURL cfg = [] then Inl (ErrorString ''introspection: Config.IntrospectionURL is required'')
      else case ic_ClientAuth cfg of
        None \<Rightarrow> Inl (ErrorString ''introspection: Config.ClientAuth is required'')
      | Some ca \<Rightarrow>
     (if ic_Issuer cfg = [] then Inl (ErrorString ''introspection: Config.Issuer is required'')
      else if ic_Audience cfg = [] then Inl (ErrorString ''introspection: Config.Audience is required'')
      else case checkURL lit (ic_IntrospectionURL cfg) of
        Some err \<Rightarrow> Inl err
      | None \<Rightarrow>
          Inr \<lparr>iv_url = ic_IntrospectionURL cfg, iv_clientAuth = ca, iv_issuer = ic_Issuer cfg,
               iv_audience = ic_Audience cfg,
               iv_hint = (if ic_TokenTypeHint cfg = [] then ''access_token'' else ic_TokenTypeHint cfg),
               iv_cache = ic_Cache cfg,
               iv_httpClient = (case ic_HTTPClient cfg of None \<Rightarrow> default_client | Some h \<Rightarrow> h),
               iv_clockSkew = (if ic_ClockSkew cfg \<le> 0 then 30 * second else ic_ClockSkew cfg)\<rparr>))"

section \<open>introspection.go: the response\<close>

record introspectionResponse =
  ir_Active :: bool
  ir_Scope :: string
  ir_Sub :: string
  ir_Iss :: string
  ir_Aud :: "string list"
  ir_Exp :: int
  ir_Iat :: int
  ir_Email :: string
  ir_Jkt :: string

definition zero_response :: introspectionResponse where
  "zero_response = \<lparr>ir_Active = False, ir_Scope = [], ir_Sub = [], ir_Iss = [], ir_Aud = [], ir_Exp = 0, ir_Iat = 0,
     ir_Email = [], ir_Jkt = []\<rparr>"

text \<open>\<open>UnmarshalJSON\<close> of \<open>audience\<close>; a null element of the array decodes as the empty string.\<close>

fun dec_strings :: "json list \<Rightarrow> string list option" where
  "dec_strings [] = Some []"
| "dec_strings (j # js) =
     (case dec_string j [] of
        None \<Rightarrow> None
      | Some s \<Rightarrow> map_option (\<lambda>ss. s # ss) (dec_strings js))"

definition dec_audience :: "json \<Rightarrow> string list option" where
  "dec_audience v =
     (case v of JNull \<Rightarrow> Some [] | JArr js \<Rightarrow> dec_strings js | JStr s \<Rightarrow> Some [s] | _ \<Rightarrow> None)"

definition dec_cnf :: "json \<Rightarrow> string \<Rightarrow> string option" where
  "dec_cnf v cur = decode_struct (\<lambda>n v s. dec_string v s) [''jkt''] cur v"

definition response_members :: "string list" where
  "response_members = [''active'', ''scope'', ''sub'', ''iss'', ''aud'', ''exp'', ''iat'', ''email'', ''cnf'']"

definition set_response :: "string \<Rightarrow> json \<Rightarrow> introspectionResponse \<Rightarrow> introspectionResponse option" where
  "set_response n v r =
     (if n = ''active'' then map_option (\<lambda>x. r\<lparr>ir_Active := x\<rparr>) (dec_bool v (ir_Active r))
      else if n = ''scope'' then map_option (\<lambda>x. r\<lparr>ir_Scope := x\<rparr>) (dec_string v (ir_Scope r))
      else if n = ''sub'' then map_option (\<lambda>x. r\<lparr>ir_Sub := x\<rparr>) (dec_string v (ir_Sub r))
      else if n = ''iss'' then map_option (\<lambda>x. r\<lparr>ir_Iss := x\<rparr>) (dec_string v (ir_Iss r))
      else if n = ''aud'' then map_option (\<lambda>x. r\<lparr>ir_Aud := x\<rparr>) (dec_audience v)
      else if n = ''exp'' then map_option (\<lambda>x. r\<lparr>ir_Exp := x\<rparr>) (dec_int64 v (ir_Exp r))
      else if n = ''iat'' then map_option (\<lambda>x. r\<lparr>ir_Iat := x\<rparr>) (dec_int64 v (ir_Iat r))
      else if n = ''email'' then map_option (\<lambda>x. r\<lparr>ir_Email := x\<rparr>) (dec_string v (ir_Email r))
      else map_option (\<lambda>x. r\<lparr>ir_Jkt := x\<rparr>) (dec_cnf v (ir_Jkt r)))"

definition decode_response :: "json \<Rightarrow> introspectionResponse option" where
  "decode_response j = decode_struct set_response response_members zero_response j"

definition audienceContains :: "string list \<Rightarrow> string \<Rightarrow> bool" where
  "audienceContains auds want = list_ex (\<lambda>a. a = want) auds"

definition extractedKeys :: "string set" where
  "extractedKeys = {''active'', ''scope'', ''sub'', ''iss'', ''aud'', ''exp'', ''iat'', ''nbf'', ''email'', ''cnf'',
     ''token_type'', ''client_id'', ''username'', ''jti'', ''error'', ''error_description''}"

text \<open>The second pass over the body: the last member of each name, when a string (or null) and not extracted.\<close>

definition raw_member :: "json \<Rightarrow> string \<Rightarrow> string option" where
  "raw_member j k =
     (if k \<in> extractedKeys then None
      else (case j of
              JObj ms \<Rightarrow> (case map_of (rev ms) k of Some v \<Rightarrow> dec_string v [] | None \<Rightarrow> None)
            | _ \<Rightarrow> None))"

definition claimsFrom :: "introspectionResponse \<Rightarrow> json \<Rightarrow> claims" where
  "claimsFrom r body =
     \<lparr>Subject = ir_Sub r, Email = ir_Email r, Issuer = ir_Iss r, Audience = ir_Aud r,
      ExpiresAt = (if ir_Exp r > 0 then time_Unix (ir_Exp r) else 0),
      IssuedAt = (if ir_Iat r > 0 then time_Unix (ir_Iat r) else 0),
      Scopes = strings_Fields (ir_Scope r), Confirmation = ir_Jkt r, Raw = raw_member body\<rparr>"

section \<open>introspection.go: Validate\<close>

record ('c, 'a, 'n) intro_state =
  is_cache :: 'c
  is_auth :: 'a
  is_net :: 'n

abbreviation (input) maxBodyBytes :: nat where "maxBodyBytes \<equiv> 1048576"

definition intro_do :: "('c, 'a, 'n) intro_validator \<Rightarrow> form \<Rightarrow> 'a \<Rightarrow> 'n
    \<Rightarrow> (goerr + introspectionResponse \<times> json) \<times> 'a \<times> 'n" where
  "intro_do v form a net =
     (let hc = iv_httpClient v in
      case hc_BadURL hc (iv_url v) of
        Some err \<Rightarrow> (Inl (intro_Unavailable err), a, net)
      | None \<Rightarrow>
     (case iv_clientAuth v a (new_post (iv_url v) []) form of
        (Inl err, a') \<Rightarrow> (Inl (intro_Unavailable (Errorf ''client auth: %w'' [] (Some err))), a', net)
      | (Inr (req, form'), a') \<Rightarrow>
     (case hc_Do hc net (req\<lparr>oq_Body := Values_Encode form'\<rparr>) of
        (Inl err, net') \<Rightarrow> (Inl (intro_Unavailable err), a', net')
      | (Inr resp, net') \<Rightarrow>
     (case ReadAll_limit maxBodyBytes resp of
        Inl err \<Rightarrow> (Inl (intro_Unavailable (Errorf ''read introspection response: %w'' [] (Some err))), a', net')
      | Inr body \<Rightarrow>
          (if rp_Status resp \<noteq> 200
           then (Inl (intro_Unavailable (Errorf ''introspection endpoint returned %d'' [Itoa (rp_Status resp)] None)), a', net')
           else
             (case hc_Unmarshal hc body of
                Inl err \<Rightarrow> (Inl (intro_Unavailable (Errorf ''decode introspection response: %w'' [] (Some err))), a', net')
              | Inr j \<Rightarrow>
                  (case decode_response j of
                     None \<Rightarrow> (Inl (intro_Unavailable (Errorf ''decode introspection response: %w'' [] (Some (hc_TypeError hc j)))), a', net')
                   | Some ir \<Rightarrow> (Inr (ir, j), a', net'))))))))"

definition intro_cacheKey :: "(string \<Rightarrow> string) \<Rightarrow> string \<Rightarrow> string" where
  "intro_cacheKey sha bearer = RawURL_EncodeToString (sha bearer)"

definition token_form :: "('c, 'a, 'n) intro_validator \<Rightarrow> string \<Rightarrow> form" where
  "token_form v bearer = Values_Set [(''token'', [bearer])] ''token_type_hint'' (iv_hint v)"

text \<open>The checks on a decoded answer: the error, if any.\<close>

definition check_response :: "('c, 'a, 'n) intro_validator \<Rightarrow> introspectionResponse \<Rightarrow> time \<Rightarrow> goerr option" where
  "check_response v r now =
     (if \<not> ir_Active r then Some (AuthErr (With ErrInvalidToken (ErrorString ''token inactive'')))
      else if ir_Iss r \<noteq> iv_issuer v then Some (AuthErr (With ErrInvalidToken (ErrorString ''issuer mismatch'')))
      else if \<not> audienceContains (ir_Aud r) (iv_audience v)
      then Some (AuthErr (With ErrInvalidToken (ErrorString ''audience mismatch'')))
      else if ir_Exp r > 0 \<and> now > time_Add (time_Unix (ir_Exp r)) (iv_clockSkew v)
      then Some (AuthErr (With ErrExpiredToken (ErrorString ''token expired'')))
      else None)"

text \<open>One call; \<open>cnow\<close> and \<open>now\<close> are the cache's and the validator's clock readings.\<close>

definition intro_Validate :: "(string \<Rightarrow> string) \<Rightarrow> ('c, 'a, 'n) intro_validator \<Rightarrow> time \<Rightarrow> time
    \<Rightarrow> ('c, 'a, 'n) intro_state \<Rightarrow> go_context \<Rightarrow> string \<Rightarrow> (goerr + claims) \<times> ('c, 'a, 'n) intro_state" where
  "intro_Validate sha v cnow now s ctx bearer =
     (if bearer = [] then (Inl (AuthErr ErrMissingToken), s)
      else
      (let key = intro_cacheKey sha bearer in
       case (case iv_cache v of None \<Rightarrow> (None, is_cache s) | Some (get, put) \<Rightarrow> get (is_cache s) cnow key) of
         (Some cl, c') \<Rightarrow> (Inr cl, s\<lparr>is_cache := c'\<rparr>)
       | (None, c') \<Rightarrow>
      (case intro_do v (token_form v bearer) (is_auth s) (is_net s) of
         (Inl err, a', n') \<Rightarrow> (Inl err, \<lparr>is_cache = c', is_auth = a', is_net = n'\<rparr>)
       | (Inr (resp, body), a', n') \<Rightarrow>
      (case check_response v resp now of
         Some err \<Rightarrow> (Inl err, \<lparr>is_cache = c', is_auth = a', is_net = n'\<rparr>)
       | None \<Rightarrow>
           (let cl = claimsFrom resp body in
            (Inr cl, \<lparr>is_cache = (case iv_cache v of
                                    None \<Rightarrow> c'
                                  | Some (get, put) \<Rightarrow> if ir_Exp resp > 0 then put c' key cl else c'),
                      is_auth = a', is_net = n'\<rparr>))))))"

section \<open>What an acceptance means\<close>

text \<open>
  \<open>as_vouches v b c\<close>: at some moment the endpoint was asked about the token \<open>b\<close>, answered, the answer
  passed the checks, and \<open>c\<close> is what it says. A cached verdict is found by the digest of the token, so
  what an acceptance of \<open>b\<close> guarantees is that the endpoint vouched for a token with the digest of \<open>b\<close>.
\<close>

definition as_vouches :: "('c, 'a, 'n) intro_validator \<Rightarrow> string \<Rightarrow> claims \<Rightarrow> bool" where
  "as_vouches v b c \<longleftrightarrow>
     b \<noteq> [] \<and> (\<exists>a net a' net' resp body now. intro_do v (token_form v b) a net = (Inr (resp, body), a', net')
        \<and> check_response v resp now = None \<and> c = claimsFrom resp body)"

definition intro_vouched :: "(string \<Rightarrow> string) \<Rightarrow> ('c, 'a, 'n) intro_validator \<Rightarrow> string \<Rightarrow> claims \<Rightarrow> bool" where
  "intro_vouched sha v b c \<longleftrightarrow> (\<exists>b'. intro_cacheKey sha b' = intro_cacheKey sha b \<and> as_vouches v b' c)"

text \<open>The property every cached pair has, \<open>V\<close> saying which tokens and claims were vouched for.\<close>

definition cached_verdict :: "(string \<Rightarrow> string) \<Rightarrow> (string \<Rightarrow> claims \<Rightarrow> bool) \<Rightarrow> string \<Rightarrow> claims \<Rightarrow> bool" where
  "cached_verdict sha V k c \<longleftrightarrow>
     (\<exists>b. intro_cacheKey sha b = k \<and> V b c) \<and> (\<exists>e. 0 < e \<and> ExpiresAt c = time_Unix e)"

lemma check_response_None:
  "check_response v r now = None \<longleftrightarrow>
    ir_Active r \<and> ir_Iss r = iv_issuer v \<and> iv_audience v \<in> set (ir_Aud r)
    \<and> \<not> (ir_Exp r > 0 \<and> now > time_Add (time_Unix (ir_Exp r)) (iv_clockSkew v))"
  by (auto simp: check_response_def audienceContains_def list_ex_iff)

lemma as_vouchesI:
  "b \<noteq> [] \<Longrightarrow> intro_do v (token_form v b) a net = (Inr (resp, body), a', net') \<Longrightarrow>
   check_response v resp now = None \<Longrightarrow> as_vouches v b (claimsFrom resp body)"
  unfolding as_vouches_def by blast

lemma as_vouches_binds: "as_vouches v b c \<Longrightarrow> Issuer c = iv_issuer v \<and> iv_audience v \<in> set (Audience c)"
  by (auto simp: as_vouches_def check_response_None claimsFrom_def)

text \<open>Each call is one of four kinds.\<close>

lemma intro_Validate_cases:
  obtains (missing) "b = []" and "intro_Validate sha v cnow now s ctx b = (Inl (AuthErr ErrMissingToken), s)"
  | (hit) get put cl c' where "b \<noteq> []" and "iv_cache v = Some (get, put)"
      and "get (is_cache s) cnow (intro_cacheKey sha b) = (Some cl, c')"
      and "intro_Validate sha v cnow now s ctx b = (Inr cl, s\<lparr>is_cache := c'\<rparr>)"
  | (refused) err c' a' n' where "b \<noteq> []"
      and "c' = (case iv_cache v of None \<Rightarrow> is_cache s | Some (get, put) \<Rightarrow> snd (get (is_cache s) cnow (intro_cacheKey sha b)))"
      and "intro_Validate sha v cnow now s ctx b = (Inl err, \<lparr>is_cache = c', is_auth = a', is_net = n'\<rparr>)"
      and "snd (intro_do v (token_form v b) (is_auth s) (is_net s)) = (a', n')"
      and "fst (intro_do v (token_form v b) (is_auth s) (is_net s)) = Inl err \<or>
           (\<exists>resp body. fst (intro_do v (token_form v b) (is_auth s) (is_net s)) = Inr (resp, body)
              \<and> check_response v resp now = Some err)"
  | (vouched) resp body c' a' n' where "b \<noteq> []"
      and "c' = (case iv_cache v of None \<Rightarrow> is_cache s | Some (get, put) \<Rightarrow> snd (get (is_cache s) cnow (intro_cacheKey sha b)))"
      and "intro_do v (token_form v b) (is_auth s) (is_net s) = (Inr (resp, body), a', n')"
      and "check_response v resp now = None"
      and "intro_Validate sha v cnow now s ctx b = (Inr (claimsFrom resp body),
        \<lparr>is_cache = (case iv_cache v of None \<Rightarrow> c'
                      | Some (get, put) \<Rightarrow> if ir_Exp resp > 0 then put c' (intro_cacheKey sha b) (claimsFrom resp body) else c'),
         is_auth = a', is_net = n'\<rparr>)"
proof (cases "b = []")
  case True
  then show ?thesis using missing by (simp add: intro_Validate_def)
next
  case ne: False
  obtain r c' where g: "(case iv_cache v of None \<Rightarrow> (None, is_cache s) | Some (get, put) \<Rightarrow> get (is_cache s) cnow (intro_cacheKey sha b))
      = (r, c')" by fastforce
  obtain d a' n' where d: "intro_do v (token_form v b) (is_auth s) (is_net s) = (d, a', n')"
    by (metis prod.exhaust)
  have c': "c' = (case iv_cache v of None \<Rightarrow> is_cache s | Some (get, put) \<Rightarrow> snd (get (is_cache s) cnow (intro_cacheKey sha b)))"
    using g by (auto split: option.splits prod.splits)
  show ?thesis
  proof (cases r)
    case (Some cl)
    then show ?thesis using hit ne g by (auto simp: intro_Validate_def split: option.splits)
  next
    case None
    show ?thesis
    proof (cases d)
      case (Inl err)
      show ?thesis
        by (rule refused [OF ne c', of err a' n'])
          (use None Inl ne g d in \<open>simp_all add: intro_Validate_def\<close>)
    next
      case (Inr rb)
      obtain resp body where rb: "rb = (resp, body)" by fastforce
      show ?thesis
      proof (cases "check_response v resp now")
        case (Some err)
        show ?thesis
          by (rule refused [OF ne c', of err a' n'])
            (use None Inr rb Some ne g d in \<open>simp_all add: intro_Validate_def\<close>)
      next
        case None
        show ?thesis
          by (rule vouched [OF ne c', of resp body a' n'])
            (use \<open>r = None\<close> Inr rb None ne g d in \<open>simp_all add: intro_Validate_def Let_def\<close>)
      qed
    qed
  qed
qed

text \<open>The cache interface at the type of claims, as \<open>introspection.Cache\<close> declares it.\<close>

locale claims_cache = token_cache get put holds fresh
  for get :: "'c \<Rightarrow> time \<Rightarrow> string \<Rightarrow> claims option \<times> 'c"
    and put :: "'c \<Rightarrow> string \<Rightarrow> claims \<Rightarrow> 'c"
    and holds :: "'c \<Rightarrow> string \<Rightarrow> claims \<Rightarrow> bool"
    and fresh :: "'c \<Rightarrow> time \<Rightarrow> claims \<Rightarrow> bool"
begin

text \<open>
  With any cache that honours the contract, cached verdicts stay genuine and acceptances are vouched for;
  \<open>V\<close> is what was vouched for before the call and \<open>W\<close> what is vouched for after it.
\<close>

lemma introspection_step:
  assumes v: "iv_cache v = Some (get, put)"
    and inv: "all_held (cached_verdict sha V) (is_cache s)"
    and grow: "\<And>b c. V b c \<Longrightarrow> W b c"
    and new: "\<And>resp body a' n'. b \<noteq> [] \<Longrightarrow> intro_do v (token_form v b) (is_auth s) (is_net s) = (Inr (resp, body), a', n') \<Longrightarrow>
      is_net (snd (intro_Validate sha v cnow now s ctx b)) = n' \<Longrightarrow> check_response v resp now = None \<Longrightarrow> W b (claimsFrom resp body)"
  shows "(\<forall>c s'. intro_Validate sha v cnow now s ctx b = (Inr c, s') \<longrightarrow> (\<exists>b'. intro_cacheKey sha b' = intro_cacheKey sha b \<and> W b' c))
    \<and> all_held (cached_verdict sha W) (is_cache (snd (intro_Validate sha v cnow now s ctx b)))"
proof -
  have inv': "all_held (cached_verdict sha W) (is_cache s)"
    using all_held_mono [OF inv, of "cached_verdict sha W"] grow by (auto simp: cached_verdict_def)
  show ?thesis
  proof (cases rule: intro_Validate_cases [where b = b and sha = sha and v = v and cnow = cnow and now = now and s = s and ctx = ctx])
    case missing
    with inv' show ?thesis by simp
  next
    case (hit g p cl c')
    then have h: "get (is_cache s) cnow (intro_cacheKey sha b) = (Some cl, c')" using v by simp
    from all_held_answer [OF inv' h] have "\<exists>b'. intro_cacheKey sha b' = intro_cacheKey sha b \<and> W b' cl"
      by (simp add: cached_verdict_def)
    with hit all_held_get' [OF inv' h] show ?thesis by simp
  next
    case (refused err c' a' n')
    with inv' v all_held_get show ?thesis by simp
  next
    case (vouched resp body c' a' n')
    have W: "W b (claimsFrom resp body)" using new [OF vouched(1,3) _ vouched(4)] vouched(5) by simp
    then have "cached_verdict sha W (intro_cacheKey sha b) (claimsFrom resp body)" if "ir_Exp resp > 0"
      using that by (auto simp: cached_verdict_def claimsFrom_def)
    with W vouched v all_held_get [OF inv'] all_held_put show ?thesis by auto
  qed
qed

end

interpretation memory_cache: claims_cache intro_Cache_Get intro_Cache_Set ttl_holds "ttl_fresh ExpiresAt"
  unfolding intro_Cache_ttl by unfold_locales

text \<open>The configurations of the library's own caches, and the invariant of their state.\<close>

definition library_cache :: "(claims ttl_cache, 'a, 'n) intro_validator \<Rightarrow> bool" where
  "library_cache v \<longleftrightarrow> iv_cache v = None \<or> iv_cache v = Some (intro_Cache_Get, intro_Cache_Set)"

lemma introspection_library_step:
  assumes "library_cache v" and "memory_cache.all_held (cached_verdict sha V) (is_cache s)"
    and "\<And>b c. V b c \<Longrightarrow> W b c"
    and "\<And>resp body a' n'. b \<noteq> [] \<Longrightarrow> intro_do v (token_form v b) (is_auth s) (is_net s) = (Inr (resp, body), a', n') \<Longrightarrow>
      is_net (snd (intro_Validate sha v cnow now s ctx b)) = n' \<Longrightarrow> check_response v resp now = None \<Longrightarrow> W b (claimsFrom resp body)"
  shows "(\<forall>c s'. intro_Validate sha v cnow now s ctx b = (Inr c, s') \<longrightarrow> (\<exists>b'. intro_cacheKey sha b' = intro_cacheKey sha b \<and> W b' c))
    \<and> memory_cache.all_held (cached_verdict sha W) (is_cache (snd (intro_Validate sha v cnow now s ctx b)))"
proof (cases "iv_cache v")
  case None
  have "memory_cache.all_held (cached_verdict sha W) (is_cache s)"
    using memory_cache.all_held_mono [OF assms(2), of "cached_verdict sha W"] assms(3) by (auto simp: cached_verdict_def)
  moreover have "is_cache (snd (intro_Validate sha v cnow now s ctx b)) = is_cache s"
    by (cases rule: intro_Validate_cases [where b = b and sha = sha and v = v and cnow = cnow and now = now and s = s and ctx = ctx])
      (use None in auto)
  moreover have "\<exists>b'. intro_cacheKey sha b' = intro_cacheKey sha b \<and> W b' c"
    if "intro_Validate sha v cnow now s ctx b = (Inr c, s')" for c s'
    by (cases rule: intro_Validate_cases [where b = b and sha = sha and v = v and cnow = cnow and now = now and s = s and ctx = ctx])
      (use None that assms(4) in auto)
  ultimately show ?thesis by simp
next
  case (Some gp)
  with assms(1) have "iv_cache v = Some (intro_Cache_Get, intro_Cache_Set)" by (auto simp: library_cache_def)
  then show ?thesis by (rule memory_cache.introspection_step [where V = V]) (use assms(2-4) in auto)
qed

definition intro_inv :: "(string \<Rightarrow> string) \<Rightarrow> (claims ttl_cache, 'a, 'n) intro_validator
    \<Rightarrow> (claims ttl_cache, 'a, 'n) intro_state \<Rightarrow> bool" where
  "intro_inv sha v s \<longleftrightarrow> library_cache v \<and> memory_cache.all_held (cached_verdict sha (as_vouches v)) (is_cache s)"

lemma intro_inv_step:
  assumes "intro_inv sha v s"
  shows "(\<forall>c s'. intro_Validate sha v cnow now s ctx b = (Inr c, s') \<longrightarrow> intro_vouched sha v b c)
    \<and> intro_inv sha v (snd (intro_Validate sha v cnow now s ctx b))"
proof -
  from assms have l: "library_cache v" and h: "memory_cache.all_held (cached_verdict sha (as_vouches v)) (is_cache s)"
    by (simp_all add: intro_inv_def)
  have "(\<forall>c s'. intro_Validate sha v cnow now s ctx b = (Inr c, s') \<longrightarrow> (\<exists>b'. intro_cacheKey sha b' = intro_cacheKey sha b \<and> as_vouches v b' c))
    \<and> memory_cache.all_held (cached_verdict sha (as_vouches v)) (is_cache (snd (intro_Validate sha v cnow now s ctx b)))"
    by (rule introspection_library_step [where V = "as_vouches v", OF l h]) (auto intro: as_vouchesI)
  with l show ?thesis unfolding intro_inv_def intro_vouched_def by blast
qed

interpretation introspection: token_validator
  "intro_Validate sha v cnow now" "\<lambda>ctx. intro_vouched sha v" "intro_inv sha v" for sha v cnow now
proof unfold_locales
  show "fst (intro_Validate sha v cnow now s ctx []) = Inl (AuthErr ErrMissingToken)" for s ctx
    by (simp add: intro_Validate_def)
qed (use intro_inv_step in blast)+

lemma intro_inv_new:
  "library_cache v \<Longrightarrow> intro_inv sha v \<lparr>is_cache = intro_NewMemoryCache leeway, is_auth = a, is_net = n\<rparr>"
  by (simp add: intro_inv_def memory_cache.all_held_def ttl_holds_def intro_NewMemoryCache_def)

text \<open>A sequence of calls, each with its clock readings and bearer.\<close>

fun intro_calls :: "(string \<Rightarrow> string) \<Rightarrow> ('c, 'a, 'n) intro_validator \<Rightarrow> ('c, 'a, 'n) intro_state
    \<Rightarrow> (time \<times> time \<times> go_context \<times> string) list \<Rightarrow> ('c, 'a, 'n) intro_state" where
  "intro_calls sha v s [] = s"
| "intro_calls sha v s ((cnow, now, ctx, b) # cs) = intro_calls sha v (snd (intro_Validate sha v cnow now s ctx b)) cs"

lemma intro_calls_inv: "intro_inv sha v s \<Longrightarrow> intro_inv sha v (intro_calls sha v s cs)"
  by (induction sha v s cs rule: intro_calls.induct) (auto simp: intro_inv_step)

lemma intro_calls_leeway:
  assumes "library_cache v"
  shows "tc_leeway (is_cache (intro_calls sha v s cs)) = tc_leeway (is_cache s)"
proof -
  have "tc_leeway (is_cache (snd (intro_Validate sha v cnow now s ctx b))) = tc_leeway (is_cache s)" for cnow now s ctx b
    by (cases rule: intro_Validate_cases [where b = b and sha = sha and v = v and cnow = cnow and now = now and s = s and ctx = ctx])
      (use assms in \<open>auto simp: library_cache_def intro_Cache_ttl ttl_Get_def ttl_Set_def split: option.splits if_splits\<close>)
  then show ?thesis by (induction sha v s cs rule: intro_calls.induct) auto
qed

lemma intro_do_Inl:
  "fst (intro_do v f a n) = Inl err \<Longrightarrow> \<exists>cause. err = AuthErr (With ErrIntrospectionUnavailable cause)"
  by (auto simp: intro_do_def intro_Unavailable_def Let_def split: option.splits sum.splits prod.splits if_splits)

lemma intro_Validate_error:
  assumes "intro_Validate sha v cnow now s ctx b = (Inl err, s')"
  shows "\<exists>e. errors_As err = Some e
    \<and> (HTTPStatus e = 401 \<or> (HTTPStatus e = 503 \<and> Code e = ''introspection_unavailable''))"
proof (cases rule: intro_Validate_cases [where b = b and sha = sha and v = v and cnow = cnow and now = now and s = s and ctx = ctx])
  case missing
  with assms show ?thesis by (auto simp: ErrMissingToken_def)
next
  case (refused e c' a' n')
  then show ?thesis
    using assms intro_do_Inl [of v "token_form v b" "is_auth s" "is_net s" err]
    by (auto simp: check_response_def ErrIntrospectionUnavailable_def sentinel_defs split: if_splits)
qed (use assms in auto)

section \<open>What was vouched for, on the wire\<close>

text \<open>
  With a client that keeps what passed over the wire, an acceptance can be traced to one of its entries:
  \<open>asks v b q\<close> says that \<open>q\<close> is the request this validator makes about the token \<open>b\<close>, \<open>on_tape v tape b c\<close>
  that \<open>tape\<close> has such a request with a 200 response that says \<open>c\<close> and passed the checks.
\<close>

definition asks :: "('c, 'a, 'n) intro_validator \<Rightarrow> string \<Rightarrow> out_request \<Rightarrow> bool" where
  "asks v b q \<longleftrightarrow> (\<exists>a a' q0 f. iv_clientAuth v a (new_post (iv_url v) []) (token_form v b) = (Inr (q0, f), a')
     \<and> q = q0\<lparr>oq_Body := Values_Encode f\<rparr>)"

definition answers :: "('c, 'a, 'n) intro_validator \<Rightarrow> http_resp \<Rightarrow> introspectionResponse \<Rightarrow> json \<Rightarrow> bool" where
  "answers v rp ir j \<longleftrightarrow> rp_Status rp = 200
     \<and> (\<exists>text. ReadAll_limit maxBodyBytes rp = Inr text \<and> hc_Unmarshal (iv_httpClient v) text = Inr j \<and> decode_response j = Some ir)"

definition on_tape :: "('c, 'a, 'n) intro_validator \<Rightarrow> exchange_log \<Rightarrow> string \<Rightarrow> claims \<Rightarrow> bool" where
  "on_tape v tape b c \<longleftrightarrow>
     (\<exists>q rp ir j t. (q, Inr rp) \<in> set tape \<and> asks v b q \<and> answers v rp ir j \<and> check_response v ir t = None \<and> c = claimsFrom ir j)"

abbreviation tape :: "('c, 'a, 'n \<times> exchange_log) intro_state \<Rightarrow> exchange_log" where
  "tape s \<equiv> snd (is_net s)"

lemma on_tape_mono: "on_tape v U b c \<Longrightarrow> set U \<subseteq> set W \<Longrightarrow> on_tape v W b c"
  unfolding on_tape_def by blast

lemma on_tape_binds: "on_tape v U b c \<Longrightarrow> Issuer c = iv_issuer v \<and> iv_audience v \<in> set (Audience c)"
  by (auto simp: on_tape_def check_response_None claimsFrom_def)

lemma answers_unique: "answers v rp ir j \<Longrightarrow> answers v rp ir' j' \<Longrightarrow> ir' = ir \<and> j' = j"
  by (auto simp: answers_def)

text \<open>One call of the endpoint: at most one request, made about this token; a verdict is what a 200 response
  says, and everything else is reported as the endpoint being unavailable.\<close>

lemma intro_do_wire:
  assumes "iv_httpClient v = taping hc" and "intro_do v (token_form v b) a nt = (d, a', nt')"
  obtains (unasked) cause where "d = Inl (intro_Unavailable cause)" "snd nt' = snd nt"
  | (asked) q x where "snd nt' = snd nt @ [(q, x)]" "asks v b q"
      "case d of Inr (ir, j) \<Rightarrow> \<exists>rp. x = Inr rp \<and> answers v rp ir j
       | Inl err \<Rightarrow> (\<exists>cause. err = intro_Unavailable cause) \<and> (\<forall>rp ir j. x = Inr rp \<longrightarrow> \<not> answers v rp ir j)"
proof -
  note eq = assms(2) [unfolded intro_do_def assms(1) taping_sel Let_def]
  show ?thesis
  proof (cases "hc_BadURL hc (iv_url v)")
    case (Some e)
    with eq show ?thesis by (intro unasked) auto
  next
    case url: None
    obtain u a1 where u: "iv_clientAuth v a (new_post (iv_url v) []) (token_form v b) = (u, a1)" by fastforce
    show ?thesis
    proof (cases u)
      case (Inl e)
      with eq url u show ?thesis by (intro unasked) auto
    next
      case (Inr qf)
      obtain q0 f where q0: "qf = (q0, f)" by (cases qf)
      let ?q = "q0\<lparr>oq_Body := Values_Encode f\<rparr>"
      have a: "asks v b ?q" using u Inr q0 unfolding asks_def by blast
      show ?thesis
        by (rule asked [OF _ a, of "fst (hc_Do hc (fst nt) ?q)"])
          (use eq url u Inr q0 in \<open>auto simp: taping_Do answers_def assms(1) split: sum.splits if_splits option.splits\<close>)
    qed
  qed
qed

lemma intro_do_tape:
  assumes "iv_httpClient v = taping hc" and "intro_do v (token_form v b) a nt = (r, a', nt')"
  shows "\<exists>ex. snd nt' = snd nt @ ex \<and> length ex \<le> 1 \<and> (\<forall>(q, x) \<in> set ex. asks v b q)"
  using assms by (cases rule: intro_do_wire) auto

lemma intro_do_taped:
  assumes "iv_httpClient v = taping hc" and "intro_do v (token_form v b) a nt = (Inr (ir, j), a', nt')"
  shows "\<exists>q rp. (q, Inr rp) \<in> set (snd nt') \<and> asks v b q \<and> answers v rp ir j"
  using assms by (cases rule: intro_do_wire) (auto simp: intro_Unavailable_def)

lemma intro_Validate_wire:
  assumes "iv_httpClient v = taping hc"
  shows "\<exists>ex. tape (snd (intro_Validate sha v cnow now s ctx b)) = tape s @ ex \<and> length ex \<le> 1 \<and> (\<forall>(q, x) \<in> set ex. asks v b q)"
proof -
  obtain r a' n' where d: "intro_do v (token_form v b) (is_auth s) (is_net s) = (r, a', n')" using prod_cases3 by blast
  from intro_do_tape [OF assms d] show ?thesis
    by (cases rule: intro_Validate_cases [where b = b and sha = sha and v = v and cnow = cnow and now = now and s = s and ctx = ctx])
      (use d in auto)
qed

lemma intro_Validate_tape:
  assumes "iv_httpClient v = taping hc"
  shows "set (tape s) \<subseteq> set (tape (snd (intro_Validate sha v cnow now s ctx b)))"
  using intro_Validate_wire [OF assms, of sha cnow now s ctx b] by auto

lemma intro_calls_wire:
  assumes "iv_httpClient v = taping hc"
  shows "\<forall>(q, x) \<in> set (tape (intro_calls sha v s cs)). (q, x) \<in> set (tape s) \<or> (\<exists>b. asks v b q)"
proof (induction cs arbitrary: s)
  case (Cons c cs)
  obtain cnow now ctx b where c: "c = (cnow, now, ctx, b)" by (cases c)
  let ?s1 = "snd (intro_Validate sha v cnow now s ctx b)"
  obtain ex where "tape ?s1 = tape s @ ex" "\<forall>(q, x) \<in> set ex. asks v b q" using intro_Validate_wire [OF assms] by blast
  with Cons.IH [of ?s1] show ?case unfolding c by fastforce
qed auto

text \<open>The authenticators of the library leave the method and the URL of the request alone.\<close>

definition library_auth :: "'a intro_auth \<Rightarrow> bool" where
  "library_auth ca \<longleftrightarrow> (\<exists>i p. ca = intro_BasicAuth i p \<or> ca = FormPost i p)"

lemma asks_URL: "library_auth (iv_clientAuth v) \<Longrightarrow> asks v b q \<Longrightarrow> oq_URL q = iv_url v \<and> oq_Method q = ''POST''"
  by (auto simp: library_auth_def asks_def intro_BasicAuth_def FormPost_def SetBasicAuth_def new_post_def)

lemma check_response_classified:
  assumes "r = (case check_response v ir now of Some err \<Rightarrow> Inl err | None \<Rightarrow> Inr c)"
  shows "if \<not> ir_Active ir \<or> ir_Iss ir \<noteq> iv_issuer v \<or> iv_audience v \<notin> set (ir_Aud ir)
     then \<exists>cause. r = Inl (AuthErr (With ErrInvalidToken cause))
     else if ir_Exp ir > 0 \<and> now > time_Add (time_Unix (ir_Exp ir)) (iv_clockSkew v)
     then \<exists>cause. r = Inl (AuthErr (With ErrExpiredToken cause))
     else r = Inr c"
proof -
  have "\<exists>cause. (Inl (AuthErr (With e c0)) :: goerr + 'd) = Inl (AuthErr (With e cause))" for e c0 by blast
  then show ?thesis unfolding assms check_response_def audienceContains_def list_ex_iff by (simp only: split: if_split) simp
qed

text \<open>The cache does not answer a call about \<open>b\<close>.\<close>

definition cache_miss :: "(string \<Rightarrow> string) \<Rightarrow> ('c, 'a, 'n) intro_validator \<Rightarrow> time \<Rightarrow> ('c, 'a, 'n) intro_state \<Rightarrow> string \<Rightarrow> bool" where
  "cache_miss sha v cnow s b \<longleftrightarrow>
     (case iv_cache v of None \<Rightarrow> True | Some (get, put) \<Rightarrow> fst (get (is_cache s) cnow (intro_cacheKey sha b)) = None)"

definition tape_inv :: "(string \<Rightarrow> string) \<Rightarrow> (claims ttl_cache, 'a, 'n \<times> exchange_log) intro_validator
    \<Rightarrow> (claims ttl_cache, 'a, 'n \<times> exchange_log) intro_state \<Rightarrow> bool" where
  "tape_inv sha v s \<longleftrightarrow> memory_cache.all_held (cached_verdict sha (on_tape v (tape s))) (is_cache s)"

lemma tape_step:
  assumes "library_cache v" and "iv_httpClient v = taping hc" and "tape_inv sha v s"
    and call: "intro_Validate sha v cnow now s ctx b = (r, s')"
  shows "tape_inv sha v s'" and "r = Inr c \<Longrightarrow> \<exists>b'. intro_cacheKey sha b' = intro_cacheKey sha b \<and> on_tape v (tape s') b' c"
proof -
  have grow: "set (tape s) \<subseteq> set (tape s')" using intro_Validate_tape [OF assms(2), of s sha cnow now ctx b] call by simp
  have "(\<forall>c s''. intro_Validate sha v cnow now s ctx b = (Inr c, s'') \<longrightarrow> (\<exists>b'. intro_cacheKey sha b' = intro_cacheKey sha b \<and> on_tape v (tape s') b' c))
    \<and> memory_cache.all_held (cached_verdict sha (on_tape v (tape s'))) (is_cache (snd (intro_Validate sha v cnow now s ctx b)))"
  proof (rule introspection_library_step [where V = "on_tape v (tape s)", OF assms(1)])
    show "memory_cache.all_held (cached_verdict sha (on_tape v (tape s))) (is_cache s)" using assms(3) by (simp add: tape_inv_def)
    show "on_tape v (tape s) b c \<Longrightarrow> on_tape v (tape s') b c" for b c using on_tape_mono grow by blast
    show "on_tape v (tape s') b (claimsFrom resp body)"
      if new: "intro_do v (token_form v b) (is_auth s) (is_net s) = (Inr (resp, body), a', n')"
        "is_net (snd (intro_Validate sha v cnow now s ctx b)) = n'" "check_response v resp now = None" for resp body a' n'
    proof -
      obtain q rp where "(q, Inr rp) \<in> set (snd n')" "asks v b q" "answers v rp resp body"
        using intro_do_taped [OF assms(2) new(1)] by blast
      moreover have "n' = is_net s'" using new(2) call by simp
      ultimately show ?thesis using new(3) unfolding on_tape_def by blast
    qed
  qed
  then show "tape_inv sha v s'" and "r = Inr c \<Longrightarrow> \<exists>b'. intro_cacheKey sha b' = intro_cacheKey sha b \<and> on_tape v (tape s') b' c"
    using call by (auto simp: tape_inv_def)
qed

lemma tape_inv_new: "tape_inv sha v \<lparr>is_cache = intro_NewMemoryCache leeway, is_auth = a, is_net = nt\<rparr>"
  by (simp add: tape_inv_def memory_cache.all_held_def ttl_holds_def intro_NewMemoryCache_def)

lemma tape_inv_calls:
  assumes "library_cache v" and "iv_httpClient v = taping hc" and "tape_inv sha v s"
  shows "tape_inv sha v (intro_calls sha v s cs)"
  using assms
proof (induction sha v s cs rule: intro_calls.induct)
  case (2 sha v s cnow now ctx b cs)
  then show ?case using tape_step(1) [OF 2(2-4)] by (metis intro_calls.simps(2) prod.collapse)
qed simp

text \<open>Values for the parameters: an endpoint that answers every request with one status and document.\<close>

definition demo_client :: "int \<Rightarrow> json \<Rightarrow> unit http_client" where
  "demo_client status j = \<lparr>hc_BadURL = (\<lambda>u. None),
     hc_Do = (\<lambda>n q. (Inr \<lparr>rp_Status = status, rp_Header = [], rp_Body = [], rp_BodyErr = None\<rparr>, n)),
     hc_Unmarshal = (\<lambda>b. Inr j), hc_Decode = (\<lambda>b e. Inr j), hc_TypeError = (\<lambda>j. ErrorString ''type'')\<rparr>"

definition demo_answer :: json where
  "demo_answer = JObj [(''active'', JBool True), (''iss'', JStr ''iss''), (''aud'', JStr ''mcp''), (''sub'', JStr ''u''),
     (''exp'', JNum ''1700000000'')]"

definition demo_intro :: "'n http_client \<Rightarrow> (claims ttl_cache, unit, 'n) intro_validator" where
  "demo_intro hc = \<lparr>iv_url = ''https://as/introspect'', iv_clientAuth = intro_BasicAuth ''id'' ''secret'', iv_issuer = ''iss'',
     iv_audience = ''mcp'', iv_hint = ''access_token'', iv_cache = Some (intro_Cache_Get, intro_Cache_Set),
     iv_httpClient = hc, iv_clockSkew = 30 * second\<rparr>"

definition demo_intro_state :: "'n \<Rightarrow> (claims ttl_cache, unit, 'n) intro_state" where
  "demo_intro_state n = \<lparr>is_cache = intro_NewMemoryCache 0, is_auth = (), is_net = n\<rparr>"

definition demo_verdict :: introspectionResponse where
  "demo_verdict = zero_response\<lparr>ir_Active := True, ir_Iss := ''iss'', ir_Aud := [''mcp''], ir_Sub := ''u'', ir_Exp := 1700000000\<rparr>"

lemma demo_decode: "decode_response demo_answer = Some demo_verdict"
  by (simp add: decode_response_def demo_answer_def decode_struct_def response_members_def match_field_def
      set_response_def dec_bool_def dec_string_def dec_audience_def dec_int64_def parse_int64_def zero_response_def
      demo_verdict_def)

lemma demo_do: "intro_do (demo_intro (demo_client 200 demo_answer)) f () () = (Inr (demo_verdict, demo_answer), (), ())"
  by (simp add: intro_do_def demo_intro_def demo_client_def intro_BasicAuth_def ReadAll_limit_def demo_decode)

lemma demo_do_taped: "\<exists>nt'. intro_do (demo_intro (taping (demo_client 200 demo_answer))) f () nt = (Inr (demo_verdict, demo_answer), (), nt')"
  by (cases nt) (simp add: intro_do_def demo_intro_def demo_client_def intro_BasicAuth_def taping_def ReadAll_limit_def demo_decode)

lemma demo_intro_accepting:
  assumes "b \<noteq> []" and "\<And>f. \<exists>n'. intro_do (demo_intro hc) f () n = (Inr (demo_verdict, demo_answer), (), n')"
  shows "\<exists>s'. intro_Validate sha (demo_intro hc) t 0 (demo_intro_state n) ctx b = (Inr (claimsFrom demo_verdict demo_answer), s')"
proof -
  have "check_response (demo_intro hc) demo_verdict 0 = None"
    by (simp add: check_response_None demo_verdict_def zero_response_def demo_intro_def time_Unix_eq time_Add_def)
  moreover have "iv_cache (demo_intro hc) = Some (intro_Cache_Get, intro_Cache_Set)" by (simp add: demo_intro_def)
  moreover obtain n' where "intro_do (demo_intro hc) (token_form (demo_intro hc) b) () n = (Inr (demo_verdict, demo_answer), (), n')"
    using assms(2) by blast
  ultimately show ?thesis
    using assms(1) by (simp add: intro_Validate_def demo_intro_state_def intro_Cache_Get_def intro_NewMemoryCache_def Let_def)
qed

lemma demo_intro_accepts:
  "b \<noteq> [] \<Longrightarrow> \<exists>s'. intro_Validate sha (demo_intro (demo_client 200 demo_answer)) t 0 (demo_intro_state ()) ctx b =
     (Inr (claimsFrom demo_verdict demo_answer), s')"
  by (rule demo_intro_accepting) (simp_all add: demo_do)

lemma demo_intro_taped:
  "b \<noteq> [] \<Longrightarrow> \<exists>s'. intro_Validate sha (demo_intro (taping (demo_client 200 demo_answer))) t 0 (demo_intro_state nt) ctx b =
     (Inr (claimsFrom demo_verdict demo_answer), s')"
  using demo_do_taped by (blast intro: demo_intro_accepting)

section \<open>Properties\<close>

text \<open>C11: a validator with the library's own cache, or none, started empty and used in any way, accepts a
  token only if among the requests it has sent there is one about a token with the same digest, and the
  response to it was a 200 whose body (its first MiB) is a document that says active, the configured issuer
  and an audience list with the configured audience; the claims returned are exactly what that document
  says.\<close>

theorem introspection_accepts_only_vouched:
  assumes "library_cache v" and "iv_httpClient v = taping hc"
    and "s = intro_calls sha v \<lparr>is_cache = intro_NewMemoryCache leeway, is_auth = a, is_net = (n, [])\<rparr> cs"
    and "intro_Validate sha v cnow now s ctx b = (Inr c, s')"
  shows "b \<noteq> [] \<and> Issuer c = iv_issuer v \<and> iv_audience v \<in> set (Audience c)
    \<and> (\<exists>b' q rp ir j. RawURL_EncodeToString (sha b') = RawURL_EncodeToString (sha b)
        \<and> (q, Inr rp) \<in> set (tape s') \<and> asks v b' q \<and> answers v rp ir j \<and> ir_Active ir \<and> c = claimsFrom ir j)"
proof -
  have inv: "tape_inv sha v s" unfolding assms(3) using tape_inv_calls [OF assms(1,2) tape_inv_new] .
  have "b \<noteq> []" using introspection.accepted_nonempty [OF assms(4)] .
  moreover obtain b' where b': "intro_cacheKey sha b' = intro_cacheKey sha b" "on_tape v (tape s') b' c"
    using tape_step(2) [OF assms(1,2) inv assms(4) refl] by blast
  moreover from b'(2) obtain q rp ir j where "(q, Inr rp) \<in> set (tape s')" "asks v b' q" "answers v rp ir j" "ir_Active ir" "c = claimsFrom ir j"
    unfolding on_tape_def check_response_None by blast
  ultimately show ?thesis using on_tape_binds [OF b'(2)] unfolding intro_cacheKey_def by blast
qed

theorem introspection_accepts_only_vouched_witness:
  "\<exists>c s' q rp. intro_Validate (\<lambda>x. x) (demo_intro (taping (demo_client 200 demo_answer))) 0 0 (demo_intro_state ((), [])) [] ''tok'' = (Inr c, s')
     \<and> Issuer c = ''iss'' \<and> (q, Inr rp) \<in> set (tape s') \<and> rp_Status rp = 200"
proof -
  let ?v = "demo_intro (taping (demo_client 200 demo_answer))"
  obtain c s' where acc: "intro_Validate (\<lambda>x. x) ?v 0 0 (demo_intro_state ((), [])) [] ''tok'' = (Inr c, s')"
    using demo_intro_taped [of "''tok''"] by blast
  have st: "demo_intro_state ((), []) = intro_calls (\<lambda>x. x) ?v \<lparr>is_cache = intro_NewMemoryCache 0, is_auth = (), is_net = ((), [])\<rparr> []"
    by (simp add: demo_intro_state_def)
  have "library_cache ?v" "iv_httpClient ?v = taping (demo_client 200 demo_answer)" by (simp_all add: library_cache_def demo_intro_def)
  from introspection_accepts_only_vouched [OF this st acc] have "Issuer c = iv_issuer ?v" "\<exists>q rp. (q, Inr rp) \<in> set (tape s') \<and> rp_Status rp = 200"
    by (auto simp: answers_def)
  with acc show ?thesis by (auto simp: demo_intro_def)
qed

text \<open>C28: introspection fails secure, and every answer is classified. One call sends at most one request. Without
  a token it is the missing-token 401 and nothing is sent. When the cache does not answer: unless the
  request was answered by a 200 whose body decodes, the call is denied with ErrIntrospectionUnavailable
  (503), whatever went wrong (URL, client authentication, transport, reading, status, decoding); an answer
  that decodes never gives a 503: an inactive token, another issuer or a missing audience is
  ErrInvalidToken (401), a token past its expiry and the skew is ErrExpiredToken (401), and only the rest
  is accepted, with the claims of that answer.\<close>

theorem introspection_fails_secure:
  assumes "iv_httpClient v = taping hc" and "intro_Validate sha v cnow now s ctx b = (r, s')"
  shows "\<exists>ex. tape s' = tape s @ ex \<and> length ex \<le> 1
    \<and> (b = [] \<longrightarrow> ex = [] \<and> r = Inl (AuthErr ErrMissingToken))
    \<and> (b \<noteq> [] \<and> cache_miss sha v cnow s b \<longrightarrow>
        ((\<nexists>q rp ir j. ex = [(q, Inr rp)] \<and> answers v rp ir j) \<longrightarrow>
            (\<exists>cause. r = Inl (AuthErr (With ErrIntrospectionUnavailable cause))))
      \<and> (\<forall>q rp ir j. ex = [(q, Inr rp)] \<and> answers v rp ir j \<longrightarrow>
            (if \<not> ir_Active ir \<or> ir_Iss ir \<noteq> iv_issuer v \<or> iv_audience v \<notin> set (ir_Aud ir)
             then \<exists>cause. r = Inl (AuthErr (With ErrInvalidToken cause))
             else if ir_Exp ir > 0 \<and> now > time_Add (time_Unix (ir_Exp ir)) (iv_clockSkew v)
             then \<exists>cause. r = Inl (AuthErr (With ErrExpiredToken cause))
             else r = Inr (claimsFrom ir j))))
    \<and> HTTPStatus ErrIntrospectionUnavailable = 503 \<and> HTTPStatus ErrInvalidToken = 401
    \<and> HTTPStatus ErrExpiredToken = 401 \<and> HTTPStatus ErrMissingToken = 401"
proof -
  obtain d a' n' where d: "intro_do v (token_form v b) (is_auth s) (is_net s) = (d, a', n')" using prod_cases3 by blast
  have st: "HTTPStatus ErrIntrospectionUnavailable = 503 \<and> HTTPStatus ErrInvalidToken = 401
    \<and> HTTPStatus ErrExpiredToken = 401 \<and> HTTPStatus ErrMissingToken = 401"
    by (simp add: ErrIntrospectionUnavailable_def sentinel_defs)
  consider "b = []" | "\<not> cache_miss sha v cnow s b" | "b \<noteq> []" "cache_miss sha v cnow s b" by blast
  then show ?thesis
  proof cases
    case 1
    with assms(2) st show ?thesis by (auto simp: intro_Validate_def)
  next
    case 2
    obtain ex where "tape s' = tape s @ ex" "length ex \<le> 1" using intro_Validate_wire [OF assms(1), of sha cnow now s ctx b] assms(2) by auto
    moreover from 2 have "ex = [] \<and> r = Inl (AuthErr ErrMissingToken)" if "b = []"
      using that assms(2) calculation by (auto simp: intro_Validate_def)
    ultimately show ?thesis using 2 st by blast
  next
    case 3
    have r: "r = (case d of Inl err \<Rightarrow> Inl err
        | Inr (ir, j) \<Rightarrow> (case check_response v ir now of Some err \<Rightarrow> Inl err | None \<Rightarrow> Inr (claimsFrom ir j)))"
      and n: "is_net s' = n'"
      using assms(2) 3 d by (auto simp: intro_Validate_def cache_miss_def Let_def split: option.splits prod.splits sum.splits)
    from assms(1) d show ?thesis
    proof (cases rule: intro_do_wire)
      case (unasked cause)
      with 3 r n st show ?thesis by (intro exI [of _ "[]"]) (auto simp: intro_Unavailable_def)
    next
      case (asked q x)
      show ?thesis
      proof (cases d)
        case (Inl err)
        with asked 3 r n st show ?thesis by (intro exI [of _ "[(q, x)]"]) (auto simp: intro_Unavailable_def)
      next
        case (Inr irj)
        obtain ir j rp where x: "d = Inr (ir, j)" "x = Inr rp" "answers v rp ir j" using asked(3) Inr by (cases irj) auto
        note uniq = answers_unique [OF x(3)]
        have "r = (case check_response v ir now of Some err \<Rightarrow> Inl err | None \<Rightarrow> Inr (claimsFrom ir j))" using r x(1) by simp
        note cls = check_response_classified [OF this]
        show ?thesis
        proof (intro exI [of _ "[(q, x)]"] conjI impI allI, goal_cases)
          case (6 q' rp' ir' j')
          with uniq [of ir' j'] x(2) cls show ?case by simp
        qed (use asked(1) 3 n st x in auto)
      qed
    qed
  qed
qed

definition demo_inactive :: json where
  "demo_inactive = JObj [(''active'', JBool False)]"

lemma demo_inactive_decode: "decode_response demo_inactive = Some zero_response"
  by (simp add: decode_response_def demo_inactive_def decode_struct_def response_members_def match_field_def
      set_response_def dec_bool_def zero_response_def)

theorem introspection_fails_secure_witness:
  "(\<exists>cause s'. intro_Validate (\<lambda>x. x) (demo_intro (taping (demo_client 500 JNull))) 0 0
     (demo_intro_state ((), [])) [] ''tok'' = (Inl (AuthErr (With ErrIntrospectionUnavailable cause)), s') \<and> length (tape s') = 1)
   \<and> (\<exists>cause s'. intro_Validate (\<lambda>x. x) (demo_intro (taping (demo_client 200 demo_inactive))) 0 0
     (demo_intro_state ((), [])) [] ''tok'' = (Inl (AuthErr (With ErrInvalidToken cause)), s') \<and> length (tape s') = 1)"
proof -
  have hc: "iv_httpClient (demo_intro (taping hc)) = taping hc" for hc :: "unit http_client" by (simp add: demo_intro_def)
  have miss: "cache_miss (\<lambda>x. x) (demo_intro (taping hc)) 0 (demo_intro_state ((), [])) ''tok''" for hc :: "unit http_client"
    by (simp add: cache_miss_def demo_intro_def demo_intro_state_def intro_Cache_Get_def intro_NewMemoryCache_def)
  have sent: "\<exists>q. tape (snd (intro_Validate (\<lambda>x. x) (demo_intro (taping (demo_client st j))) 0 0 (demo_intro_state ((), [])) [] ''tok'')) =
      [(q, Inr \<lparr>rp_Status = st, rp_Header = [], rp_Body = [], rp_BodyErr = None\<rparr>)]" for st j
    by (simp add: intro_Validate_def intro_do_def demo_intro_def demo_client_def demo_intro_state_def intro_BasicAuth_def taping_def
        intro_Cache_Get_def intro_NewMemoryCache_def ReadAll_limit_def Let_def split: option.splits)
  have ans: "answers (demo_intro (taping (demo_client 200 demo_inactive))) \<lparr>rp_Status = 200, rp_Header = [], rp_Body = [], rp_BodyErr = None\<rparr>
      zero_response demo_inactive"
    by (simp add: answers_def demo_intro_def demo_client_def ReadAll_limit_def demo_inactive_decode)
  obtain r1 s1 where e1: "intro_Validate (\<lambda>x. x) (demo_intro (taping (demo_client 500 JNull))) 0 0 (demo_intro_state ((), [])) [] ''tok'' = (r1, s1)"
    by fastforce
  obtain r2 s2 where e2: "intro_Validate (\<lambda>x. x) (demo_intro (taping (demo_client 200 demo_inactive))) 0 0 (demo_intro_state ((), [])) [] ''tok'' = (r2, s2)"
    by fastforce
  obtain q1 where t1: "tape s1 = [(q1, Inr \<lparr>rp_Status = 500, rp_Header = [], rp_Body = [], rp_BodyErr = None\<rparr>)]" using sent [of 500 JNull] e1 by auto
  obtain q2 where t2: "tape s2 = [(q2, Inr \<lparr>rp_Status = 200, rp_Header = [], rp_Body = [], rp_BodyErr = None\<rparr>)]" using sent [of 200 demo_inactive] e2 by auto
  have "\<exists>cause. r1 = Inl (AuthErr (With ErrIntrospectionUnavailable cause))"
    using introspection_fails_secure [OF hc e1] miss [of "demo_client 500 JNull"] t1 by (auto simp: demo_intro_state_def answers_def)
  moreover have "\<exists>cause. r2 = Inl (AuthErr (With ErrInvalidToken cause))"
    using introspection_fails_secure [OF hc e2] miss [of "demo_client 200 demo_inactive"] t2 ans
    by (auto simp: demo_intro_state_def zero_response_def)
  ultimately show ?thesis using e1 e2 t1 t2 by auto
qed

text \<open>C29: an acceptance never outlives the token: when the endpoint stated an expiry, a token is accepted,
  from the endpoint or from the cache, at no time later than the expiry plus the clock skew.\<close>

theorem introspection_respects_expiry:
  assumes "library_cache v" and "0 \<le> leeway" and "in_int64 leeway" and "0 \<le> iv_clockSkew v" and "in_int64 (iv_clockSkew v)"
    and "s = intro_calls sha v \<lparr>is_cache = intro_NewMemoryCache leeway, is_auth = a, is_net = n\<rparr> cs"
    and "intro_Validate sha v t t s ctx b = (Inr c, s')" and "sane_time (ExpiresAt c)"
  shows "ExpiresAt c = 0 \<or> t \<le> ExpiresAt c + iv_clockSkew v"
proof (cases rule: intro_Validate_cases [where b = b and sha = sha and v = v and cnow = t and now = t and s = s and ctx = ctx])
  case (hit get put cl c')
  then have "cl = c" "get = ttl_Get ExpiresAt" using assms(1,7) by (auto simp: library_cache_def intro_Cache_ttl)
  with hit have "ttl_fresh ExpiresAt (is_cache s) t c" by (auto dest: ttl.get_sound)
  moreover have "tc_leeway (is_cache s) = leeway"
    using intro_calls_leeway [OF assms(1)] assms(6) by (simp add: intro_NewMemoryCache_def)
  moreover have "dur_neg leeway = - leeway" using assms(2,3) by (intro dur_neg_eq) auto
  moreover have "time_Add (ExpiresAt c) (- leeway) = ExpiresAt c - leeway"
    using sane_time_Add [OF assms(8), of "- leeway"] assms(2,3) by (simp add: in_int64_def)
  ultimately show ?thesis using assms(2,4) by (simp add: ttl_fresh_def)
next
  case (vouched resp body c' a' n')
  then have c: "c = claimsFrom resp body" using assms(7) by simp
  have "time_Add (ExpiresAt c) (iv_clockSkew v) = ExpiresAt c + iv_clockSkew v"
    using sane_time_Add [OF assms(8,5)] .
  with vouched(4) c show ?thesis by (auto simp: check_response_None claimsFrom_def not_less split: if_splits)
qed (use assms(7) in auto)

theorem introspection_respects_expiry_witness:
  "\<exists>c s'. intro_Validate (\<lambda>x. x) (demo_intro (demo_client 200 demo_answer)) 0 0 (demo_intro_state ()) [] ''tok'' = (Inr c, s')
     \<and> ExpiresAt c \<noteq> 0 \<and> 0 \<le> ExpiresAt c + 30 * second"
proof -
  let ?v = "demo_intro (demo_client 200 demo_answer)" and ?c = "claimsFrom demo_verdict demo_answer"
  obtain s' where acc: "intro_Validate (\<lambda>x. x) ?v 0 0 (demo_intro_state ()) [] ''tok'' = (Inr ?c, s')"
    using demo_intro_accepts [of "''tok''"] by blast
  have st: "demo_intro_state () = intro_calls (\<lambda>x. x) ?v \<lparr>is_cache = intro_NewMemoryCache 0, is_auth = (), is_net = ()\<rparr> []"
    by (simp add: demo_intro_state_def)
  have e: "ExpiresAt ?c = (1700000000 + unixToInternal) * second"
    by (simp add: claimsFrom_def demo_verdict_def zero_response_def time_Unix_eq)
  have "ExpiresAt ?c = 0 \<or> 0 \<le> ExpiresAt ?c + iv_clockSkew ?v"
    by (rule introspection_respects_expiry [OF _ _ _ _ _ st acc])
      (simp_all add: e library_cache_def demo_intro_def in_int64_def sane_time_def)
  with acc e show ?thesis by (auto simp: demo_intro_def)
qed

text \<open>C30: a validator that construction returns, with one of the library's client authenticators, sends every
  request of every call (the token and the credentials) to the configured URL and to no other, and that
  URL is https, or http on localhost or a loopback address (127.x.y.z, ::1, or a 127 address in IPv6 form),
  whatever the parser makes of bracketed hosts. It checks a non-empty issuer and a non-empty audience, so an
  answer without an issuer, or whose audience list is empty or has only empty entries, is refused.\<close>

theorem introspection_construction_safe:
  assumes "intro_NewValidator lit dc cfg = Inr v" and "library_auth (iv_clientAuth v)" and "iv_httpClient v = taping hc"
  shows "(\<exists>u. Parse_URL lit (ic_IntrospectionURL cfg) = Inr u \<and> (u_Scheme u = ''https''
            \<or> u_Scheme u = ''http'' \<and> (Hostname u = ''localhost'' \<or> loopback_text (Hostname u))))
    \<and> (\<forall>(q, x) \<in> set (tape (intro_calls sha v \<lparr>is_cache = c, is_auth = a, is_net = (n, [])\<rparr> cs)).
          oq_URL q = ic_IntrospectionURL cfg \<and> oq_Method q = ''POST'')
    \<and> iv_issuer v \<noteq> [] \<and> iv_audience v \<noteq> [] \<and> 0 < iv_clockSkew v \<and> iv_hint v \<noteq> []
    \<and> (ir_Iss r = [] \<or> set (ir_Aud r) \<subseteq> {[]} \<longrightarrow> check_response v r now \<noteq> None)"
proof -
  from assms(1) have url: "checkURL lit (ic_IntrospectionURL cfg) = None" "iv_url v = ic_IntrospectionURL cfg"
    and ne: "iv_issuer v \<noteq> []" "iv_audience v \<noteq> []" and d: "0 < iv_clockSkew v" "iv_hint v \<noteq> []"
    by (auto simp: intro_NewValidator_def split: if_splits option.splits)
  from url(1) have "\<exists>u. Parse_URL lit (ic_IntrospectionURL cfg) = Inr u \<and> (u_Scheme u = ''https''
      \<or> u_Scheme u = ''http'' \<and> (Hostname u = ''localhost'' \<or> loopback_text (Hostname u)))"
    by (auto simp: checkURL_def isLoopbackHost_def loopback_texts split: sum.splits option.splits if_splits)
  moreover have "\<forall>(q, x) \<in> set (tape (intro_calls sha v \<lparr>is_cache = c, is_auth = a, is_net = (n, [])\<rparr> cs)).
      oq_URL q = ic_IntrospectionURL cfg \<and> oq_Method q = ''POST''"
    using intro_calls_wire [OF assms(3), of sha "\<lparr>is_cache = c, is_auth = a, is_net = (n, [])\<rparr>" cs] asks_URL [OF assms(2)] url(2)
    by fastforce
  moreover have "ir_Iss r = [] \<or> set (ir_Aud r) \<subseteq> {[]} \<longrightarrow> check_response v r now \<noteq> None"
    using ne by (auto simp: check_response_None)
  ultimately show ?thesis using d ne by blast
qed

definition demo_intro_config :: "(claims ttl_cache, unit, unit \<times> exchange_log) intro_config" where
  "demo_intro_config = \<lparr>ic_IntrospectionURL = ''http://127.0.0.1:8080/i'', ic_ClientAuth = Some (FormPost ''id'' ''secret''),
     ic_Issuer = ''iss'', ic_Audience = ''mcp'', ic_TokenTypeHint = [], ic_Cache = None, ic_HTTPClient = None, ic_ClockSkew = 0\<rparr>"

theorem introspection_construction_safe_witness:
  "\<exists>v u q x. intro_NewValidator no_literals (taping (demo_client 200 JNull)) demo_intro_config = Inr v
     \<and> Parse_URL no_literals ''http://127.0.0.1:8080/i'' = Inr u \<and> loopback_text (Hostname u) \<and> 0 < iv_clockSkew v
     \<and> tape (intro_calls (\<lambda>x. x) v (demo_intro_state ((), [])) [(0, 0, [], ''tok'')]) = [(q, x)]
     \<and> oq_URL q = ''http://127.0.0.1:8080/i''"
proof -
  let ?raw = "''http://127.0.0.1:8080/i''" and ?hc = "demo_client 200 JNull"
  have c: "checkURL no_literals ?raw = None" and h: "map_sum id (\<lambda>u. (u_Scheme u, Hostname u)) (Parse_URL no_literals ?raw) = Inr (''http'', ''127.0.0.1'')"
    by code_simp+
  obtain v where v: "intro_NewValidator no_literals (taping ?hc) demo_intro_config = Inr v" "iv_url v = ?raw"
    "iv_clientAuth v = FormPost ''id'' ''secret''" "iv_httpClient v = taping ?hc" "iv_cache v = None"
    using c by (simp add: intro_NewValidator_def demo_intro_config_def)
  have lib: "library_auth (iv_clientAuth v)" unfolding v(3) library_auth_def by blast
  have sent: "\<exists>q x. tape (intro_calls (\<lambda>x. x) v (demo_intro_state ((), [])) [(0, 0, [], ''tok'')]) = [(q, x)]"
    by (simp add: intro_Validate_def intro_do_def v FormPost_def demo_intro_state_def taping_def demo_client_def ReadAll_limit_def Let_def
        split: option.splits)
  note safe = introspection_construction_safe [OF v(1) lib v(4), where sha = "\<lambda>x. x" and c = "intro_NewMemoryCache 0" and a = "()" and n = "()"
      and cs = "[(0, 0, [], ''tok'')]", folded demo_intro_state_def]
  have raw: "ic_IntrospectionURL demo_intro_config = ?raw" by (simp add: demo_intro_config_def)
  from safe obtain u where u: "Parse_URL no_literals ?raw = Inr u" "0 < iv_clockSkew v"
    "u_Scheme u = ''https'' \<or> u_Scheme u = ''http'' \<and> (Hostname u = ''localhost'' \<or> loopback_text (Hostname u))" unfolding raw by blast
  from u(1,3) h have "loopback_text (Hostname u)" by auto
  moreover obtain q x where "tape (intro_calls (\<lambda>x. x) v (demo_intro_state ((), [])) [(0, 0, [], ''tok'')]) = [(q, x)]" "oq_URL q = ?raw"
    using sent safe unfolding raw by fastforce
  ultimately show ?thesis using u v(1) by blast
qed

end
