(* ===== verification/Audit_Log.thy ===== *)
theory Audit_Log
  imports Errors Go_Time Go_Strings
begin

text \<open>
  audit/event.go, audit/sink.go and audit/otel/sink.go: the audit event with its three sensitivity
  tiers, the attribute lists a telemetry sink may emit, and the sinks. A sink is a function from an
  event to a change of the world it writes to. The locale \<open>audit_sink\<close> states which part of an event a
  sink can reveal.
\<close>

section \<open>Events\<close>

abbreviation ActionToolCall :: string where "ActionToolCall \<equiv> ''tool_call''"
abbreviation ActionTokenExchange :: string where "ActionTokenExchange \<equiv> ''token_exchange''"
abbreviation OutcomeGranted :: string where "OutcomeGranted \<equiv> ''granted''"
abbreviation OutcomeDenied :: string where "OutcomeDenied \<equiv> ''denied''"
abbreviation OutcomeError :: string where "OutcomeError \<equiv> ''error''"

type_synonym attr = "string \<times> string"

record event =
  ev_Action :: string
  ev_Outcome :: string
  ev_ReasonCode :: string
  ev_Tool :: string
  ev_Subject :: string
  ev_Issuer :: string
  ev_Audience :: string
  ev_Scopes :: "string list"
  ev_Email :: string
  ev_Time :: time

text \<open>The zero value of the Go struct, from which a composite literal starts.\<close>

definition zero_event :: event where
  "zero_event = \<lparr>ev_Action = [], ev_Outcome = [], ev_ReasonCode = [], ev_Tool = [], ev_Subject = [], ev_Issuer = [],
     ev_Audience = [], ev_Scopes = [], ev_Email = [], ev_Time = 0\<rparr>"

definition MetricLabels :: "event \<Rightarrow> attr list" where
  "MetricLabels e =
     [(''action'', ev_Action e), (''outcome'', ev_Outcome e)]
     @ (if ev_ReasonCode e \<noteq> [] then [(''reason_code'', ev_ReasonCode e)] else [])"

definition TraceAttributes :: "event \<Rightarrow> attr list" where
  "TraceAttributes e =
     MetricLabels e
     @ (if ev_Tool e \<noteq> [] then [(''tool'', ev_Tool e)] else [])
     @ (if ev_Subject e \<noteq> [] then [(''subject'', ev_Subject e)] else [])
     @ (if ev_Issuer e \<noteq> [] then [(''issuer'', ev_Issuer e)] else [])
     @ (if ev_Audience e \<noteq> [] then [(''audience'', ev_Audience e)] else [])
     @ (if length (ev_Scopes e) > 0 then [(''scopes'', strings_Join (ev_Scopes e) '' '')] else [])"

section \<open>Sinks\<close>

type_synonym 'w sink = "event \<Rightarrow> 'w \<Rightarrow> 'w"

datatype slog_val = SlogString string | SlogStrings "string list" | SlogTime time

type_synonym slog_record = "string \<times> (string \<times> slog_val) list"

definition slog_Record :: "slog_record list sink" where
  "slog_Record e recs = recs @ [(''audit'',
     [(''action'', SlogString (ev_Action e)), (''outcome'', SlogString (ev_Outcome e)),
      (''reason_code'', SlogString (ev_ReasonCode e)), (''tool'', SlogString (ev_Tool e)),
      (''subject'', SlogString (ev_Subject e)), (''issuer'', SlogString (ev_Issuer e)),
      (''audience'', SlogString (ev_Audience e)), (''scopes'', SlogStrings (ev_Scopes e)),
      (''email'', SlogString (ev_Email e)), (''time'', SlogTime (ev_Time e))])]"

text \<open>\<open>NewSlogSink\<close> panics on a nil logger; the left summand is the panic value.\<close>

definition NewSlogSink :: "bool \<Rightarrow> string + slog_record list sink" where
  "NewSlogSink logger_is_nil =
     (if logger_is_nil then Inl ''audit: NewSlogSink requires a non-nil logger'' else Inr slog_Record)"

definition nop_Record :: "'w sink" where
  "nop_Record e w = w"

fun non_nil :: "'a option list \<Rightarrow> 'a list" where
  "non_nil [] = []"
| "non_nil (None # xs) = non_nil xs"
| "non_nil (Some x # xs) = x # non_nil xs"

fun multi_Record :: "'w sink list \<Rightarrow> 'w sink" where
  "multi_Record [] e w = w"
| "multi_Record (s # ss) e w = multi_Record ss e (s e w)"

definition NewMultiSink :: "'w sink option list \<Rightarrow> 'w sink" where
  "NewMultiSink sinks = multi_Record (non_nil sinks)"

text \<open>
  The OpenTelemetry API as a parameter: a meter provider gives, for an instrumentation scope, the
  counters (handles of type \<open>'k\<close>) or an error; the rest is adding 1 to a counter with a label set, whether
  a recording span is active, and adding an event to it.
\<close>

type_synonym 'k meter_provider = "string \<Rightarrow> string \<Rightarrow> goerr + 'k"

record ('k, 'w) otel_api =
  otel_Add :: "'k \<Rightarrow> attr list \<Rightarrow> 'w \<Rightarrow> 'w"
  otel_IsRecording :: bool
  otel_AddEvent :: "string \<Rightarrow> attr list \<Rightarrow> 'w \<Rightarrow> 'w"

record 'k otel =
  otel_toolCalls :: 'k
  otel_exchanges :: 'k

abbreviation (input) scopeName :: string where "scopeName \<equiv> ''github.com/polyglotdev/mcp-auth-go/audit/otel''"

text \<open>\<open>NewSink\<close>: the configured meter provider, or the global one.\<close>

definition NewSink :: "'k meter_provider \<Rightarrow> 'k meter_provider option \<Rightarrow> goerr + 'k otel" where
  "NewSink global_provider provider =
     (let mp = (case provider of None \<Rightarrow> global_provider | Some m \<Rightarrow> m); meter = mp scopeName in
      case meter ''mcp.tool.calls'' of
        Inl err \<Rightarrow> Inl err
      | Inr toolCalls \<Rightarrow>
          (case meter ''mcp.broker.exchanges'' of
             Inl err \<Rightarrow> Inl err
           | Inr exchanges \<Rightarrow> Inr \<lparr>otel_toolCalls = toolCalls, otel_exchanges = exchanges\<rparr>))"

definition toKV :: "attr list \<Rightarrow> attr list" where
  "toKV attrs = map (\<lambda>i. (fst (attrs ! i), snd (attrs ! i))) [0..<length attrs]"

definition otel_Record :: "('k, 'w) otel_api \<Rightarrow> 'k otel \<Rightarrow> 'w sink" where
  "otel_Record api s e w =
     (let counter = (if ev_Action e = ActionToolCall then otel_toolCalls s else otel_exchanges s);
          w1 = otel_Add api counter (toKV (MetricLabels e)) w
      in if otel_IsRecording api then otel_AddEvent api (''mcp.'' @ ev_Action e) (toKV (TraceAttributes e)) w1
         else w1)"

section \<open>What a sink reveals\<close>

text \<open>\<open>view e\<close> is the part of the event the sink may depend on.\<close>

locale audit_sink =
  fixes record_event :: "'w sink"
    and view :: "event \<Rightarrow> 'v"
  assumes only_view: "view e = view e' \<Longrightarrow> record_event e w = record_event e' w"
begin

lemma record_all_only_view:
  "map view es = map view es' \<Longrightarrow> fold record_event es w = fold record_event es' w"
proof (induction es arbitrary: es' w)
  case (Cons e es)
  then obtain e' es'' where es': "es' = e' # es''" "view e = view e'" "map view es = map view es''"
    by (cases es') auto
  with only_view [OF es'(2)] Cons.IH [OF es'(3)] show ?case by simp
qed simp

end

text \<open>The event without its third tier and without the decision time.\<close>

definition telemetry_view :: "event \<Rightarrow> event" where
  "telemetry_view e = e\<lparr>ev_Email := [], ev_Time := 0\<rparr>"

lemma toKV_id [simp]: "toKV attrs = attrs"
  by (simp add: toKV_def map_nth)

lemma attributes_telemetry_view [simp]:
  "MetricLabels (telemetry_view e) = MetricLabels e"
  "TraceAttributes (telemetry_view e) = TraceAttributes e"
  "ev_Action (telemetry_view e) = ev_Action e"
  by (simp_all add: MetricLabels_def TraceAttributes_def telemetry_view_def)

lemma otel_Record_view: "otel_Record api s (telemetry_view e) w = otel_Record api s e w"
  by (simp add: otel_Record_def Let_def)

interpretation slog_sink: audit_sink slog_Record "\<lambda>e. e"
  by unfold_locales simp

interpretation nop_sink: audit_sink nop_Record "\<lambda>e. ()"
  by unfold_locales (simp add: nop_Record_def)

interpretation otel_sink: audit_sink "otel_Record api s" telemetry_view for api s
  by unfold_locales (metis otel_Record_view)

lemma multi_Record_fold: "multi_Record ss e w = fold (\<lambda>s. s e) ss w"
  by (induction ss arbitrary: w) auto

lemma non_nil_eq: "non_nil xs = map the (filter (\<lambda>x. x \<noteq> None) xs)"
  by (induction xs rule: non_nil.induct) auto

section \<open>Properties\<close>

text \<open>The metric labels of an event depend on its first tier only (action, outcome, reason code):
  two events that agree there have the same labels, whatever tool, subject, scopes or email they carry,
  and the label keys are a fixed set of at most three.\<close>

theorem MetricLabels_tier1_only:
  "MetricLabels e = MetricLabels (e\<lparr>ev_Tool := a, ev_Subject := b, ev_Issuer := c, ev_Audience := d, ev_Scopes := f,
     ev_Email := g, ev_Time := t\<rparr>)
   \<and> set (map fst (MetricLabels e)) \<subseteq> {''action'', ''outcome'', ''reason_code''}
   \<and> length (MetricLabels e) \<le> 3"
  by (auto simp: MetricLabels_def)

text \<open>The OpenTelemetry sink never reveals the email of a caller: recording any sequence of events
  has the same effect as recording the events with every email erased.\<close>

theorem otel_sink_hides_email:
  "fold (otel_Record api s) es w = fold (otel_Record api s) (map (\<lambda>e. e\<lparr>ev_Email := []\<rparr>) es) w
   \<and> (\<forall>e. ''email'' \<notin> set (map fst (TraceAttributes e)))"
proof
  have "map telemetry_view es = map telemetry_view (map (\<lambda>e. e\<lparr>ev_Email := []\<rparr>) es)"
    by (simp add: telemetry_view_def)
  then show "fold (otel_Record api s) es w = fold (otel_Record api s) (map (\<lambda>e. e\<lparr>ev_Email := []\<rparr>) es) w"
    by (rule otel_sink.record_all_only_view)
  show "\<forall>e. ''email'' \<notin> set (map fst (TraceAttributes e))"
    by (auto simp: TraceAttributes_def MetricLabels_def split: if_splits)
qed

text \<open>A multi-sink hands the event to every non-nil sink, in the order given, each seeing the world
  the previous ones left.\<close>

theorem multi_sink_delivers_in_order:
  "NewMultiSink sinks e w = fold (\<lambda>s. s e) (map the (filter (\<lambda>s. s \<noteq> None) sinks)) w"
  by (simp add: NewMultiSink_def multi_Record_fold non_nil_eq)

end
