(* ===== verification/Exchange.thy ===== *)
theory Exchange
  imports Go_Client Token_Cache Audit_Log
begin

text \<open>
  exchange/*.go: RFC 8693 token exchange for a downstream service. The transport, the JSON text level and
  the client authenticator's state are threaded explicitly; the clock readings of a call are the record
  \<open>x_clock\<close>. The retry loop of \<open>do\<close> is a recursion on the attempts left.
\<close>

section \<open>token.go, request.go and errors.go\<close>

record token =
  tk_AccessToken :: string
  tk_IssuedTokenType :: string
  tk_TokenType :: string
  tk_ExpiresAt :: time
  tk_Scopes :: "string list"

record xrequest =
  xr_SubjectToken :: string
  xr_Subject :: string
  xr_Audience :: string
  xr_Resource :: string
  xr_Scope :: "string list"
  xr_ActorToken :: string
  xr_SubjectTokenType :: string
  xr_RequestedTokenType :: string

definition ErrExchangeRejected :: auth_error where
  "ErrExchangeRejected = AuthError ''exchange_rejected''
     ''The authorization server rejected the token exchange.'' [] 502 None"

definition ErrExchangeUnavailable :: auth_error where
  "ErrExchangeUnavailable = AuthError ''exchange_unavailable''
     ''The authorization server could not be reached for token exchange.'' [] 502 None"

text \<open>The description the authorization server sends is dropped.\<close>

definition Rejected :: "string \<Rightarrow> string \<Rightarrow> goerr" where
  "Rejected asError description =
     AuthErr (AuthError (Code ErrExchangeRejected)
       (''token exchange rejected by the authorization server: '' @ asError)
       (DocURL ErrExchangeRejected) (HTTPStatus ErrExchangeRejected) (Cause ErrExchangeRejected))"

definition x_Unavailable :: "goerr \<Rightarrow> goerr" where
  "x_Unavailable cause = AuthErr (With ErrExchangeUnavailable cause)"

section \<open>cache.go\<close>

definition x_NewMemoryCache :: "duration \<Rightarrow> token ttl_cache" where
  "x_NewMemoryCache leeway = \<lparr>tc_leeway = leeway, tc_items = []\<rparr>"

definition x_Cache_Get :: "token ttl_cache \<Rightarrow> time \<Rightarrow> string \<Rightarrow> token option \<times> token ttl_cache" where
  "x_Cache_Get c now key =
     (case map_of (tc_items c) key of
        None \<Rightarrow> (None, c)
      | Some tok \<Rightarrow>
          (if \<not> (now < time_Add (tk_ExpiresAt tok) (dur_neg (tc_leeway c)))
           then (None, c\<lparr>tc_items := AList.delete key (tc_items c)\<rparr>)
           else (Some (tok\<lparr>tk_Scopes := [] @ tk_Scopes tok\<rparr>), c)))"

definition x_Cache_Set :: "token ttl_cache \<Rightarrow> string \<Rightarrow> token \<Rightarrow> token ttl_cache" where
  "x_Cache_Set c key tok = c\<lparr>tc_items := AList.update key tok (tc_items c)\<rparr>"

definition nop_Cache_Get :: "'c \<Rightarrow> time \<Rightarrow> string \<Rightarrow> token option \<times> 'c" where
  "nop_Cache_Get c now key = (None, c)"

definition nop_Cache_Set :: "'c \<Rightarrow> string \<Rightarrow> token \<Rightarrow> 'c" where
  "nop_Cache_Set c key tok = c"

lemma x_Cache_ttl: "x_Cache_Get = ttl_Get tk_ExpiresAt" "x_Cache_Set = ttl_Set"
  by (auto simp: fun_eq_iff x_Cache_Get_def x_Cache_Set_def ttl_Get_def ttl_Set_def ttl_fresh_def
      split: option.splits)

text \<open>The cache interface of this package.\<close>

locale exchange_cache = token_cache get put holds fresh
  for get :: "'c \<Rightarrow> time \<Rightarrow> string \<Rightarrow> token option \<times> 'c"
    and put :: "'c \<Rightarrow> string \<Rightarrow> token \<Rightarrow> 'c"
    and holds :: "'c \<Rightarrow> string \<Rightarrow> token \<Rightarrow> bool"
    and fresh :: "'c \<Rightarrow> time \<Rightarrow> token \<Rightarrow> bool"

interpretation x_memory: exchange_cache x_Cache_Get x_Cache_Set ttl_holds "ttl_fresh tk_ExpiresAt"
  unfolding x_Cache_ttl by unfold_locales

interpretation x_nop: exchange_cache nop_Cache_Get nop_Cache_Set "\<lambda>c k t. False" "\<lambda>c now t. False"
  by unfold_locales (simp_all add: nop_Cache_Get_def)

section \<open>clientauth.go and dpop.go\<close>

text \<open>An authenticator decorates a request, given the form and the nonce; it may keep state.\<close>

type_synonym 'a x_auth = "'a \<Rightarrow> out_request \<Rightarrow> form \<Rightarrow> string \<Rightarrow> (goerr + out_request \<times> form) \<times> 'a"

definition x_BasicAuth :: "string \<Rightarrow> string \<Rightarrow> 'a x_auth" where
  "x_BasicAuth ClientID ClientSecret a q f nonce = (Inr (SetBasicAuth ClientID ClientSecret q, f), a)"

text \<open>
  The signing side of DPoP. Key generation, the jwk and jws functions, JSON marshalling and the text of
  a parsed URL are parameters; \<open>dl_draw\<close> yields the random bytes (\<open>Inl\<close> the error of the random source) and
  the clock reading of one proof.
\<close>

record ('raw, 'sk, 'pk, 'a) dpop_lib =
  dl_GenerateKey :: "'a \<Rightarrow> (goerr + 'raw) \<times> 'a"
  dl_FromRaw :: "'raw \<Rightarrow> goerr + 'sk"
  dl_SetAlgorithm :: "'sk \<Rightarrow> string \<Rightarrow> goerr + 'sk"
  dl_PublicKey :: "'sk \<Rightarrow> goerr + 'pk"
  dl_Marshal :: "json \<Rightarrow> goerr + string"
  dl_Sign :: "string \<Rightarrow> 'sk \<Rightarrow> 'pk jws_header \<Rightarrow> goerr + string"
  dl_draw :: "'a \<Rightarrow> ((goerr + string) \<times> time) \<times> 'a"
  dl_URLString :: "string \<Rightarrow> string"

record ('sk, 'a) dpop_signer =
  dp_base :: "'a x_auth option"
  dp_key :: 'sk

definition NewDPoP :: "('raw, 'sk, 'pk, 'a) dpop_lib \<Rightarrow> 'a x_auth option \<Rightarrow> 'a \<Rightarrow> (goerr + ('sk, 'a) dpop_signer) \<times> 'a" where
  "NewDPoP lib base a =
     (case dl_GenerateKey lib a of
        (Inl err, a') \<Rightarrow> (Inl err, a')
      | (Inr raw, a') \<Rightarrow>
          (case dl_FromRaw lib raw of
             Inl err \<Rightarrow> (Inl err, a')
           | Inr key \<Rightarrow>
               (case dl_SetAlgorithm lib key ''ES256'' of
                  Inl err \<Rightarrow> (Inl err, a')
                | Inr key' \<Rightarrow> (Inr \<lparr>dp_base = base, dp_key = key'\<rparr>, a'))))"

text \<open>The members of a map are marshalled in the order of their names.\<close>

definition proof_members :: "string \<Rightarrow> string \<Rightarrow> string \<Rightarrow> string \<Rightarrow> time \<Rightarrow> json" where
  "proof_members htm htu nonce jti t =
     JObj ([(''htm'', JStr htm), (''htu'', JStr htu), (''iat'', JNum (Itoa (time_toUnix t))), (''jti'', JStr (hex_EncodeToString jti))]
           @ (if nonce \<noteq> [] then [(''nonce'', JStr nonce)] else []))"

definition dpop_proof :: "('raw, 'sk, 'pk, 'a) dpop_lib \<Rightarrow> ('sk, 'a) dpop_signer \<Rightarrow> 'a \<Rightarrow> string \<Rightarrow> string \<Rightarrow> string
    \<Rightarrow> (goerr + string) \<times> 'a" where
  "dpop_proof lib d a htm htu nonce =
     (case dl_PublicKey lib (dp_key d) of
        Inl err \<Rightarrow> (Inl err, a)
      | Inr pub \<Rightarrow>
     (case dl_draw lib a of
        ((Inl err, t), a') \<Rightarrow> (Inl err, a')
      | ((Inr jti, t), a') \<Rightarrow>
     (case dl_Marshal lib (proof_members htm htu nonce jti t) of
        Inl err \<Rightarrow> (Inl err, a')
      | Inr payload \<Rightarrow>
          (dl_Sign lib payload (dp_key d) \<lparr>jh_Type = ''dpop+jwt'', jh_Algorithm = ''ES256'', jh_JWK = Some pub\<rparr>, a'))))"

definition dpop_Apply :: "('raw, 'sk, 'pk, 'a) dpop_lib \<Rightarrow> ('sk, 'a) dpop_signer \<Rightarrow> 'a x_auth" where
  "dpop_Apply lib d a q f nonce =
     (case (case dp_base d of None \<Rightarrow> (Inr (q, f), a) | Some base \<Rightarrow> base a q f nonce) of
        (Inl err, a') \<Rightarrow> (Inl err, a')
      | (Inr (q', f'), a') \<Rightarrow>
          (case dpop_proof lib d a' (oq_Method q') (dl_URLString lib (oq_URL q')) nonce of
             (Inl err, a'') \<Rightarrow> (Inl err, a'')
           | (Inr pf, a'') \<Rightarrow> (Inr (q'\<lparr>oq_Header := Header_Set (oq_Header q') ''DPoP'' pf\<rparr>, f'), a'')))"

section \<open>exchanger.go\<close>

abbreviation grantTypeTokenExchange :: string where
  "grantTypeTokenExchange \<equiv> ''urn:ietf:params:oauth:grant-type:token-exchange''"
abbreviation tokenTypeAccessToken :: string where
  "tokenTypeAccessToken \<equiv> ''urn:ietf:params:oauth:token-type:access_token''"
abbreviation GrantTypeJWTBearer :: string where
  "GrantTypeJWTBearer \<equiv> ''urn:ietf:params:oauth:grant-type:jwt-bearer''"
abbreviation TokenTypeIDJAG :: string where
  "TokenTypeIDJAG \<equiv> ''urn:ietf:params:oauth:token-type:id-jag''"
abbreviation TokenTypeIDToken :: string where
  "TokenTypeIDToken \<equiv> ''urn:ietf:params:oauth:token-type:id_token''"

record ('c, 'a, 'n, 'w) exchanger =
  x_tokenURL :: string
  x_clientAuth :: "'a x_auth"
  x_get :: "'c \<Rightarrow> time \<Rightarrow> string \<Rightarrow> token option \<times> 'c"
  x_put :: "'c \<Rightarrow> string \<Rightarrow> token \<Rightarrow> 'c"
  x_httpClient :: "'n http_client"
  x_audit :: "'w sink option"

record ('c, 'a, 'n, 'w) x_config =
  xc_TokenURL :: string
  xc_ClientAuth :: "'a x_auth option"
  xc_Cache :: "(('c \<Rightarrow> time \<Rightarrow> string \<Rightarrow> token option \<times> 'c) \<times> ('c \<Rightarrow> string \<Rightarrow> token \<Rightarrow> 'c)) option"
  xc_HTTPClient :: "'n http_client option"
  xc_Audit :: "'w sink option"

text \<open>\<open>mem\<close> and \<open>default_client\<close> are the in-memory cache and the 30 s client construction creates.\<close>

definition NewExchanger :: "('c \<Rightarrow> time \<Rightarrow> string \<Rightarrow> token option \<times> 'c) \<times> ('c \<Rightarrow> string \<Rightarrow> token \<Rightarrow> 'c) \<Rightarrow> 'n http_client
    \<Rightarrow> ('c, 'a, 'n, 'w) x_config \<Rightarrow> goerr + ('c, 'a, 'n, 'w) exchanger" where
  "NewExchanger mem default_client cfg =
     (if xc_TokenURL cfg = [] then Inl (ErrorString ''exchange: Config.TokenURL is required'')
      else case xc_ClientAuth cfg of
        None \<Rightarrow> Inl (ErrorString ''exchange: Config.ClientAuth is required'')
      | Some ca \<Rightarrow>
          (let cache = (case xc_Cache cfg of None \<Rightarrow> mem | Some gp \<Rightarrow> gp) in
           Inr \<lparr>x_tokenURL = xc_TokenURL cfg, x_clientAuth = ca, x_get = fst cache, x_put = snd cache,
                x_httpClient = (case xc_HTTPClient cfg of None \<Rightarrow> default_client | Some h \<Rightarrow> h),
                x_audit = xc_Audit cfg\<rparr>))"

record tokenResponse =
  tr_AccessToken :: string
  tr_IssuedTokenType :: string
  tr_TokenType :: string
  tr_ExpiresIn :: int
  tr_Scope :: string
  tr_Error :: string
  tr_ErrorDescription :: string

definition zero_tokenResponse :: tokenResponse where
  "zero_tokenResponse = \<lparr>tr_AccessToken = [], tr_IssuedTokenType = [], tr_TokenType = [], tr_ExpiresIn = 0, tr_Scope = [],
     tr_Error = [], tr_ErrorDescription = []\<rparr>"

definition set_tokenResponse :: "string \<Rightarrow> json \<Rightarrow> tokenResponse \<Rightarrow> tokenResponse option" where
  "set_tokenResponse n v r =
     (if n = ''access_token'' then map_option (\<lambda>x. r\<lparr>tr_AccessToken := x\<rparr>) (dec_string v (tr_AccessToken r))
      else if n = ''issued_token_type'' then map_option (\<lambda>x. r\<lparr>tr_IssuedTokenType := x\<rparr>) (dec_string v (tr_IssuedTokenType r))
      else if n = ''token_type'' then map_option (\<lambda>x. r\<lparr>tr_TokenType := x\<rparr>) (dec_string v (tr_TokenType r))
      else if n = ''expires_in'' then map_option (\<lambda>x. r\<lparr>tr_ExpiresIn := x\<rparr>) (dec_int64 v (tr_ExpiresIn r))
      else if n = ''scope'' then map_option (\<lambda>x. r\<lparr>tr_Scope := x\<rparr>) (dec_string v (tr_Scope r))
      else if n = ''error'' then map_option (\<lambda>x. r\<lparr>tr_Error := x\<rparr>) (dec_string v (tr_Error r))
      else map_option (\<lambda>x. r\<lparr>tr_ErrorDescription := x\<rparr>) (dec_string v (tr_ErrorDescription r)))"

definition decode_tokenResponse :: "'n http_client \<Rightarrow> http_resp \<Rightarrow> goerr + tokenResponse" where
  "decode_tokenResponse hc rp =
     (case hc_Decode hc (rp_Body rp) (rp_BodyErr rp) of
        Inl err \<Rightarrow> Inl err
      | Inr j \<Rightarrow>
          (case decode_struct set_tokenResponse
                  [''access_token'', ''issued_token_type'', ''token_type'', ''expires_in'', ''scope'', ''error'', ''error_description'']
                  zero_tokenResponse j of
             None \<Rightarrow> Inl (hc_TypeError hc j)
           | Some r \<Rightarrow> Inr r))"

text \<open>\<open>time.Duration(b.ExpiresIn) * time.Second\<close> is an int64 product, which wraps.\<close>

definition x_token :: "time \<Rightarrow> tokenResponse \<Rightarrow> token" where
  "x_token now b =
     \<lparr>tk_AccessToken = tr_AccessToken b, tk_IssuedTokenType = tr_IssuedTokenType b, tk_TokenType = tr_TokenType b,
      tk_ExpiresAt = (if tr_ExpiresIn b > 0 then time_Add now (wrap64 (tr_ExpiresIn b * second)) else 0),
      tk_Scopes = (if tr_Scope b \<noteq> [] then strings_Fields (tr_Scope b) else [])\<rparr>"

text \<open>
  The loop of \<open>do\<close>: the argument counts the attempts left, so the first attempt is the one with two left.
  \<open>now\<close> is the clock reading of \<open>token\<close>.
\<close>

fun x_do_loop :: "('c, 'a, 'n, 'w) exchanger \<Rightarrow> time \<Rightarrow> nat \<Rightarrow> form \<Rightarrow> string \<Rightarrow> 'a \<Rightarrow> 'n \<Rightarrow> (goerr + token) \<times> 'a \<times> 'n" where
  "x_do_loop x now 0 form nonce a net =
     (Inl (Rejected ''use_dpop_nonce'' ''authorization server kept requesting a new DPoP nonce''), a, net)"
| "x_do_loop x now (Suc left) form nonce a net =
     (let hc = x_httpClient x in
      case hc_BadURL hc (x_tokenURL x) of
        Some err \<Rightarrow> (Inl (x_Unavailable err), a, net)
      | None \<Rightarrow>
     (case x_clientAuth x a (new_post (x_tokenURL x) (Values_Encode form)) form nonce of
        (Inl err, a') \<Rightarrow> (Inl (x_Unavailable (Errorf ''client auth: %w'' [] (Some err))), a', net)
      | (Inr (req, form'), a') \<Rightarrow>
     (case hc_Do hc net req of
        (Inl err, net') \<Rightarrow> (Inl (x_Unavailable err), a', net')
      | (Inr resp, net') \<Rightarrow>
     (let serverNonce = Header_Get (rp_Header resp) ''DPoP-Nonce''; status = rp_Status resp in
      if status \<ge> 500
      then (Inl (x_Unavailable (Errorf ''authorization server returned %d'' [Itoa status] None)), a', net')
      else
        (case decode_tokenResponse hc resp of
           Inl decErr \<Rightarrow> (Inl (x_Unavailable (Errorf ''decode token response: %w'' [] (Some decErr))), a', net')
         | Inr body \<Rightarrow>
             (if status = 200 \<and> tr_AccessToken body \<noteq> [] then (Inr (x_token now body), a', net')
              else if tr_Error body = ''use_dpop_nonce'' \<and> serverNonce \<noteq> [] \<and> Suc left = 2
              then x_do_loop x now left form' serverNonce a' net'
              else (Inl (Rejected (tr_Error body) (tr_ErrorDescription body)), a', net')))))))"

definition x_do :: "('c, 'a, 'n, 'w) exchanger \<Rightarrow> time \<Rightarrow> form \<Rightarrow> 'a \<Rightarrow> 'n \<Rightarrow> (goerr + token) \<times> 'a \<times> 'n" where
  "x_do x now form a net = x_do_loop x now 2 form [] a net"

definition x_cacheKey :: "string \<Rightarrow> string \<Rightarrow> string \<Rightarrow> string \<Rightarrow> string list \<Rightarrow> string" where
  "x_cacheKey subject audience subjectTokenType requestedTokenType scope =
     subject @ ''|'' @ audience @ ''|'' @ subjectTokenType @ ''|'' @ requestedTokenType @ ''|''
       @ strings_Join (sort_Strings scope) '' ''"

record ('c, 'a, 'n, 'w) x_state =
  xs_cache :: 'c
  xs_auth :: 'a
  xs_net :: 'n
  xs_sink :: 'w

record x_clock =
  ck_cache :: time
  ck_token :: time
  ck_audit :: time

definition x_record :: "'w sink option \<Rightarrow> event \<Rightarrow> 'w \<Rightarrow> 'w" where
  "x_record audit e w = (case audit of None \<Rightarrow> w | Some s \<Rightarrow> s e w)"

definition x_granted_event :: "xrequest \<Rightarrow> token \<Rightarrow> time \<Rightarrow> event" where
  "x_granted_event req tok now = zero_event\<lparr>ev_Action := ActionTokenExchange, ev_Outcome := OutcomeGranted,
     ev_Subject := xr_Subject req, ev_Audience := xr_Audience req, ev_Scopes := tk_Scopes tok, ev_Time := now\<rparr>"

definition x_recordGranted :: "('c, 'a, 'n, 'w) exchanger \<Rightarrow> xrequest \<Rightarrow> token \<Rightarrow> time \<Rightarrow> 'w \<Rightarrow> 'w" where
  "x_recordGranted x req tok now w = x_record (x_audit x) (x_granted_event req tok now) w"

definition x_failure_event :: "xrequest \<Rightarrow> goerr \<Rightarrow> time \<Rightarrow> event" where
  "x_failure_event req err now =
     (let rej = errors_Is err ErrExchangeRejected in
      zero_event\<lparr>ev_Action := ActionTokenExchange, ev_Outcome := (if rej then OutcomeDenied else OutcomeError),
        ev_ReasonCode := (if rej then ''exchange_rejected'' else ''exchange_unavailable''),
        ev_Subject := xr_Subject req, ev_Audience := xr_Audience req, ev_Scopes := xr_Scope req, ev_Time := now\<rparr>)"

definition x_recordFailure :: "('c, 'a, 'n, 'w) exchanger \<Rightarrow> xrequest \<Rightarrow> goerr \<Rightarrow> time \<Rightarrow> 'w \<Rightarrow> 'w" where
  "x_recordFailure x req err now w = x_record (x_audit x) (x_failure_event req err now) w"

definition opt_Set :: "bool \<Rightarrow> string \<Rightarrow> string \<Rightarrow> form \<Rightarrow> form" where
  "opt_Set cond k v f = (if cond then Values_Set f k v else f)"

definition x_form :: "xrequest \<Rightarrow> form" where
  "x_form req =
     (let f = [(''grant_type'', [grantTypeTokenExchange]), (''subject_token'', [xr_SubjectToken req]),
               (''subject_token_type'', [if xr_SubjectTokenType req = [] then tokenTypeAccessToken else xr_SubjectTokenType req])];
          f = opt_Set (xr_RequestedTokenType req \<noteq> []) ''requested_token_type'' (xr_RequestedTokenType req) f;
          f = opt_Set (xr_Audience req \<noteq> []) ''audience'' (xr_Audience req) f;
          f = opt_Set (xr_Resource req \<noteq> []) ''resource'' (xr_Resource req) f;
          f = opt_Set (xr_Scope req \<noteq> []) ''scope'' (strings_Join (xr_Scope req) '' '') f;
          f = opt_Set (xr_ActorToken req \<noteq> []) ''actor_token'' (xr_ActorToken req) f
      in opt_Set (xr_ActorToken req \<noteq> []) ''actor_token_type'' tokenTypeAccessToken f)"

definition x_key :: "xrequest \<Rightarrow> string" where
  "x_key req =
     (if xr_Subject req \<noteq> []
      then x_cacheKey (xr_Subject req) (xr_Audience req) (xr_SubjectTokenType req) (xr_RequestedTokenType req) (xr_Scope req)
      else [])"

definition Exchange :: "('c, 'a, 'n, 'w) exchanger \<Rightarrow> x_clock \<Rightarrow> xrequest \<Rightarrow> ('c, 'a, 'n, 'w) x_state
    \<Rightarrow> (goerr + token) \<times> ('c, 'a, 'n, 'w) x_state" where
  "Exchange x ck req s =
     (if xr_SubjectToken req = [] then (Inl (ErrorString ''exchange: Request.SubjectToken is required''), s)
      else
      (case (if xr_Subject req \<noteq> [] then x_get x (xs_cache s) (ck_cache ck) (x_key req) else (None, xs_cache s)) of
         (Some tok, c) \<Rightarrow> (Inr tok, s\<lparr>xs_cache := c, xs_sink := x_recordGranted x req tok (ck_audit ck) (xs_sink s)\<rparr>)
       | (None, c) \<Rightarrow>
      (case x_do x (ck_token ck) (x_form req) (xs_auth s) (xs_net s) of
         (Inl err, a, n) \<Rightarrow>
           (Inl err, \<lparr>xs_cache = c, xs_auth = a, xs_net = n, xs_sink = x_recordFailure x req err (ck_audit ck) (xs_sink s)\<rparr>)
       | (Inr tok, a, n) \<Rightarrow>
           (Inr tok, \<lparr>xs_cache = (if x_key req \<noteq> [] \<and> \<not> time_IsZero (tk_ExpiresAt tok) then x_put x c (x_key req) tok else c),
                      xs_auth = a, xs_net = n, xs_sink = x_recordGranted x req tok (ck_audit ck) (xs_sink s)\<rparr>))))"

definition redeem_form :: "string \<Rightarrow> string list \<Rightarrow> form" where
  "redeem_form assertion scope =
     opt_Set (scope \<noteq> []) ''scope'' (strings_Join scope '' '') [(''grant_type'', [GrantTypeJWTBearer]), (''assertion'', [assertion])]"

definition RedeemAssertion :: "('c, 'a, 'n, 'w) exchanger \<Rightarrow> time \<Rightarrow> string \<Rightarrow> string list \<Rightarrow> ('c, 'a, 'n, 'w) x_state
    \<Rightarrow> (goerr + token) \<times> ('c, 'a, 'n, 'w) x_state" where
  "RedeemAssertion x now assertion scope s =
     (if assertion = [] then (Inl (ErrorString ''exchange: RedeemAssertion assertion is required''), s)
      else
        (case x_do x now (redeem_form assertion scope) (xs_auth s) (xs_net s) of
           (r, a, n) \<Rightarrow> (r, s\<lparr>xs_auth := a, xs_net := n\<rparr>)))"

section \<open>helper.go\<close>

definition TokenForCaller :: "('c, 'a, 'n, 'w) exchanger \<Rightarrow> x_clock \<Rightarrow> go_context \<Rightarrow> string \<Rightarrow> string list
    \<Rightarrow> ('c, 'a, 'n, 'w) x_state \<Rightarrow> (goerr + token) \<times> ('c, 'a, 'n, 'w) x_state" where
  "TokenForCaller x ck ctx audience scope s =
     (case RawTokenFrom ctx of
        None \<Rightarrow> (Inl (AuthErr ErrMissingToken), s)
      | Some raw \<Rightarrow>
          (if raw = [] then (Inl (AuthErr ErrMissingToken), s)
           else Exchange x ck
             \<lparr>xr_SubjectToken = raw, xr_Subject = (case ClaimsFrom ctx of None \<Rightarrow> [] | Some c \<Rightarrow> Subject c),
              xr_Audience = audience, xr_Resource = [], xr_Scope = scope, xr_ActorToken = [],
              xr_SubjectTokenType = [], xr_RequestedTokenType = []\<rparr> s))"

section \<open>Lemmas\<close>

text \<open>Each call of \<open>Exchange\<close> is one of four kinds.\<close>

lemma Exchange_cases:
  obtains (missing) "xr_SubjectToken req = []"
      and "Exchange x ck req s = (Inl (ErrorString ''exchange: Request.SubjectToken is required''), s)"
  | (hit) tok c where "xr_SubjectToken req \<noteq> []" and "xr_Subject req \<noteq> []"
      and "x_get x (xs_cache s) (ck_cache ck) (x_key req) = (Some tok, c)"
      and "Exchange x ck req s = (Inr tok, s\<lparr>xs_cache := c, xs_sink := x_recordGranted x req tok (ck_audit ck) (xs_sink s)\<rparr>)"
  | (failed) err c a n where "xr_SubjectToken req \<noteq> []"
      and "c = (if xr_Subject req \<noteq> [] then snd (x_get x (xs_cache s) (ck_cache ck) (x_key req)) else xs_cache s)"
      and "x_do x (ck_token ck) (x_form req) (xs_auth s) (xs_net s) = (Inl err, a, n)"
      and "Exchange x ck req s = (Inl err, \<lparr>xs_cache = c, xs_auth = a, xs_net = n,
             xs_sink = x_recordFailure x req err (ck_audit ck) (xs_sink s)\<rparr>)"
  | (issued) tok c a n where "xr_SubjectToken req \<noteq> []"
      and "c = (if xr_Subject req \<noteq> [] then snd (x_get x (xs_cache s) (ck_cache ck) (x_key req)) else xs_cache s)"
      and "x_do x (ck_token ck) (x_form req) (xs_auth s) (xs_net s) = (Inr tok, a, n)"
      and "Exchange x ck req s = (Inr tok, \<lparr>xs_cache = (if x_key req \<noteq> [] \<and> \<not> time_IsZero (tk_ExpiresAt tok)
               then x_put x c (x_key req) tok else c), xs_auth = a, xs_net = n,
             xs_sink = x_recordGranted x req tok (ck_audit ck) (xs_sink s)\<rparr>)"
      and "xr_Subject req = [] \<or> fst (x_get x (xs_cache s) (ck_cache ck) (x_key req)) = None"
proof (cases "xr_SubjectToken req = []")
  case True
  then show ?thesis using missing by (simp add: Exchange_def)
next
  case ne: False
  obtain r c where g: "(if xr_Subject req \<noteq> [] then x_get x (xs_cache s) (ck_cache ck) (x_key req) else (None, xs_cache s)) = (r, c)"
    by fastforce
  have c: "c = (if xr_Subject req \<noteq> [] then snd (x_get x (xs_cache s) (ck_cache ck) (x_key req)) else xs_cache s)"
    using g by (auto split: if_splits)
  obtain d a n where d: "x_do x (ck_token ck) (x_form req) (xs_auth s) (xs_net s) = (d, a, n)"
    by (metis prod.exhaust)
  show ?thesis
  proof (cases r)
    case (Some tok)
    show ?thesis
      by (rule hit [OF ne, of tok c]) (use Some ne g in \<open>auto simp: Exchange_def split: if_splits\<close>)
  next
    case None
    show ?thesis
    proof (cases d)
      case (Inl err)
      show ?thesis
        by (rule failed [OF ne c, of err a n]) (use None Inl ne g d in \<open>simp_all add: Exchange_def\<close>)
    next
      case (Inr tok)
      show ?thesis
        by (rule issued [OF ne c, of tok a n]) (use None Inr ne g d in \<open>auto simp: Exchange_def split: if_splits\<close>)
    qed
  qed
qed

text \<open>
  The outcomes of the retry loop, over what passed on the wire. \<open>answered hc ex rp b\<close>: the last request
  of \<open>ex\<close> was answered by \<open>rp\<close>, whose body decodes to \<open>b\<close>. \<open>rejected_with code\<close> is the public error
  for an OAuth error code: the fixed prefix and that code, nothing else.
\<close>

definition answered :: "'n http_client \<Rightarrow> exchange_log \<Rightarrow> http_resp \<Rightarrow> tokenResponse \<Rightarrow> bool" where
  "answered hc ex rp b \<longleftrightarrow> (\<exists>ex' q. ex = ex' @ [(q, Inr rp)]) \<and> decode_tokenResponse hc rp = Inr b"

definition rejected_with :: "string \<Rightarrow> goerr" where
  "rejected_with code = AuthErr (AuthError ''exchange_rejected''
     (''token exchange rejected by the authorization server: '' @ code) [] 502 None)"

definition x_outcome :: "'n http_client \<Rightarrow> time \<Rightarrow> exchange_log \<Rightarrow> goerr + token \<Rightarrow> bool" where
  "x_outcome hc now ex r \<longleftrightarrow>
     (case r of
        Inr tok \<Rightarrow> \<exists>rp b. answered hc ex rp b \<and> rp_Status rp = 200 \<and> tr_AccessToken b \<noteq> [] \<and> tok = x_token now b
      | Inl err \<Rightarrow> (\<exists>cause. err = AuthErr (With ErrExchangeUnavailable cause))
          \<or> (\<exists>rp b. answered hc ex rp b \<and> rp_Status rp < 500 \<and> \<not> (rp_Status rp = 200 \<and> tr_AccessToken b \<noteq> [])
               \<and> err = rejected_with (tr_Error b)))
     \<and> (\<forall>rp b. answered hc ex rp b \<and> rp_Status rp < 500 \<and> tr_Error b \<noteq> ''use_dpop_nonce'' \<longrightarrow>
          r = (if rp_Status rp = 200 \<and> tr_AccessToken b \<noteq> [] then Inr (x_token now b) else Inl (rejected_with (tr_Error b))))"

lemma Rejected_with: "Rejected e d = rejected_with e"
  by (simp add: Rejected_def rejected_with_def ErrExchangeRejected_def)

lemma decode_tokenResponse_taping [simp]: "decode_tokenResponse (taping hc) rp = decode_tokenResponse hc rp"
  by (simp add: decode_tokenResponse_def split: sum.splits option.splits)

lemma answered_Nil [simp]: "\<not> answered hc [] rp b"
  by (simp add: answered_def)

lemma answered_single [simp]:
  "answered hc [(q, resp)] rp b \<longleftrightarrow> resp = Inr rp \<and> decode_tokenResponse hc rp = Inr b"
  by (auto simp: answered_def)

lemma answered_Cons: "ex \<noteq> [] \<Longrightarrow> answered hc (p # ex) rp b \<longleftrightarrow> answered hc ex rp b"
  by (auto simp: answered_def Cons_eq_append_conv)

lemma x_outcome_retry:
  assumes "x_outcome hc now ex r" and "decode_tokenResponse hc rp = Inr b" and "tr_Error b = ''use_dpop_nonce''"
  shows "x_outcome hc now ((q, Inr rp) # ex) r"
proof (cases "ex = []")
  case True
  with assms show ?thesis by (auto simp: x_outcome_def split: sum.splits)
next
  case False
  with assms(1) show ?thesis by (simp add: x_outcome_def answered_Cons split: sum.splits)
qed

lemma x_outcome_single:
  "x_outcome hc now [] (Inl (x_Unavailable c))"
  "x_outcome hc now [(q, Inl e)] (Inl (x_Unavailable c))"
  "500 \<le> rp_Status rp \<or> decode_tokenResponse hc rp = Inl e' \<Longrightarrow> x_outcome hc now [(q, Inr rp)] (Inl (x_Unavailable c))"
  "decode_tokenResponse hc rp = Inr b \<Longrightarrow> rp_Status rp = 200 \<and> tr_AccessToken b \<noteq> [] \<Longrightarrow>
    x_outcome hc now [(q, Inr rp)] (Inr (x_token now b))"
  "decode_tokenResponse hc rp = Inr b \<Longrightarrow> rp_Status rp < 500 \<Longrightarrow> \<not> (rp_Status rp = 200 \<and> tr_AccessToken b \<noteq> []) \<Longrightarrow>
    x_outcome hc now [(q, Inr rp)] (Inl (Rejected (tr_Error b) d))"
  by (auto simp: x_outcome_def x_Unavailable_def Rejected_with)

text \<open>One attempt of the loop: it ends with at most one request on the tape, or asks for the retry.\<close>

lemma x_do_loop_attempt:
  assumes hc: "x_httpClient x = taping hc"
    and run: "x_do_loop x now (Suc k) f nonce a (n, tape) = (r, a', n', tape')"
  obtains (ended) ex where "tape' = tape @ ex" "length ex \<le> 1" "x_outcome hc now ex r"
  | (retry) q rp b f1 nonce1 a1 n1 where "k = 1" "decode_tokenResponse hc rp = Inr b" "tr_Error b = ''use_dpop_nonce''"
      "x_do_loop x now k f1 nonce1 a1 (n1, tape @ [(q, Inr rp)]) = (r, a', n', tape')"
proof (cases "hc_BadURL hc (x_tokenURL x)")
  case (Some err)
  with run have "r = Inl (x_Unavailable err)" "tape' = tape" by (simp_all add: hc)
  then show ?thesis by (intro ended [of "[]"]) (simp_all add: x_outcome_single)
next
  case url: None
  obtain u a1 where u: "x_clientAuth x a (new_post (x_tokenURL x) (Values_Encode f)) f nonce = (u, a1)" by fastforce
  show ?thesis
  proof (cases u)
    case (Inl err)
    with run url u have "r = Inl (x_Unavailable (Errorf ''client auth: %w'' [] (Some err)))" "tape' = tape" by (simp_all add: hc)
    then show ?thesis by (intro ended [of "[]"]) (simp_all add: x_outcome_single)
  next
    case (Inr qf)
    obtain q f1 where q: "qf = (q, f1)" by (cases qf)
    obtain resp n1 where d: "hc_Do hc n q = (resp, n1)" by fastforce
    show ?thesis
    proof (cases resp)
      case (Inl err)
      with run url u \<open>u = Inr qf\<close> q d have "r = Inl (x_Unavailable err)" "tape' = tape @ [(q, Inl err)]"
        by (simp_all add: hc taping_Do)
      then show ?thesis by (intro ended [of "[(q, Inl err)]"]) (simp_all add: x_outcome_single)
    next
      case rp: (Inr rp)
      note step = run [unfolded x_do_loop.simps(2) hc taping_sel taping_Do url option.case u \<open>u = Inr qf\<close> q prod.case sum.case Let_def fst_conv snd_conv d rp decode_tokenResponse_taping]
      consider "500 \<le> rp_Status rp \<or> (\<exists>e. decode_tokenResponse hc rp = Inl e)"
        | b where "rp_Status rp < 500" "decode_tokenResponse hc rp = Inr b"
        by (cases "decode_tokenResponse hc rp") (use not_le in blast)+
      then show ?thesis
      proof cases
        case 1
        then obtain c where "r = Inl (x_Unavailable c)" "tape' = tape @ [(q, Inr rp)]" using step by (auto split: if_splits)
        with 1 show ?thesis by (intro ended [of "[(q, Inr rp)]"]) (auto intro: x_outcome_single)
      next
        case (2 b)
        show ?thesis
        proof (cases "rp_Status rp = 200 \<and> tr_AccessToken b \<noteq> []")
          case True
          with 2 step show ?thesis by (intro ended [of "[(q, Inr rp)]"]) (auto intro: x_outcome_single)
        next
          case False
          note step = step [unfolded 2(2) sum.case if_not_P [OF False]]
          show ?thesis
          proof (cases "tr_Error b = ''use_dpop_nonce'' \<and> Header_Get (rp_Header rp) ''DPoP-Nonce'' \<noteq> [] \<and> Suc k = 2")
            case True
            with 2 step show ?thesis by (intro retry [of rp b]) (auto simp: not_le [symmetric])
          next
            case F: False
            have "r = Inl (Rejected (tr_Error b) (tr_ErrorDescription b))" "tape' = tape @ [(q, Inr rp)]"
              using 2(1) step unfolding if_not_P [OF F] by auto
            with 2 False show ?thesis by (intro ended [of "[(q, Inr rp)]"]) (auto intro: x_outcome_single)
          qed
        qed
      qed
    qed
  qed
qed

lemma x_do_loop_taped:
  assumes hc: "x_httpClient x = taping hc"
  shows "x_do_loop x now (Suc k) f nonce a (n, tape) = (r, a', n', tape') \<Longrightarrow>
    \<exists>ex. tape' = tape @ ex \<and> length ex \<le> Suc k \<and> x_outcome hc now ex r"
proof (induction k arbitrary: f nonce a n tape)
  case 0
  from hc 0 show ?case
  proof (cases rule: x_do_loop_attempt)
    case (ended ex)
    then show ?thesis by (intro exI [of _ ex]) simp
  qed simp
next
  case (Suc k)
  from hc Suc.prems show ?case
  proof (cases rule: x_do_loop_attempt)
    case (ended ex)
    then show ?thesis by (intro exI [of _ ex]) simp
  next
    case (retry q rp b f1 nonce1 a1 n1)
    from Suc.IH [OF retry(4)] obtain ex where "tape' = (tape @ [(q, Inr rp)]) @ ex" "length ex \<le> Suc k" "x_outcome hc now ex r" by blast
    with x_outcome_retry [OF _ retry(2,3)] show ?thesis by (intro exI [of _ "(q, Inr rp) # ex"]) simp
  qed
qed

lemma x_do_taped:
  assumes "x_httpClient x = taping hc" and "x_do x now f a nt = (r, a', nt')"
  shows "\<exists>ex. snd nt' = snd nt @ ex \<and> length ex \<le> 2 \<and> x_outcome hc now ex r"
  using x_do_loop_taped [OF assms(1), of now 1 f "[]" a "fst nt" "snd nt" r a' "fst nt'" "snd nt'"] assms(2)
  by (simp add: x_do_def numeral_2_eq_2)

lemma x_do_loop_nonempty:
  "fst (x_do_loop x now k f nonce a n) = Inr tok \<Longrightarrow> tk_AccessToken tok \<noteq> []"
proof (induction k arbitrary: f nonce a n)
  case (Suc k)
  then show ?case
    by (auto simp: Let_def x_token_def split: option.splits sum.splits prod.splits if_splits)
qed simp

lemma x_do_nonempty:
  assumes "x_do x now f a n = (Inr tok, a', n')"
  shows "tk_AccessToken tok \<noteq> []"
  using x_do_loop_nonempty [of x now 2 f "[]" a n tok] assms by (simp add: x_do_def)

lemma x_do_loop_count:
  assumes "x_httpClient x = counting hc"
  shows "snd (snd (snd (x_do_loop x now k f nonce a (n, m)))) \<le> m + k"
proof (induction k arbitrary: f nonce a n m)
  case (Suc k)
  have "snd (snd (snd (x_do_loop x now k f' nonce' a' (n', Suc m)))) \<le> m + Suc k" for f' nonce' a' n'
    using Suc.IH [of f' nonce' a' n' "Suc m"] by simp
  then show ?case
    by (auto simp: assms counting_Do Let_def split: option.splits sum.splits prod.splits if_splits)
qed simp

lemma x_do_count:
  "x_httpClient x = counting hc \<Longrightarrow> snd (snd (snd (x_do x now f a n))) \<le> snd n + 2"
  using x_do_loop_count [of x hc now 2 f "[]" a "fst n" "snd n"] by (simp add: x_do_def)

text \<open>The proof a DPoP authenticator puts on a request, over a base that keeps method and URL.\<close>

definition plain_base :: "'a x_auth option \<Rightarrow> bool" where
  "plain_base base \<longleftrightarrow> base = None \<or> (\<exists>i s. base = Some (x_BasicAuth i s))"

definition carries_proof :: "('raw, 'sk, 'pk, 'a) dpop_lib \<Rightarrow> ('sk, 'a) dpop_signer \<Rightarrow> string \<Rightarrow> string \<Rightarrow> out_request \<Rightarrow> bool" where
  "carries_proof lib d url nonce q \<longleftrightarrow>
     (\<exists>jti t payload pub pf. dl_Marshal lib (proof_members ''POST'' (dl_URLString lib url) nonce jti t) = Inr payload
        \<and> dl_PublicKey lib (dp_key d) = Inr pub
        \<and> dl_Sign lib payload (dp_key d) \<lparr>jh_Type = ''dpop+jwt'', jh_Algorithm = ''ES256'', jh_JWK = Some pub\<rparr> = Inr pf
        \<and> Header_Values (oq_Header q) ''DPoP'' = [pf])"

lemma dpop_Apply_proof:
  assumes "dpop_Apply lib d a (new_post url body) f nonce = (Inr (q, f'), a')" and "plain_base (dp_base d)"
  shows "carries_proof lib d url nonce q"
  using assms
  by (auto simp: dpop_Apply_def dpop_proof_def plain_base_def x_BasicAuth_def SetBasicAuth_def new_post_def carries_proof_def
      split: option.splits sum.splits prod.splits) blast+

lemma x_do_loop_last:
  assumes auth: "x_clientAuth x = dpop_Apply lib d" "plain_base (dp_base d)" and hc: "x_httpClient x = logging hc"
    and run: "x_do_loop x now 1 f nonce a (n, qs) = (r, a', n', qs')"
  shows "qs' = qs \<or> (\<exists>q. qs' = qs @ [q] \<and> carries_proof lib d (x_tokenURL x) nonce q)"
  using run dpop_Apply_proof [OF _ auth(2), of lib a "x_tokenURL x" "Values_Encode f" f nonce]
  by (auto simp: One_nat_def auth(1) hc logging_Do Let_def split: option.splits sum.splits prod.splits if_splits)

section \<open>Cache keys\<close>

lemma sep_append_inj:
  "c \<notin> set a \<Longrightarrow> c \<notin> set a' \<Longrightarrow> a @ [c] @ r = a' @ [c] @ r' \<Longrightarrow> a = a' \<and> r = r'"
proof (induction a arbitrary: a')
  case Nil
  then show ?case by (cases a') auto
next
  case (Cons x a)
  then show ?case by (cases a') auto
qed

lemma sep_append_inj_last:
  assumes "c \<notin> set r" and "c \<notin> set r'" and "a @ [c] @ r = a' @ [c] @ r'"
  shows "a = a' \<and> r = r'"
proof -
  have "rev r @ [c] @ rev a = rev r' @ [c] @ rev a'" using arg_cong [OF assms(3), of rev] by simp
  from sep_append_inj [OF _ _ this] assms(1,2) show ?thesis by simp
qed

text \<open>
  The condition under which a key determines its parts. It restricts only what the calling server
  writes into the request (audience, token types, scopes): they do not contain the separator, and a
  scope is a non-empty word. The subject, which comes from the caller's token, is not restricted.
\<close>

definition key_safe :: "xrequest \<Rightarrow> bool" where
  "key_safe req \<longleftrightarrow> CHR ''|'' \<notin> set (xr_Audience req)
     \<and> CHR ''|'' \<notin> set (xr_SubjectTokenType req) \<and> CHR ''|'' \<notin> set (xr_RequestedTokenType req)
     \<and> list_all (\<lambda>w. w \<noteq> [] \<and> CHR '' '' \<notin> set w \<and> CHR ''|'' \<notin> set w) (xr_Scope req)"

text \<open>Two requests that may share a cache entry: everything of the key agrees, scopes up to order.\<close>

definition same_caller :: "xrequest \<Rightarrow> xrequest \<Rightarrow> bool" where
  "same_caller r q \<longleftrightarrow> xr_Subject r = xr_Subject q \<and> xr_Audience r = xr_Audience q
     \<and> xr_SubjectTokenType r = xr_SubjectTokenType q \<and> xr_RequestedTokenType r = xr_RequestedTokenType q
     \<and> mset (xr_Scope r) = mset (xr_Scope q)"

lemma Join_scopes_inj:
  assumes "list_all (\<lambda>w. w \<noteq> [] \<and> CHR '' '' \<notin> set w) xs" "list_all (\<lambda>w. w \<noteq> [] \<and> CHR '' '' \<notin> set w) ys"
    and "strings_Join xs '' '' = strings_Join ys '' ''"
  shows "xs = ys"
proof -
  have rt: "filter (\<lambda>w. w \<noteq> []) (split_on CHR '' '' (strings_Join zs '' '')) = zs"
    if "list_all (\<lambda>w. w \<noteq> [] \<and> CHR '' '' \<notin> set w) zs" for zs
  proof (cases "zs = []")
    case False
    then have "split_on CHR '' '' (strings_Join zs '' '') = zs" using that by (intro split_on_Join) (auto simp: list_all_iff)
    with that show ?thesis by (auto simp: filter_id_conv list_all_iff)
  qed simp
  show ?thesis using rt [OF assms(1)] rt [OF assms(2)] unfolding assms(3) by (rule trans [OF sym])
qed

lemma set_strings_Join: "set (strings_Join xs sep) \<subseteq> \<Union> (set ` set xs) \<union> set sep"
  by (induction xs sep rule: strings_Join.induct) auto

lemma key_safe_scopes:
  assumes "key_safe r"
  shows "list_all (\<lambda>w. w \<noteq> [] \<and> CHR '' '' \<notin> set w) (sort_Strings (xr_Scope r))"
    and "CHR ''|'' \<notin> set (strings_Join (sort_Strings (xr_Scope r)) '' '')"
  using assms set_strings_Join [of "sort_Strings (xr_Scope r)" "'' ''"] mset_eq_setD [OF mset_sort_Strings, of "xr_Scope r"]
  by (auto simp: key_safe_def list_all_iff)

lemma x_key_inj:
  assumes "key_safe r" and "key_safe q" and "xr_Subject r \<noteq> []" and "xr_Subject q \<noteq> []" and "x_key r = x_key q"
  shows "same_caller r q"
proof -
  let ?t1 = "\<lambda>r. xr_Subject r @ [CHR ''|''] @ xr_Audience r"
  let ?t2 = "\<lambda>r. ?t1 r @ [CHR ''|''] @ xr_SubjectTokenType r"
  let ?t3 = "\<lambda>r. ?t2 r @ [CHR ''|''] @ xr_RequestedTokenType r"
  let ?s = "\<lambda>r. strings_Join (sort_Strings (xr_Scope r)) '' ''"
  note safe = assms(1,2) [unfolded key_safe_def] key_safe_scopes(2) [OF assms(1)] key_safe_scopes(2) [OF assms(2)]
  have "?t3 r @ [CHR ''|''] @ ?s r = ?t3 q @ [CHR ''|''] @ ?s q"
    using assms(3-5) by (simp add: x_key_def x_cacheKey_def)
  from sep_append_inj_last [OF _ _ this] safe have 1: "?t3 r = ?t3 q" "?s r = ?s q" by blast+
  from sep_append_inj_last [OF _ _ 1(1)] safe have 2: "?t2 r = ?t2 q" "xr_RequestedTokenType r = xr_RequestedTokenType q" by blast+
  from sep_append_inj_last [OF _ _ 2(1)] safe have 3: "?t1 r = ?t1 q" "xr_SubjectTokenType r = xr_SubjectTokenType q" by blast+
  from sep_append_inj_last [OF _ _ 3(1)] safe have 4: "xr_Subject r = xr_Subject q" "xr_Audience r = xr_Audience q" by blast+
  have "sort_Strings (xr_Scope r) = sort_Strings (xr_Scope q)"
    using Join_scopes_inj [OF key_safe_scopes(1) [OF assms(1)] key_safe_scopes(1) [OF assms(2)] 1(2)] .
  then have "mset (xr_Scope r) = mset (xr_Scope q)" by (metis mset_sort_Strings)
  with 2 3 4 show ?thesis by (simp add: same_caller_def)
qed

text \<open>The key leaves out the resource and the actor token, and its separator is not escaped.\<close>

lemma x_key_ignores_resource_and_actor:
  "x_key (req\<lparr>xr_Resource := r, xr_ActorToken := t\<rparr>) = x_key req"
  by (simp add: x_key_def)

lemma x_cacheKey_collision:
  "x_cacheKey ''a|b'' ''c'' st rt sc = x_cacheKey ''a'' ''b|c'' st rt sc"
  by (simp add: x_cacheKey_def)

section \<open>Isolation between callers\<close>

text \<open>
  The token the authorization server issues in one call, when the cache does not answer it, and the
  tokens issued in a sequence of calls, each with the request it was issued for.
\<close>

definition x_grant :: "('c, 'a, 'n, 'w) exchanger \<Rightarrow> x_clock \<Rightarrow> xrequest \<Rightarrow> ('c, 'a, 'n, 'w) x_state \<Rightarrow> (xrequest \<times> token) list" where
  "x_grant x ck req s =
     (if xr_SubjectToken req = [] \<or> (xr_Subject req \<noteq> [] \<and> fst (x_get x (xs_cache s) (ck_cache ck) (x_key req)) \<noteq> None) then []
      else (case fst (x_do x (ck_token ck) (x_form req) (xs_auth s) (xs_net s)) of Inr tok \<Rightarrow> [(req, tok)] | Inl err \<Rightarrow> []))"

fun x_calls :: "('c, 'a, 'n, 'w) exchanger \<Rightarrow> ('c, 'a, 'n, 'w) x_state \<Rightarrow> (x_clock \<times> xrequest) list \<Rightarrow> ('c, 'a, 'n, 'w) x_state" where
  "x_calls x s [] = s"
| "x_calls x s ((ck, req) # cs) = x_calls x (snd (Exchange x ck req s)) cs"

fun x_grants :: "('c, 'a, 'n, 'w) exchanger \<Rightarrow> ('c, 'a, 'n, 'w) x_state \<Rightarrow> (x_clock \<times> xrequest) list \<Rightarrow> (xrequest \<times> token) list" where
  "x_grants x s [] = []"
| "x_grants x s ((ck, req) # cs) = x_grant x ck req s @ x_grants x (snd (Exchange x ck req s)) cs"

lemma x_grants_append: "x_grants x s (cs @ ds) = x_grants x s cs @ x_grants x (x_calls x s cs) ds"
  by (induction cs arbitrary: s) auto

lemma x_grant_request: "g \<in> set (x_grant x ck req s) \<Longrightarrow> fst g = req \<and> tk_AccessToken (snd g) \<noteq> []"
  by (cases "x_do x (ck_token ck) (x_form req) (xs_auth s) (xs_net s)")
    (auto simp: x_grant_def split: if_splits sum.splits dest: x_do_nonempty)

lemma x_grants_requests: "g \<in> set (x_grants x s cs) \<Longrightarrow> fst g \<in> snd ` set cs \<and> tk_AccessToken (snd g) \<noteq> []"
proof (induction cs arbitrary: s)
  case (Cons c cs)
  obtain ck req where c: "c = (ck, req)" by (cases c)
  with Cons.prems consider "g \<in> set (x_grant x ck req s)" | "g \<in> set (x_grants x (snd (Exchange x ck req s)) cs)" by auto
  then show ?case
  proof cases
    case 1
    from x_grant_request [OF this] c show ?thesis by simp
  next
    case 2
    from Cons.IH [OF this] show ?thesis by simp
  qed
qed simp

text \<open>The provenance of what a cache holds: a token issued earlier for a request with that key.\<close>

definition provenance :: "(xrequest \<times> token) set \<Rightarrow> string \<Rightarrow> token \<Rightarrow> bool" where
  "provenance G k tok \<longleftrightarrow> (\<exists>q. (q, tok) \<in> G \<and> xr_Subject q \<noteq> [] \<and> x_key q = k)"

context exchange_cache
begin

lemma Exchange_provenance:
  assumes x: "x_get x = get" "x_put x = put" and inv: "all_held (provenance G) (xs_cache s)"
  shows "all_held (provenance (G \<union> set (x_grant x ck req s))) (xs_cache (snd (Exchange x ck req s)))
    \<and> (\<forall>tok s'. Exchange x ck req s = (Inr tok, s') \<longrightarrow>
         (req, tok) \<in> set (x_grant x ck req s) \<or> (xr_Subject req \<noteq> [] \<and> provenance G (x_key req) tok))"
proof -
  let ?G = "G \<union> set (x_grant x ck req s)"
  have inv': "all_held (provenance ?G) (xs_cache s)"
    by (rule all_held_mono [OF inv]) (auto simp: provenance_def)
  show ?thesis
  proof (cases rule: Exchange_cases [where x = x and ck = ck and req = req and s = s])
    case (hit tok c)
    then have g: "get (xs_cache s) (ck_cache ck) (x_key req) = (Some tok, c)" using x by simp
    from all_held_answer [OF inv g] all_held_get' [OF inv' g] hit show ?thesis by simp
  next
    case (issued tok c a n)
    have iss: "(req, tok) \<in> set (x_grant x ck req s)" using issued(1,3,5) by (auto simp: x_grant_def)
    have c: "all_held (provenance ?G) c" using issued(2) inv' all_held_get x by simp
    have "provenance ?G (x_key req) tok" if "x_key req \<noteq> []"
      using that iss by (auto simp: provenance_def x_key_def split: if_splits)
    then have "all_held (provenance ?G) (put c (x_key req) tok)" if "x_key req \<noteq> []"
      using that all_held_put [OF c] by blast
    with c iss x show ?thesis unfolding issued(4) by simp
  qed (use inv' x all_held_get in auto)
qed

lemma x_calls_provenance:
  assumes x: "x_get x = get" "x_put x = put"
  shows "all_held (provenance G) (xs_cache s) \<Longrightarrow>
    all_held (provenance (G \<union> set (x_grants x s cs))) (xs_cache (x_calls x s cs))"
proof (induction cs arbitrary: s G)
  case (Cons c cs)
  obtain ck req where c: "c = (ck, req)" by (cases c)
  from Cons.IH [OF conjunct1 [OF Exchange_provenance [OF x Cons.prems]]] c show ?case
    by (simp add: Un_assoc)
qed simp

end

section \<open>A concrete deployment\<close>

definition demo_as :: "int \<Rightarrow> json \<Rightarrow> string \<Rightarrow> unit http_client" where
  "demo_as status j nonce = \<lparr>hc_BadURL = (\<lambda>u. None),
     hc_Do = (\<lambda>n q. (Inr \<lparr>rp_Status = status, rp_Header = [(''Dpop-Nonce'', [nonce])], rp_Body = [], rp_BodyErr = None\<rparr>, n)),
     hc_Unmarshal = (\<lambda>b. Inr j), hc_Decode = (\<lambda>b e. Inr j), hc_TypeError = (\<lambda>j. ErrorString ''type'')\<rparr>"

definition demo_exchanger :: "'n http_client \<Rightarrow> (token ttl_cache, unit, 'n, event list) exchanger" where
  "demo_exchanger hc = \<lparr>x_tokenURL = ''https://as/token'', x_clientAuth = x_BasicAuth ''id'' ''secret'', x_get = x_Cache_Get,
     x_put = x_Cache_Set, x_httpClient = hc, x_audit = Some (\<lambda>e w. w @ [e])\<rparr>"

definition demo_xreq :: xrequest where
  "demo_xreq = \<lparr>xr_SubjectToken = ''tok'', xr_Subject = ''u'', xr_Audience = ''api'', xr_Resource = [], xr_Scope = [''read''],
     xr_ActorToken = [], xr_SubjectTokenType = [], xr_RequestedTokenType = []\<rparr>"

definition demo_xstate :: "'n \<Rightarrow> (token ttl_cache, unit, 'n, event list) x_state" where
  "demo_xstate n = \<lparr>xs_cache = x_NewMemoryCache (30 * second), xs_auth = (), xs_net = n, xs_sink = []\<rparr>"

definition demo_clock :: "time \<Rightarrow> x_clock" where
  "demo_clock t = \<lparr>ck_cache = t, ck_token = t, ck_audit = t\<rparr>"

definition demo_grant :: json where
  "demo_grant = JObj [(''access_token'', JStr ''at''), (''expires_in'', JNum ''300''), (''scope'', JStr ''read'')]"

definition demo_denial :: json where
  "demo_denial = JObj [(''error'', JStr ''use_dpop_nonce''), (''error_description'', JStr ''secret'')]"

definition demo_grant_body :: tokenResponse where
  "demo_grant_body = zero_tokenResponse\<lparr>tr_AccessToken := ''at'', tr_ExpiresIn := 300, tr_Scope := ''read''\<rparr>"

lemma demo_grant_decode: "decode_tokenResponse (demo_as st demo_grant nc) rp = Inr demo_grant_body"
  by (simp add: decode_tokenResponse_def demo_as_def demo_grant_def decode_struct_def match_field_def set_tokenResponse_def
      dec_string_def dec_int64_def parse_int64_def zero_tokenResponse_def demo_grant_body_def)

lemma demo_exchanger_sel [simp]:
  "x_tokenURL (demo_exchanger hc) = ''https://as/token''" "x_clientAuth (demo_exchanger hc) = x_BasicAuth ''id'' ''secret''"
  "x_get (demo_exchanger hc) = x_Cache_Get" "x_put (demo_exchanger hc) = x_Cache_Set" "x_httpClient (demo_exchanger hc) = hc"
  "x_audit (demo_exchanger hc) = Some (\<lambda>e w. w @ [e])"
  by (simp_all add: demo_exchanger_def)

lemma demo_as_sel [simp]:
  "hc_BadURL (demo_as st j nc) u = None"
  "hc_Do (demo_as st j nc) n q = (Inr \<lparr>rp_Status = st, rp_Header = [(''Dpop-Nonce'', [nc])], rp_Body = [], rp_BodyErr = None\<rparr>, n)"
  by (simp_all add: demo_as_def)

lemma demo_grant_do: "x_do (demo_exchanger (demo_as 200 demo_grant [])) now f () () = (Inr (x_token now demo_grant_body), (), ())"
proof -
  have "tr_AccessToken demo_grant_body \<noteq> []" by (simp add: demo_grant_body_def)
  then show ?thesis
    unfolding x_do_def numeral_2_eq_2 by (simp add: x_BasicAuth_def demo_grant_decode Let_def)
qed

lemma demo_xreq_token: "xr_SubjectToken demo_xreq \<noteq> []"
  by (simp add: demo_xreq_def)

lemma demo_exchange:
  assumes "xr_SubjectToken req \<noteq> []"
  shows "\<exists>s'. Exchange (demo_exchanger (demo_as 200 demo_grant [])) (demo_clock t) req (demo_xstate ()) =
     (Inr (x_token t demo_grant_body), s')"
  by (cases rule: Exchange_cases [where x = "demo_exchanger (demo_as 200 demo_grant [])" and ck = "demo_clock t" and req = req
        and s = "demo_xstate ()"])
    (use assms in \<open>auto simp: demo_grant_do demo_xstate_def demo_clock_def x_Cache_Get_def x_NewMemoryCache_def\<close>)

definition x_new_state :: "duration \<Rightarrow> 'a \<Rightarrow> 'n \<Rightarrow> 'w \<Rightarrow> (token ttl_cache, 'a, 'n, 'w) x_state" where
  "x_new_state leeway a n w = \<lparr>xs_cache = x_NewMemoryCache leeway, xs_auth = a, xs_net = n, xs_sink = w\<rparr>"

lemma demo_xstate_new: "demo_xstate n = x_new_state (30 * second) () n []"
  by (simp add: demo_xstate_def x_new_state_def)

lemma x_calls_held:
  assumes "x_get x = x_Cache_Get" and "x_put x = x_Cache_Set"
  shows "x_memory.all_held (provenance (set (x_grants x (x_new_state leeway a n w) calls)))
    (xs_cache (x_calls x (x_new_state leeway a n w) calls))"
proof -
  have "x_memory.all_held (provenance {}) (xs_cache (x_new_state leeway a n w))"
    by (simp add: x_memory.all_held_def ttl_holds_def x_NewMemoryCache_def x_new_state_def)
  from x_memory.x_calls_provenance [OF assms this, of calls] show ?thesis by simp
qed

lemma Exchange_isolated:
  assumes "x_get x = x_Cache_Get" and "x_put x = x_Cache_Set"
    and "s = x_calls x (x_new_state leeway a n w) calls" and "Exchange x ck req s = (Inr tok, s')"
  shows "\<exists>q. (q, tok) \<in> set (x_grants x (x_new_state leeway a n w) (calls @ [(ck, req)]))
    \<and> (q = req \<or> xr_Subject q \<noteq> [] \<and> xr_Subject req \<noteq> [] \<and> x_key q = x_key req)
    \<and> (key_safe q \<and> key_safe req \<longrightarrow> same_caller q req)"
proof -
  let ?G = "set (x_grants x (x_new_state leeway a n w) calls)"
  have "x_memory.all_held (provenance ?G) (xs_cache s)" using x_calls_held [OF assms(1,2)] assms(3) by simp
  from conjunct2 [OF x_memory.Exchange_provenance [OF assms(1,2) this]] assms(4)
  have "(req, tok) \<in> set (x_grant x ck req s) \<or> (xr_Subject req \<noteq> [] \<and> provenance ?G (x_key req) tok)" by blast
  then show ?thesis
  proof
    assume "(req, tok) \<in> set (x_grant x ck req s)"
    then show ?thesis using assms(3) by (auto simp: x_grants_append same_caller_def)
  next
    assume "xr_Subject req \<noteq> [] \<and> provenance ?G (x_key req) tok"
    then obtain q where q: "(q, tok) \<in> ?G" "xr_Subject q \<noteq> []" "x_key q = x_key req" "xr_Subject req \<noteq> []"
      by (auto simp: provenance_def)
    with x_key_inj [of q req] show ?thesis by (auto simp: x_grants_append)
  qed
qed

section \<open>Properties\<close>

text \<open>C3: callers are isolated. Starting from an empty in-memory cache and after any sequence of exchanges,
  a token that Exchange returns, fresh or from the cache, was issued by the authorization server in this
  call or an earlier one, either for this very request or for one with the same cache key. When the
  audiences, token types and scopes of both requests contain no separator character and the scopes are
  non-empty words (whatever their subjects are), the same key means the same subject, audience, token
  types and scopes up to order: no caller receives a token issued for another. Without that condition
  two callers whose keys collide do share an entry (\<open>x_cacheKey_collision\<close>).\<close>

theorem exchange_callers_isolated:
  assumes "x_get x = x_Cache_Get" and "x_put x = x_Cache_Set"
    and "s = x_calls x (x_new_state leeway a n w) calls" and "Exchange x ck req s = (Inr tok, s')"
  shows "\<exists>q. (q, tok) \<in> set (x_grants x (x_new_state leeway a n w) (calls @ [(ck, req)]))
    \<and> (q = req \<or> xr_Subject q \<noteq> [] \<and> xr_Subject req \<noteq> [] \<and> x_key q = x_key req)
    \<and> (key_safe q \<and> key_safe req \<longrightarrow> same_caller q req)"
  using assms by (rule Exchange_isolated)

theorem exchange_callers_isolated_witness:
  "let x = demo_exchanger (demo_as 200 demo_grant []); ck = demo_clock 0; req = demo_xreq\<lparr>xr_Subject := ''auth0|123''\<rparr> in
   \<exists>tok s'. Exchange x ck req (demo_xstate ()) = (Inr tok, s') \<and> (req, tok) \<in> set (x_grant x ck req (demo_xstate ()))
     \<and> key_safe req \<and> same_caller req req"
proof -
  let ?x = "demo_exchanger (demo_as 200 demo_grant [])" and ?req = "demo_xreq\<lparr>xr_Subject := ''auth0|123''\<rparr>"
  have "xr_SubjectToken ?req \<noteq> []" by (simp add: demo_xreq_def)
  then obtain tok s' where e: "Exchange ?x (demo_clock 0) ?req (demo_xstate ()) = (Inr tok, s')"
    using demo_exchange by blast
  have st: "demo_xstate () = x_calls ?x (x_new_state (30 * second) () () []) []" by (simp add: demo_xstate_new)
  have safe: "key_safe ?req" by (simp add: key_safe_def demo_xreq_def)
  from exchange_callers_isolated [OF _ _ st e] obtain q
    where q: "(q, tok) \<in> set (x_grant ?x (demo_clock 0) ?req (demo_xstate ()))" "key_safe q \<longrightarrow> same_caller q ?req"
    using safe by (auto simp: demo_xstate_new)
  moreover have "q = ?req" using x_grant_request [OF q(1)] by simp
  ultimately show ?thesis using e safe by (auto simp: Let_def)
qed

text \<open>C25: what Exchange reports is exactly what the authorization server answered, and bounded. Over the tape
  of what passed on the wire in this call (at most two requests): a success is either answered from the
  cache, with no request and a token issued earlier, or is the token of the last response, a 200 with a
  non-empty access token. A failure is the missing-token error; or exchange_unavailable; or
  exchange_rejected with status 502, whose public message is the fixed prefix followed by the error code
  of the last response and nothing else of it (the description never shows). A last response below 500
  that decodes and does not ask for a nonce is always reported as that token or that rejection.\<close>

theorem exchange_outcome:
  assumes "x_get x = x_Cache_Get" and "x_put x = x_Cache_Set" and "x_httpClient x = taping hc"
    and "s = x_calls x (x_new_state leeway a n w) calls"
    and "Exchange x ck req s = (r, s')"
  shows "\<exists>ex. snd (xs_net s') = snd (xs_net s) @ ex \<and> length ex \<le> 2
    \<and> (case r of
         Inr tok \<Rightarrow> tk_AccessToken tok \<noteq> []
           \<and> (ex = [] \<or> (\<exists>rp b. answered hc ex rp b \<and> rp_Status rp = 200 \<and> tok = x_token (ck_token ck) b))
       | Inl err \<Rightarrow> (xr_SubjectToken req = [] \<and> err = ErrorString ''exchange: Request.SubjectToken is required'')
           \<or> (\<exists>cause. err = AuthErr (With ErrExchangeUnavailable cause))
           \<or> (\<exists>rp b. answered hc ex rp b \<and> rp_Status rp < 500 \<and> \<not> (rp_Status rp = 200 \<and> tr_AccessToken b \<noteq> [])
                \<and> err = AuthErr (AuthError ''exchange_rejected''
                    (''token exchange rejected by the authorization server: '' @ tr_Error b) [] 502 None)))
    \<and> (\<forall>rp b. answered hc ex rp b \<and> rp_Status rp < 500 \<and> tr_Error b \<noteq> ''use_dpop_nonce'' \<longrightarrow>
         r = (if rp_Status rp = 200 \<and> tr_AccessToken b \<noteq> [] then Inr (x_token (ck_token ck) b)
              else Inl (rejected_with (tr_Error b))))"
proof -
  let ?G = "set (x_grants x (x_new_state leeway a n w) calls)"
  have prov: "x_memory.all_held (provenance ?G) (xs_cache s)" using x_calls_held [OF assms(1,2)] assms(4) by simp
  show ?thesis
  proof (cases rule: Exchange_cases [where x = x and ck = ck and req = req and s = s])
    case (hit tok c)
    have "provenance ?G (x_key req) tok"
      using x_memory.all_held_answer [OF prov] hit(3) assms(1) by simp
    then have "tk_AccessToken tok \<noteq> []" using x_grants_requests by (fastforce simp: provenance_def)
    with hit assms(5) show ?thesis by auto
  next
    case (failed err c a' n')
    from x_do_taped [OF assms(3) failed(3)] obtain ex
      where "snd n' = snd (xs_net s) @ ex" "length ex \<le> 2" "x_outcome hc (ck_token ck) ex (Inl err)" by blast
    with failed(4) assms(5) show ?thesis by (intro exI [of _ ex]) (auto simp: x_outcome_def rejected_with_def)
  next
    case (issued tok c a' n')
    from x_do_taped [OF assms(3) issued(3)] obtain ex
      where "snd n' = snd (xs_net s) @ ex" "length ex \<le> 2" "x_outcome hc (ck_token ck) ex (Inr tok)" by blast
    with issued(4) assms(5) x_do_nonempty [OF issued(3)] show ?thesis by (intro exI [of _ ex]) (auto simp: x_outcome_def)
  qed (use assms(5) in auto)
qed

lemma demo_denial_do:
  "\<exists>q1 q2 rp. x_do (demo_exchanger (taping (demo_as 400 demo_denial ''n1''))) now f () ((), []) =
    (Inl (Rejected ''use_dpop_nonce'' ''secret''), (), ((), [(q1, Inr rp), (q2, Inr rp)]))"
proof -
  have "decode_tokenResponse (demo_as 400 demo_denial ''n1'') rp =
      Inr (zero_tokenResponse\<lparr>tr_Error := ''use_dpop_nonce'', tr_ErrorDescription := ''secret''\<rparr>)" for rp
    by (simp add: decode_tokenResponse_def demo_as_def demo_denial_def decode_struct_def match_field_def set_tokenResponse_def
        dec_string_def zero_tokenResponse_def)
  then show ?thesis
    unfolding x_do_def numeral_2_eq_2
    by (simp add: x_BasicAuth_def taping_Do Let_def Header_Get_def Header_Values_def CanonicalHeaderKey_DPoP_Nonce)
qed

theorem exchange_outcome_witness:
  "\<exists>s' ex rp b. Exchange (demo_exchanger (taping (demo_as 400 demo_denial ''n1''))) (demo_clock 0) demo_xreq (demo_xstate ((), [])) =
     (Inl (AuthErr (AuthError ''exchange_rejected''
        ''token exchange rejected by the authorization server: use_dpop_nonce'' [] 502 None)), s')
   \<and> answered (demo_as 400 demo_denial ''n1'') ex rp b \<and> tr_Error b = ''use_dpop_nonce'' \<and> snd (xs_net s') = ex \<and> length ex \<le> 2"
proof -
  let ?x = "demo_exchanger (taping (demo_as 400 demo_denial ''n1''))"
  obtain r s' where e: "Exchange ?x (demo_clock 0) demo_xreq (demo_xstate ((), [])) = (r, s')" by fastforce
  have st: "demo_xstate ((), []) = x_calls ?x (x_new_state (30 * second) () ((), []) []) []"
    by (simp add: demo_xstate_new)
  have r: "r = Inl (rejected_with ''use_dpop_nonce'')"
    using e demo_denial_do [of "ck_token (demo_clock 0)" "x_form demo_xreq"]
    by (auto simp: Exchange_def demo_xreq_def demo_xstate_def x_Cache_Get_def x_NewMemoryCache_def Rejected_with)
  obtain ex rp b where "snd (xs_net s') = ex" "length ex \<le> 2" "answered (demo_as 400 demo_denial ''n1'') ex rp b"
    "tr_Error b = ''use_dpop_nonce''"
    using exchange_outcome [where hc = "demo_as 400 demo_denial ''n1''", OF _ _ _ st e] unfolding r
    by (auto simp: demo_xstate_def demo_xreq_def rejected_with_def ErrExchangeUnavailable_def With_def)
  with e show ?thesis unfolding r by (auto simp: rejected_with_def)
qed

text \<open>C26: every exchange with a subject token leaves exactly one audit event, granted on success and denied
  or error on failure, and the event is made of the caller's identity, audience and scopes and of the
  clock: neither the subject token nor the issued token occurs in it.\<close>

theorem exchange_audits_once:
  assumes "x_audit x = Some (\<lambda>e w. w @ [e])" and "xr_SubjectToken req \<noteq> []" and "Exchange x ck req s = (r, s')"
  shows "\<exists>e. xs_sink s' = xs_sink s @ [e] \<and> ev_Action e = ''token_exchange''
    \<and> e = (case r of
        Inr tok \<Rightarrow> zero_event\<lparr>ev_Action := ''token_exchange'', ev_Outcome := ''granted'', ev_Subject := xr_Subject req,
            ev_Audience := xr_Audience req, ev_Scopes := tk_Scopes tok, ev_Time := ck_audit ck\<rparr>
      | Inl err \<Rightarrow> zero_event\<lparr>ev_Action := ''token_exchange'',
            ev_Outcome := (if errors_Is err ErrExchangeRejected then ''denied'' else ''error''),
            ev_ReasonCode := (if errors_Is err ErrExchangeRejected then ''exchange_rejected'' else ''exchange_unavailable''),
            ev_Subject := xr_Subject req, ev_Audience := xr_Audience req, ev_Scopes := xr_Scope req, ev_Time := ck_audit ck\<rparr>)"
  by (cases rule: Exchange_cases [where x = x and ck = ck and req = req and s = s])
    (use assms in \<open>auto simp: x_recordGranted_def x_recordFailure_def x_record_def x_granted_event_def x_failure_event_def Let_def\<close>)

theorem exchange_audits_once_witness:
  "\<exists>s' e. snd (Exchange (demo_exchanger (demo_as 200 demo_grant [])) (demo_clock 7) demo_xreq (demo_xstate ())) = s'
     \<and> xs_sink s' = [e] \<and> ev_Outcome e = ''granted'' \<and> ev_Subject e = ''u''"
proof -
  let ?x = "demo_exchanger (demo_as 200 demo_grant [])"
  obtain s' where e: "Exchange ?x (demo_clock 7) demo_xreq (demo_xstate ()) = (Inr (x_token 7 demo_grant_body), s')"
    using demo_exchange [OF demo_xreq_token] by blast
  have "xr_SubjectToken demo_xreq \<noteq> []" by (simp add: demo_xreq_def)
  from exchange_audits_once [OF _ this e] e show ?thesis
    by (auto simp: demo_xstate_def demo_xreq_def zero_event_def)
qed

text \<open>C27: an issued token expires expires_in seconds after the clock reading, for every lifetime up to
  9223372036 seconds; beyond that the int64 product wraps and the token can count as expired before it
  was issued.\<close>

theorem exchange_token_expiry:
  assumes "sane_time now" and "0 < tr_ExpiresIn b"
  shows "(tr_ExpiresIn b \<le> 9223372036 \<longrightarrow> tk_ExpiresAt (x_token now b) = now + tr_ExpiresIn b * second)
    \<and> (9223372036 < tr_ExpiresIn b \<and> tr_ExpiresIn b \<le> 18446744073 \<longrightarrow> tk_ExpiresAt (x_token now b) < now)"
proof (intro conjI impI)
  let ?e = "tr_ExpiresIn b"
  have exp: "tk_ExpiresAt (x_token now b) = time_Add now (wrap64 (?e * second))" using assms(2) by (simp add: x_token_def)
  have add: "tk_ExpiresAt (x_token now b) = now + wrap64 (?e * second)"
    using exp sane_time_Add [OF assms(1) wrap64_range] by simp
  {
    assume "?e \<le> 9223372036"
    then show "tk_ExpiresAt (x_token now b) = now + ?e * second"
      using add assms(2) by (simp add: wrap64_id in_int64_def)
  next
    assume e: "9223372036 < ?e \<and> ?e \<le> 18446744073"
    have "wrap64 (?e * second) = wrap64 (?e * second - 18446744073709551616)"
    proof -
      have "(?e * second + 9223372036854775808) mod 18446744073709551616
          = (?e * second - 18446744073709551616 + 9223372036854775808) mod 18446744073709551616"
        by (simp add: mod_eq_dvd_iff)
      then show ?thesis by (simp add: wrap64_def)
    qed
    also have "\<dots> = ?e * second - 18446744073709551616" using e by (intro wrap64_id) (simp add: in_int64_def)
    finally show "tk_ExpiresAt (x_token now b) < now" using add e by simp
  }
qed

theorem exchange_token_expiry_witness:
  "tk_ExpiresAt (x_token (unixToInternal * second) demo_grant_body) = unixToInternal * second + 300 * second
   \<and> tk_ExpiresAt (x_token (unixToInternal * second) (demo_grant_body\<lparr>tr_ExpiresIn := 10000000000\<rparr>)) < unixToInternal * second"
  using exchange_token_expiry [of "unixToInternal * second" demo_grant_body]
    exchange_token_expiry [of "unixToInternal * second" "demo_grant_body\<lparr>tr_ExpiresIn := 10000000000\<rparr>"]
  by (simp add: sane_time_def demo_grant_body_def)

text \<open>C24: the client side of the nonce handshake. When the token endpoint demands a DPoP nonce, the one retry
  carries a proof, signed with the same key for the same method and URL, whose payload contains exactly
  the nonce of the first response; the first request carries a proof without a nonce; there is no third.\<close>

theorem dpop_retry_carries_nonce:
  assumes auth: "x_clientAuth x = dpop_Apply lib d" "plain_base (dp_base d)" and hc: "x_httpClient x = logging hc"
    and run: "x_do x now f a (n, qs) = (r, a', n', qs')"
  shows "qs' = qs
    \<or> (\<exists>q. qs' = qs @ [q] \<and> carries_proof lib d (x_tokenURL x) [] q)
    \<or> (\<exists>q1 q2 rp. qs' = qs @ [q1, q2] \<and> carries_proof lib d (x_tokenURL x) [] q1 \<and> fst (hc_Do hc n q1) = Inr rp
         \<and> Header_Get (rp_Header rp) ''DPoP-Nonce'' \<noteq> []
         \<and> carries_proof lib d (x_tokenURL x) (Header_Get (rp_Header rp) ''DPoP-Nonce'') q2)"
proof -
  have run: "x_do_loop x now (Suc 1) f [] a (n, qs) = (r, a', n', qs')" using run by (simp add: x_do_def numeral_2_eq_2)
  obtain u a1 where u: "x_clientAuth x a (new_post (x_tokenURL x) (Values_Encode f)) f [] = (u, a1)" by fastforce
  show ?thesis
  proof (cases "hc_BadURL hc (x_tokenURL x) = None \<and> \<not> isl u")
    case False
    with run u have "qs' = qs" by (cases "hc_BadURL hc (x_tokenURL x)"; cases u) (simp_all add: hc Let_def)
    then show ?thesis ..
  next
    case True
    then obtain q f1 where q: "u = Inr (q, f1)" by (cases u) auto
    have cp: "carries_proof lib d (x_tokenURL x) [] q" using dpop_Apply_proof [OF _ auth(2)] u q auth(1) by metis
    obtain resp n1 where d: "hc_Do hc n q = (resp, n1)" by fastforce
    have dl: "hc_Do (logging hc) (n, qs) q = (resp, n1, qs @ [q])" by (simp add: logging_Do d)
    show ?thesis
    proof (cases "\<exists>rp b. resp = Inr rp \<and> rp_Status rp < 500 \<and> decode_tokenResponse (logging hc) rp = Inr b
        \<and> \<not> (rp_Status rp = 200 \<and> tr_AccessToken b \<noteq> []) \<and> tr_Error b = ''use_dpop_nonce'' \<and> Header_Get (rp_Header rp) ''DPoP-Nonce'' \<noteq> []")
      case False
      with run u q True dl have "qs' = qs @ [q]"
        by (auto simp: hc Let_def not_le split: sum.splits if_splits)
      with cp show ?thesis by blast
    next
      case True
      then obtain rp where rp: "resp = Inr rp" "Header_Get (rp_Header rp) ''DPoP-Nonce'' \<noteq> []"
        and retry: "x_do_loop x now 1 f1 (Header_Get (rp_Header rp) ''DPoP-Nonce'') a1 (n1, qs @ [q]) = (r, a', n', qs')"
        using run u q \<open>hc_BadURL hc (x_tokenURL x) = None \<and> \<not> isl u\<close> dl by (auto simp: hc Let_def)
      from x_do_loop_last [OF auth hc retry] cp d rp show ?thesis by auto
    qed
  qed
qed

definition demo_dpop_lib :: "(unit, unit, unit, unit) dpop_lib" where
  "demo_dpop_lib = \<lparr>dl_GenerateKey = (\<lambda>a. (Inr (), a)), dl_FromRaw = (\<lambda>r. Inr ()), dl_SetAlgorithm = (\<lambda>k alg. Inr k), dl_PublicKey = (\<lambda>k. Inr ()),
     dl_Marshal = (\<lambda>j. Inr ''payload''), dl_Sign = (\<lambda>p k h. Inr ''proof''), dl_draw = (\<lambda>a. ((Inr ''jti'', 0), a)), dl_URLString = (\<lambda>u. u)\<rparr>"

definition demo_dpop_exchanger :: "(token ttl_cache, unit, unit \<times> out_request list, event list) exchanger" where
  "demo_dpop_exchanger = (demo_exchanger (logging (demo_as 400 demo_denial ''n1'')))
     \<lparr>x_clientAuth := dpop_Apply demo_dpop_lib \<lparr>dp_base = None, dp_key = ()\<rparr>\<rparr>"

theorem dpop_retry_carries_nonce_witness:
  "\<exists>r n' q1 q2. x_do demo_dpop_exchanger 0 [] () ((), []) = (r, (), n', [q1, q2])
     \<and> carries_proof demo_dpop_lib \<lparr>dp_base = None, dp_key = ()\<rparr> ''https://as/token'' ''n1'' q2"
proof -
  let ?hc = "demo_as 400 demo_denial ''n1''" and ?d = "\<lparr>dp_base = None, dp_key = ()\<rparr>"
  have dec: "decode_tokenResponse (logging ?hc) rp = Inr (zero_tokenResponse\<lparr>tr_Error := ''use_dpop_nonce'', tr_ErrorDescription := ''secret''\<rparr>)" for rp
    by (simp add: decode_tokenResponse_def demo_as_def demo_denial_def decode_struct_def match_field_def set_tokenResponse_def
        dec_string_def zero_tokenResponse_def)
  have x: "x_clientAuth demo_dpop_exchanger = dpop_Apply demo_dpop_lib ?d" "x_httpClient demo_dpop_exchanger = logging ?hc"
    "x_tokenURL demo_dpop_exchanger = ''https://as/token''"
    by (simp_all add: demo_dpop_exchanger_def demo_exchanger_def)
  obtain r n' qs' where run: "x_do demo_dpop_exchanger 0 [] () ((), []) = (r, (), n', qs')" by (metis prod.exhaust unit.exhaust)
  have len: "length qs' = 2"
    using run unfolding x_do_def numeral_2_eq_2
    by (auto simp: x dec logging_Do Let_def Header_Get_def Header_Values_def CanonicalHeaderKey_DPoP_Nonce dpop_Apply_def dpop_proof_def
        demo_dpop_lib_def zero_tokenResponse_def)
  have "plain_base (dp_base ?d)" by (simp add: plain_base_def)
  from dpop_retry_carries_nonce [OF x(1) this x(2) run] len obtain q1 q2 rp
    where q: "qs' = [q1, q2]" "fst (hc_Do ?hc () q1) = Inr rp"
      "carries_proof demo_dpop_lib ?d (x_tokenURL demo_dpop_exchanger) (Header_Get (rp_Header rp) ''DPoP-Nonce'') q2" by auto
  then have "Header_Get (rp_Header rp) ''DPoP-Nonce'' = ''n1''"
    by (auto simp: Header_Get_def Header_Values_def CanonicalHeaderKey_DPoP_Nonce)
  with run q x(3) show ?thesis by auto
qed

end
