(* ===== verification/Server.thy ===== *)
theory Server
  imports HTTP Introspection Exchange
begin

text \<open>
  A server assembled from the library: the HTTP middleware with a token validator, DPoP with the
  in-memory replay cache, and an application behind it. The application sees requests and its own state
  only; what it was asked to serve is kept in a log. A state of the server is reachable by requests that
  are handled one after the other on one clock (the caches' mutexes make concurrent requests so ordered).
\<close>

section \<open>Runs of a server\<close>

record served =
  sv_request :: http_request
  sv_enforce :: time
  sv_cache :: time

definition recording :: "(http_request \<Rightarrow> response \<Rightarrow> 'a \<Rightarrow> response \<times> 'a) \<Rightarrow> request_env
    \<Rightarrow> ('v, 'd, 'l, served list \<times> 'a) http_world handler" where
  "recording app env r w hw =
     (case hw_app hw of (served_log, a) \<Rightarrow>
        (case app r w a of (w', a') \<Rightarrow>
           (w', hw\<lparr>hw_app := (served_log @ [\<lparr>sv_request = r, sv_enforce = re_enforce env, sv_cache = re_cache env\<rparr>], a')\<rparr>)))"

text \<open>
  \<open>val c t\<close> is the validator at the clock readings \<open>c\<close> and \<open>t\<close>; the time of a state is the last reading of
  the replay cache's clock.
\<close>

inductive server :: "'key jose \<Rightarrow> dpop_std \<Rightarrow> ('v, memory_replay, 'l) middleware_config \<Rightarrow> (time \<Rightarrow> time \<Rightarrow> 'v validate_fn)
    \<Rightarrow> (http_request \<Rightarrow> response \<Rightarrow> 'a \<Rightarrow> response \<times> 'a) \<Rightarrow> 'v
    \<Rightarrow> time \<Rightarrow> ('v, memory_replay, 'l, served list \<times> 'a) http_world \<Rightarrow> bool"
  for jo std cfg val app v0 where
  start: "hw_validator hw = v0 \<Longrightarrow> hw_replay hw = NewMemoryReplayCache \<Longrightarrow> fst (hw_app hw) = [] \<Longrightarrow>
    server jo std cfg val app v0 t hw"
| request: "server jo std cfg val app v0 t hw \<Longrightarrow> t \<le> re_enforce env \<Longrightarrow> re_enforce env \<le> re_cache env \<Longrightarrow>
    serve jo std cfg (val vc vt) env (recording app env) r w hw = (resp, hw') \<Longrightarrow>
    server jo std cfg val app v0 (re_cache env) hw'"

abbreviation served_log :: "('v, 'd, 'l, served list \<times> 'a) http_world \<Rightarrow> served list" where
  "served_log hw \<equiv> fst (hw_app hw)"

text \<open>A request served with a bound token, and its proof.\<close>

definition served_bound :: "served \<Rightarrow> bool" where
  "served_bound e \<longleftrightarrow> (\<exists>c. ClaimsFrom (rq_Context (sv_request e)) = Some c \<and> Confirmation c \<noteq> [])"

definition served_proofs :: "served \<Rightarrow> string list" where
  "served_proofs e = Header_Values (rq_Header (sv_request e)) ''DPoP''"

section \<open>One request\<close>

lemma serve_validator_state:
  assumes "serve jo std cfg validate env (recording app env') r w hw = (resp, hw')"
  shows "hw_validator hw' = hw_validator hw \<or> (\<exists>b. hw_validator hw' = snd (validate (hw_validator hw) (rq_Context r) b))"
  using assms
  by (auto simp: serve_def recording_def writeAuthError_def Let_def split: sum.splits prod.splits option.splits if_splits)
    (metis snd_conv)+

lemma serve_replay_state:
  assumes "serve jo std cfg validate env (recording app env') r w hw = (resp, hw')"
  shows "hw_replay hw' = hw_replay hw \<or> (\<exists>bearer c. hw_replay hw' = snd (dpop_step jo std cfg env r bearer c (hw_replay hw)))"
  using assms
  by (auto simp: serve_def recording_def writeAuthError_def Let_def split: sum.splits prod.splits option.splits if_splits)
    (metis snd_conv)+

lemma serve_log:
  assumes "serve jo std cfg validate env (recording app env) r w hw = (resp, hw')"
  obtains (admit) bearer c where "admitted jo std cfg validate env r hw bearer c (hw'\<lparr>hw_app := hw_app hw\<rparr>)"
      and "served_log hw' = served_log hw @ [\<lparr>sv_request = downstream r bearer c, sv_enforce = re_enforce env, sv_cache = re_cache env\<rparr>]"
  | (deny) "served_log hw' = served_log hw"
proof (cases rule: serve_cases [where jo = jo and std = std and cfg = cfg and validate = validate and env = env and r = r and hw = hw and w = w])
  case (admit bearer c hw1)
  obtain a where a: "hw_app hw = (served_log hw, a)" by (metis prod.collapse)
  have app: "hw_app hw1 = hw_app hw" using admit by (simp add: admitted_def)
  have "hw'\<lparr>hw_app := hw_app hw\<rparr> = hw1"
    using assms app a unfolding serve_admitted [OF admit] by (auto simp: recording_def split: prod.splits)
  moreover have "served_log hw' = served_log hw @ [\<lparr>sv_request = downstream r bearer c, sv_enforce = re_enforce env, sv_cache = re_cache env\<rparr>]"
    using assms app a unfolding serve_admitted [OF admit] by (auto simp: recording_def split: prod.splits)
  ultimately show ?thesis using that(1) admit by metis
next
  case (deny err w' hw1)
  then have "hw' = snd (writeAuthError cfg err w' hw1)" using assms by simp
  with deny have "hw_app hw' = hw_app hw" by (simp add: writeAuthError_def split: option.splits)
  then show ?thesis using that(2) by simp
qed

text \<open>An admitted request extends a run.\<close>

lemma server_admit:
  assumes "server jo std cfg val app v0 t hw" and "t \<le> re_enforce env" and "re_enforce env \<le> re_cache env"
    and "admitted jo std cfg (val vc vt) env r hw b c hw1"
  obtains hw' where "server jo std cfg val app v0 (re_cache env) hw'"
    and "served_log hw' = served_log hw @ [\<lparr>sv_request = downstream r b c, sv_enforce = re_enforce env, sv_cache = re_cache env\<rparr>]"
    and "hw_validator hw' = hw_validator hw1" "hw_replay hw' = hw_replay hw1" "hw_limiter hw' = hw_limiter hw1"
proof -
  obtain resp hw' where run: "serve jo std cfg (val vc vt) env (recording app env) r new_response hw = (resp, hw')" by fastforce
  obtain l a where a: "hw_app hw = (l, a)" by fastforce
  have app: "hw_app hw1 = hw_app hw" using assms(4) by (simp add: admitted_def)
  show ?thesis
    by (rule that [OF server.request [OF assms(1-3) run]])
      (use run app a in \<open>auto simp: serve_admitted [OF assms(4)] recording_def split: prod.splits\<close>)
qed

section \<open>Every served request was vouched for\<close>

text \<open>The dpop check of an admitted request, in Require mode.\<close>

lemma dpop_step_required:
  assumes "fst (dpop_step jo std cfg env r bearer c st) = None" and "mc_DPoP cfg = Some dv" and "dv_mode dv = Require \<or> Confirmation c \<noteq> []"
  shows "\<exists>p key alg pc. Header_Values (rq_Header r) ''DPoP'' = [p]
    \<and> holder_proof jo std dv p (dpop_input_of r (mc_BaseURL cfg) bearer c) (re_enforce env) key alg pc \<and> nonce_ok dv (re_enforce env) pc"
proof -
  let ?inp = "dpop_input_of r (mc_BaseURL cfg) bearer c"
  obtain st' where e: "Enforce jo std dv ?inp (re_enforce env) (re_cache env) st = (None, st')"
    using assms(1,2) by (simp add: dpop_step_def) (metis prod.collapse)
  then have "in_BoundJKT ?inp \<noteq> []" using assms(3) by (auto simp: Enforce_def dpop_input_of_def split: if_splits)
  with e show ?thesis by (rule Enforce_accepted) (auto simp: dpop_input_of_def)
qed

text \<open>
  What the log says of a served request: claims and token on the context, vouched for by the
  introspection endpoint, and a proof of possession when one is due.
\<close>

definition entry_vouched :: "'key jose \<Rightarrow> dpop_std \<Rightarrow> ('v, 'd, 'l) middleware_config \<Rightarrow> (string \<Rightarrow> claims \<Rightarrow> bool) \<Rightarrow> served \<Rightarrow> bool" where
  "entry_vouched jo std cfg vouches e \<longleftrightarrow>
     (\<exists>b c. ClaimsFrom (rq_Context (sv_request e)) = Some c \<and> RawTokenFrom (rq_Context (sv_request e)) = Some b
        \<and> b \<noteq> [] \<and> vouches b c
        \<and> (\<forall>dv. mc_DPoP cfg = Some dv \<longrightarrow> dv_mode dv = Require \<or> Confirmation c \<noteq> [] \<longrightarrow>
             (\<exists>p key alg pc. served_proofs e = [p] \<and> nonce_ok dv (sv_enforce e) pc
                \<and> holder_proof jo std dv p (dpop_input_of (sv_request e) (mc_BaseURL cfg) b c) (sv_enforce e) key alg pc)))"

lemma dpop_input_of_downstream [simp]: "dpop_input_of (downstream r b c) = dpop_input_of r"
  by (intro ext) (simp add: dpop_input_of_def requestURL_def downstream_def)

lemma entry_vouchedI:
  assumes "vouches b c" and "b \<noteq> []" and d: "fst (dpop_step jo std cfg env r b c st) = None"
  shows "entry_vouched jo std cfg vouches \<lparr>sv_request = downstream r b c, sv_enforce = re_enforce env, sv_cache = re_cache env\<rparr>"
proof -
  have "served_proofs \<lparr>sv_request = downstream r b c, sv_enforce = t, sv_cache = u\<rparr> = Header_Values (rq_Header r) ''DPoP''" for t u
    by (simp add: served_proofs_def downstream_def)
  then show ?thesis
    unfolding entry_vouched_def using assms(1,2) dpop_step_required [OF d]
    by (intro exI [of _ b] exI [of _ c]) (simp, blast)
qed

lemma entry_vouched_mono:
  "entry_vouched jo std cfg V e \<Longrightarrow> (\<And>b c. V b c \<Longrightarrow> W b c) \<Longrightarrow> entry_vouched jo std cfg W e"
  unfolding entry_vouched_def by blast

text \<open>What the endpoint said on the wire, up to the digest of the token.\<close>

definition taped :: "(string \<Rightarrow> string) \<Rightarrow> ('c, 'a, 'n) intro_validator \<Rightarrow> exchange_log \<Rightarrow> string \<Rightarrow> claims \<Rightarrow> bool" where
  "taped sha v log b c \<longleftrightarrow> (\<exists>b'. intro_cacheKey sha b' = intro_cacheKey sha b \<and> on_tape v log b' c)"

lemma taped_mono: "taped sha v U b c \<Longrightarrow> set U \<subseteq> set W \<Longrightarrow> taped sha v W b c"
  unfolding taped_def using on_tape_mono by blast

lemma serve_tape:
  assumes "library_cache v" and hc: "iv_httpClient v = taping hc" and inv: "tape_inv sha v (hw_validator hw)"
    and run: "serve jo std cfg (intro_Validate sha v vc vt) env (recording app env) r w hw = (resp, hw')"
  shows "tape_inv sha v (hw_validator hw')" and "set (tape (hw_validator hw)) \<subseteq> set (tape (hw_validator hw'))"
    and "\<forall>e \<in> set (served_log hw') - set (served_log hw). entry_vouched jo std cfg (taped sha v (tape (hw_validator hw'))) e"
proof -
  show "tape_inv sha v (hw_validator hw')"
    using serve_validator_state [OF run] inv tape_step(1) [OF assms(1) hc inv] by (metis prod.collapse)
  show "set (tape (hw_validator hw)) \<subseteq> set (tape (hw_validator hw'))"
    using serve_validator_state [OF run] intro_Validate_tape [OF hc] by force
  show "\<forall>e \<in> set (served_log hw') - set (served_log hw). entry_vouched jo std cfg (taped sha v (tape (hw_validator hw'))) e"
  proof (cases rule: serve_log [OF run])
    case (1 bearer c)
    then have call: "intro_Validate sha v vc vt (hw_validator hw) (rq_Context r) bearer = (Inr c, hw_validator hw')"
      and d: "fst (dpop_step jo std cfg env r bearer c (hw_replay hw)) = None" by (simp_all add: admitted_def)
    have "taped sha v (tape (hw_validator hw')) bearer c"
      unfolding taped_def using tape_step(2) [OF assms(1) hc inv call refl] .
    from entry_vouchedI [where vouches = "taped sha v (tape (hw_validator hw'))", OF this introspection.accepted_nonempty [OF call] d] 1(2)
    show ?thesis by auto
  qed simp
qed

lemma server_introspection_inv:
  assumes "server jo std cfg (intro_Validate sha v) app v0 t hw" and "library_cache v" "iv_httpClient v = taping hc" "tape_inv sha v v0"
  shows "tape_inv sha v (hw_validator hw)
    \<and> (\<forall>e \<in> set (served_log hw). entry_vouched jo std cfg (taped sha v (tape (hw_validator hw))) e)"
  using assms(1)
proof induction
  case (request t hw env vc vt r w resp hw')
  then have inv: "tape_inv sha v (hw_validator hw)" by simp
  note step = serve_tape [OF assms(2,3) inv request.hyps(4)]
  have "entry_vouched jo std cfg (taped sha v (tape (hw_validator hw'))) e" if "e \<in> set (served_log hw)" for e
    by (rule entry_vouched_mono [where V = "taped sha v (tape (hw_validator hw))"]) (use request.IH that taped_mono step(2) in blast)+
  with step show ?case by blast
qed (simp add: assms(4))

section \<open>Every proof is served once\<close>

text \<open>
  The proof of an entry is remembered: for as long as it does not expire, the cache holds it.
\<close>

definition remembered :: "'key jose \<Rightarrow> dpop_std \<Rightarrow> 'd dpop_verifier \<Rightarrow> memory_replay \<Rightarrow> time \<Rightarrow> served \<Rightarrow> bool" where
  "remembered jo std dv st t e \<longleftrightarrow>
     (served_bound e \<longrightarrow>
       (\<exists>p pc. served_proofs e = [p] \<and> proof_claims jo std p = Some pc
          \<and> (\<forall>u. t \<le> u \<longrightarrow> u < proof_expiry dv pc \<longrightarrow> mem_live st u (pc_JTI pc) (stripURL std (pc_HTU pc)))))"

text \<open>A later entry with the same proof comes no earlier than the expiry of the first one's record.\<close>

definition apart :: "'key jose \<Rightarrow> dpop_std \<Rightarrow> 'd dpop_verifier \<Rightarrow> served \<Rightarrow> served \<Rightarrow> bool" where
  "apart jo std dv e e' \<longleftrightarrow>
     (served_bound e \<longrightarrow> served_bound e' \<longrightarrow> served_proofs e' = served_proofs e \<longrightarrow>
       (\<exists>p pc. served_proofs e = [p] \<and> proof_claims jo std p = Some pc \<and> proof_expiry dv pc \<le> sv_cache e'
          \<and> in_window dv (sv_enforce e') (time_Unix (pc_IAT pc))))"

lemma served_bound_downstream:
  "served_bound \<lparr>sv_request = downstream r b c, sv_enforce = t, sv_cache = u\<rparr> \<longleftrightarrow> Confirmation c \<noteq> []"
  by (simp add: served_bound_def)

lemma dpop_step_keeps:
  assumes "mc_DPoP cfg = Some dv" and "dv_replay dv = SeenBefore" and "wf_gomap (seen st)"
  shows "wf_gomap (seen (snd (dpop_step jo std cfg env r b c st)))
    \<and> (mem_live st u jti htu \<longrightarrow> re_cache env \<le> u \<longrightarrow> mem_live (snd (dpop_step jo std cfg env r b c st)) u jti htu)"
proof -
  let ?inp = "dpop_input_of r (mc_BaseURL cfg) b c"
  have "wf_gomap (seen (snd (Enforce jo std dv ?inp (re_enforce env) (re_cache env) st)))"
    using Enforce_state [of jo std dv ?inp "re_enforce env" "re_cache env" st] assms(2,3) memory_replay.keeps_invar by metis
  then show ?thesis
    using memory_replay.enforce_calls_persist [OF assms(2,3), of u jti htu "[(?inp, re_enforce env, re_cache env)]" jo std] assms(1)
    by (simp add: dpop_step_def)
qed

lemma remembered_mono:
  assumes "remembered jo std dv st t e" and "t \<le> t'"
    and "\<And>u jti htu. mem_live st u jti htu \<Longrightarrow> t' \<le> u \<Longrightarrow> mem_live st' u jti htu"
  shows "remembered jo std dv st' t' e"
  using assms unfolding remembered_def by (meson order_trans)

lemma dpop_step_records:
  assumes dv: "mc_DPoP cfg = Some dv" "dv_replay dv = SeenBefore" and wf: "wf_gomap (seen st)"
    and step: "dpop_step jo std cfg env r b c st = (None, st')" and bound: "Confirmation c \<noteq> []"
  obtains p pc where "Header_Values (rq_Header r) ''DPoP'' = [p]" and "proof_claims jo std p = Some pc"
    and "in_window dv (re_enforce env) (time_Unix (pc_IAT pc))"
    and "\<not> mem_live st (re_cache env) (pc_JTI pc) (stripURL std (pc_HTU pc))"
    and "\<And>u. re_cache env \<le> u \<Longrightarrow> u < proof_expiry dv pc \<Longrightarrow> mem_live st' u (pc_JTI pc) (stripURL std (pc_HTU pc))"
proof -
  let ?inp = "dpop_input_of r (mc_BaseURL cfg) b c"
  have e: "Enforce jo std dv ?inp (re_enforce env) (re_cache env) st = (None, st')"
    using step dv by (simp add: dpop_step_def)
  have "in_BoundJKT ?inp \<noteq> []" using bound by (simp add: dpop_input_of_def)
  from Enforce_accepted [OF e this] obtain p key alg pc where p: "in_Proofs ?inp = [p]"
    and h: "holder_proof jo std dv p ?inp (re_enforce env) key alg pc"
    and rec: "record_proof std dv pc (re_cache env) st = (False, st')" by metis
  let ?j = "pc_JTI pc" and ?h = "stripURL std (pc_HTU pc)"
  have sb: "SeenBefore st (re_cache env) ?j ?h (proof_expiry dv pc) = (False, st')"
    using rec dv(2) by (simp add: record_proof_def)
  then have nl: "\<not> mem_live st (re_cache env) ?j ?h"
    using memory_replay.answers [OF wf, of "re_cache env" ?j ?h "proof_expiry dv pc"] by simp
  show ?thesis
  proof (rule that [OF _ holder_proof_claims [OF h] holder_proof_window [OF h] nl])
    show "Header_Values (rq_Header r) ''DPoP'' = [p]" using p by (simp add: dpop_input_of_def)
    show "mem_live st' u ?j ?h" if "re_cache env \<le> u" "u < proof_expiry dv pc" for u
      using memory_replay.records [OF wf nl that] sb by simp
  qed
qed

lemma served_proofs_downstream:
  "served_proofs \<lparr>sv_request = downstream r b c, sv_enforce = t, sv_cache = u\<rparr> = Header_Values (rq_Header r) ''DPoP''"
  by (simp add: served_proofs_def downstream_def)

text \<open>Serving one more request: the new entry is remembered, and apart from every earlier one.\<close>

lemma served_entry:
  assumes dv: "mc_DPoP cfg = Some dv" "dv_replay dv = SeenBefore" and wf: "wf_gomap (seen st)"
    and step: "dpop_step jo std cfg env r b c st = (None, st')" and t: "t \<le> re_enforce env" "re_enforce env \<le> re_cache env"
    and e: "e = \<lparr>sv_request = downstream r b c, sv_enforce = re_enforce env, sv_cache = re_cache env\<rparr>"
  shows "remembered jo std dv st' (re_cache env) e"
    and "remembered jo std dv st t e0 \<Longrightarrow> apart jo std dv e0 e"
proof -
  have be: "served_bound e \<Longrightarrow> Confirmation c \<noteq> []" by (simp add: e served_bound_downstream)
  have pe: "served_proofs e = Header_Values (rq_Header r) ''DPoP''" by (simp add: e served_proofs_downstream)
  show "remembered jo std dv st' (re_cache env) e"
    unfolding remembered_def pe
  proof
    assume "served_bound e"
    from dpop_step_records [OF dv wf step be [OF this]]
    show "\<exists>p pc. Header_Values (rq_Header r) ''DPoP'' = [p] \<and> proof_claims jo std p = Some pc
      \<and> (\<forall>u. re_cache env \<le> u \<longrightarrow> u < proof_expiry dv pc \<longrightarrow> mem_live st' u (pc_JTI pc) (stripURL std (pc_HTU pc)))"
      by metis
  qed
  assume r0: "remembered jo std dv st t e0"
  show "apart jo std dv e0 e"
    unfolding apart_def
  proof (intro impI)
    assume b0: "served_bound e0" and b: "served_bound e" and same: "served_proofs e = served_proofs e0"
    from dpop_step_records [OF dv wf step be [OF b]] obtain p pc
      where p: "served_proofs e = [p]" "proof_claims jo std p = Some pc"
        and w: "in_window dv (re_enforce env) (time_Unix (pc_IAT pc))"
        and nl: "\<not> mem_live st (re_cache env) (pc_JTI pc) (stripURL std (pc_HTU pc))"
      by (metis pe)
    from r0 b0 same p have "\<forall>u. t \<le> u \<longrightarrow> u < proof_expiry dv pc \<longrightarrow> mem_live st u (pc_JTI pc) (stripURL std (pc_HTU pc))"
      unfolding remembered_def by auto
    then have "proof_expiry dv pc \<le> re_cache env" using nl t by (meson not_less order_trans)
    moreover have "sv_cache e = re_cache env" "sv_enforce e = re_enforce env" by (simp_all add: e)
    ultimately show "\<exists>p pc. served_proofs e0 = [p] \<and> proof_claims jo std p = Some pc \<and> proof_expiry dv pc \<le> sv_cache e
        \<and> in_window dv (sv_enforce e) (time_Unix (pc_IAT pc))"
      using p same w by (intro exI [of _ p] exI [of _ pc]) simp
  qed
qed

lemma server_replay_inv:
  assumes "server jo std cfg val app v0 t hw" and dv: "mc_DPoP cfg = Some dv" "dv_replay dv = SeenBefore"
  shows "wf_gomap (seen (hw_replay hw)) \<and> list_all (remembered jo std dv (hw_replay hw) t) (served_log hw)
    \<and> sorted_wrt (apart jo std dv) (served_log hw)"
  using assms(1)
proof induction
  case (start hw t)
  then show ?case by (simp add: NewMemoryReplayCache_def wf_gomap_def)
next
  case (request t hw env vc vt r w resp hw')
  let ?st = "hw_replay hw" and ?st' = "hw_replay hw'"
  have le: "t \<le> re_cache env" using request.hyps by simp
  have wf: "wf_gomap (seen ?st)" using request.IH by simp
  have keeps: "wf_gomap (seen ?st')" "\<And>u jti htu. mem_live ?st u jti htu \<Longrightarrow> re_cache env \<le> u \<Longrightarrow> mem_live ?st' u jti htu"
    using serve_replay_state [OF request.hyps(4)] dpop_step_keeps [OF dv wf] wf by metis+
  have old: "list_all (remembered jo std dv ?st' (re_cache env)) (served_log hw)"
    using request.IH remembered_mono [OF _ le keeps(2), of jo std dv] by (auto simp: list_all_iff)
  show ?case
  proof (cases rule: serve_log [OF request.hyps(4)])
    case (1 b c)
    let ?e = "\<lparr>sv_request = downstream r b c, sv_enforce = re_enforce env, sv_cache = re_cache env\<rparr>"
    have "dpop_step jo std cfg env r b c ?st = (None, ?st')" using 1(1) by (simp add: admitted_def)
    note new = served_entry [OF dv wf this request.hyps(2,3) refl]
    have "\<forall>e0 \<in> set (served_log hw). apart jo std dv e0 ?e" using request.IH new(2) by (auto simp: list_all_iff)
    with keeps old new(1) 1(2) request.IH show ?thesis by (simp add: sorted_wrt_append)
  next
    case 2
    with keeps old request.IH show ?thesis by simp
  qed
qed

end
