(* ===== verification/Go_JSON_Text.thy ===== *)
theory Go_JSON_Text
  imports Go_Net Base64
begin

text \<open>
  The text level of encoding/json: the scanner and string decoder behind Unmarshal, and the encoder
  behind Marshal.
\<close>

section \<open>UTF-8\<close>

text \<open>
  How \<open>utf8.DecodeRune\<close> reads the rune a string starts with: the number of bytes the first byte asks
  for (0 for an invalid one), the range of the second byte, and the length of the rune, 0 when it is invalid
  or cut short.
\<close>

definition utf8_need :: "nat \<Rightarrow> nat" where
  "utf8_need x =
     (if x < 0x80 then 1 else if 0xC2 \<le> x \<and> x \<le> 0xDF then 2 else if 0xE0 \<le> x \<and> x \<le> 0xEF then 3
      else if 0xF0 \<le> x \<and> x \<le> 0xF4 then 4 else 0)"

definition continuation :: "nat \<Rightarrow> string \<Rightarrow> bool" where
  "continuation x bs =
     (case bs of
        [] \<Rightarrow> True
      | b # r \<Rightarrow>
          (if x = 0xE0 then 0xA0 else if x = 0xF0 then 0x90 else 0x80) \<le> byte b
          \<and> byte b \<le> (if x = 0xED then 0x9F else if x = 0xF4 then 0x8F else 0xBF)
          \<and> list_all (\<lambda>c. 0x80 \<le> byte c \<and> byte c \<le> 0xBF) r)"

definition utf8_len :: "string \<Rightarrow> nat" where
  "utf8_len s =
     (case s of
        [] \<Rightarrow> 0
      | a # t \<Rightarrow>
          (let n = utf8_need (byte a) in
           if n = 0 \<or> length s < n \<or> \<not> continuation (byte a) (take (n - 1) t) then 0 else n))"

definition replacement :: string where
  "replacement = [CHR 0xEF, CHR 0xBF, CHR 0xBD]"

definition EncodeRune :: "nat \<Rightarrow> string" where
  "EncodeRune r =
     (if r < 0x80 then [char_of r]
      else if r < 0x800 then [char_of (0xC0 + r div 64), char_of (0x80 + r mod 64)]
      else if r < 0x10000 then [char_of (0xE0 + r div 4096), char_of (0x80 + r div 64 mod 64), char_of (0x80 + r mod 64)]
      else [char_of (0xF0 + r div 262144), char_of (0x80 + r div 4096 mod 64), char_of (0x80 + r div 64 mod 64), char_of (0x80 + r mod 64)])"

section \<open>Strings\<close>

text \<open>The four hexadecimal digits of a \<open>\u\<close> escape.\<close>

definition getu4 :: "string \<Rightarrow> nat option" where
  "getu4 s =
     (case map hex_value (take 4 s) of
        [Some a, Some b, Some c, Some d] \<Rightarrow> Some (a * 4096 + b * 256 + c * 16 + d)
      | _ \<Rightarrow> None)"

text \<open>
  What follows a backslash: the bytes it stands for and how many characters it takes. A surrogate is
  combined with a second escape when the two make a pair, and replaced otherwise.
\<close>

definition json_escape :: "string \<Rightarrow> (string \<times> nat) option" where
  "json_escape s =
     (case s of
        [] \<Rightarrow> None
      | c # t \<Rightarrow>
          (if c = CHR 0x22 \<or> c = CHR 0x5C \<or> c = CHR ''/'' then Some ([c], 1)
           else if c = CHR ''b'' then Some ([CHR 0x08], 1)
           else if c = CHR ''f'' then Some ([CHR 0x0C], 1)
           else if c = CHR ''n'' then Some ([CHR 0x0A], 1)
           else if c = CHR ''r'' then Some ([CHR 0x0D], 1)
           else if c = CHR ''t'' then Some ([CHR 0x09], 1)
           else if c = CHR ''u'' then
             (case getu4 t of
                None \<Rightarrow> None
              | Some r \<Rightarrow>
                  (if 0xD800 \<le> r \<and> r \<le> 0xDFFF then
                     (case (if take 2 (drop 4 t) = [CHR 0x5C, CHR ''u''] then getu4 (drop 6 t) else None) of
                        Some r2 \<Rightarrow>
                          (if r \<le> 0xDBFF \<and> 0xDC00 \<le> r2 \<and> r2 \<le> 0xDFFF
                           then Some (EncodeRune (0x10000 + (r - 0xD800) * 1024 + (r2 - 0xDC00)), 11)
                           else Some (replacement, 5))
                      | None \<Rightarrow> Some (replacement, 5))
                   else Some (EncodeRune r, 5)))
           else None))"

lemma escape_pos: "json_escape s = Some (out, n) \<Longrightarrow> 0 < n"
  by (auto simp: json_escape_def split: list.splits if_splits option.splits)

text \<open>From after the opening quote: the decoded string and what follows the closing quote.\<close>

function (sequential) unquote :: "string \<Rightarrow> (string \<times> string) option" where
  "unquote [] = None"
| "unquote (c # cs) =
     (if c = CHR 0x22 then Some ([], cs)
      else if byte c < 0x20 then None
      else if c = CHR 0x5C then
        (case json_escape cs of
           None \<Rightarrow> None
         | Some (out, n) \<Rightarrow> map_option (\<lambda>(s, r). (out @ s, r)) (unquote (drop n cs)))
      else if utf8_len (c # cs) = 0 then map_option (\<lambda>(s, r). (replacement @ s, r)) (unquote cs)
      else map_option (\<lambda>(s, r). (take (utf8_len (c # cs)) (c # cs) @ s, r)) (unquote (drop (utf8_len (c # cs)) (c # cs))))"
  by pat_completeness auto
termination
  by (relation "measure length") (auto dest: escape_pos)

section \<open>Numbers\<close>

definition scan_digits :: "string \<Rightarrow> string \<times> string" where
  "scan_digits s = (takeWhile is_digit s, dropWhile is_digit s)"

definition scan_int :: "string \<Rightarrow> (string \<times> string) option" where
  "scan_int s =
     (case s of
        [] \<Rightarrow> None
      | c # cs \<Rightarrow>
          (if c = CHR ''0'' then Some ([c], cs)
           else if is_digit c then Some (scan_digits s)
           else None))"

definition scan_frac :: "string \<Rightarrow> (string \<times> string) option" where
  "scan_frac s =
     (case s of
        c # cs \<Rightarrow>
          (if c = CHR ''.'' then (case scan_digits cs of (d, r) \<Rightarrow> if d = [] then None else Some (c # d, r)) else Some ([], s))
      | [] \<Rightarrow> Some ([], []))"

text \<open>An optional sign.\<close>

definition scan_sign :: "string \<Rightarrow> string \<Rightarrow> string" where
  "scan_sign cs s = (case s of x # _ \<Rightarrow> if x \<in> set cs then [x] else [] | [] \<Rightarrow> [])"

definition scan_exp :: "string \<Rightarrow> (string \<times> string) option" where
  "scan_exp s =
     (case s of
        c # cs \<Rightarrow>
          (if c = CHR ''e'' \<or> c = CHR ''E'' then
             (case scan_digits (drop (length (scan_sign ''+-'' cs)) cs) of
                (d, r) \<Rightarrow> if d = [] then None else Some (c # scan_sign ''+-'' cs @ d, r))
           else Some ([], s))
      | [] \<Rightarrow> Some ([], []))"

definition scan_number :: "string \<Rightarrow> (string \<times> string) option" where
  "scan_number s =
     (case scan_int (drop (length (scan_sign ''-'' s)) s) of
        None \<Rightarrow> None
      | Some (i, r) \<Rightarrow>
     (case scan_frac r of
        None \<Rightarrow> None
      | Some (f, r) \<Rightarrow>
     (case scan_exp r of
        None \<Rightarrow> None
      | Some (e, r) \<Rightarrow> Some (scan_sign ''-'' s @ i @ f @ e, r))))"

section \<open>Values\<close>

definition json_space :: "char \<Rightarrow> bool" where
  "json_space c \<longleftrightarrow> c = CHR '' '' \<or> c = CHR 0x09 \<or> c = CHR 0x0D \<or> c = CHR 0x0A"

definition skip_space :: "string \<Rightarrow> string" where
  "skip_space s = dropWhile json_space s"

text \<open>
  The parser: \<open>d\<close> is the nesting still allowed; the first argument is fuel, and any amount above twice
  the length of the input is enough (lemma \<open>json_Parse_fuel\<close> below).
\<close>

fun p_value :: "nat \<Rightarrow> nat \<Rightarrow> string \<Rightarrow> (json \<times> string) option"
  and p_elems :: "nat \<Rightarrow> nat \<Rightarrow> string \<Rightarrow> (json list \<times> string) option"
  and p_members :: "nat \<Rightarrow> nat \<Rightarrow> string \<Rightarrow> ((string \<times> json) list \<times> string) option" where
  "p_value 0 d s = None"
| "p_value (Suc n) d s =
     (case skip_space s of
        [] \<Rightarrow> None
      | c # cs \<Rightarrow>
          (if c = CHR 0x22 then map_option (\<lambda>(x, r). (JStr x, r)) (unquote cs)
           else if c = CHR ''['' then
             (if d = 0 then None
              else if take 1 (skip_space cs) = '']'' then Some (JArr [], drop 1 (skip_space cs))
              else map_option (\<lambda>(vs, r). (JArr vs, r)) (p_elems n (d - 1) cs))
           else if c = CHR ''{'' then
             (if d = 0 then None
              else if take 1 (skip_space cs) = ''}'' then Some (JObj [], drop 1 (skip_space cs))
              else map_option (\<lambda>(ms, r). (JObj ms, r)) (p_members n (d - 1) cs))
           else if take 4 (c # cs) = ''null'' then Some (JNull, drop 3 cs)
           else if take 4 (c # cs) = ''true'' then Some (JBool True, drop 3 cs)
           else if take 5 (c # cs) = ''false'' then Some (JBool False, drop 4 cs)
           else map_option (\<lambda>(l, r). (JNum l, r)) (scan_number (c # cs))))"
| "p_elems 0 d s = None"
| "p_elems (Suc n) d s =
     (case p_value n d s of
        None \<Rightarrow> None
      | Some (v, r) \<Rightarrow>
          (case skip_space r of
             [] \<Rightarrow> None
           | c # r' \<Rightarrow>
               (if c = CHR '','' then map_option (\<lambda>(vs, r). (v # vs, r)) (p_elems n d r')
                else if c = CHR '']'' then Some ([v], r')
                else None)))"
| "p_members 0 d s = None"
| "p_members (Suc n) d s =
     (case skip_space s of
        [] \<Rightarrow> None
      | q # cs \<Rightarrow>
     (if q \<noteq> CHR 0x22 then None
      else case unquote cs of
        None \<Rightarrow> None
      | Some (k, r) \<Rightarrow>
     (case skip_space r of
        [] \<Rightarrow> None
      | c # r \<Rightarrow>
     (if c \<noteq> CHR '':'' then None
      else case p_value n d r of
        None \<Rightarrow> None
      | Some (v, r) \<Rightarrow>
     (case skip_space r of
        [] \<Rightarrow> None
      | c # r \<Rightarrow>
          (if c = CHR '','' then map_option (\<lambda>(ms, r). ((k, v) # ms, r)) (p_members n d r)
           else if c = CHR ''}'' then Some ([(k, v)], r)
           else None))))))"

definition json_Parse :: "string \<Rightarrow> json option" where
  "json_Parse s =
     (case p_value (Suc (2 * length s)) 10000 s of
        None \<Rightarrow> None
      | Some (v, r) \<Rightarrow> if skip_space r = [] then Some v else None)"

section \<open>Encoding\<close>

definition enc_ascii :: "char \<Rightarrow> string" where
  "enc_ascii c =
     (if c = CHR 0x22 \<or> c = CHR 0x5C then [CHR 0x5C, c]
      else if c = CHR 0x08 then [CHR 0x5C, CHR ''b'']
      else if c = CHR 0x0C then [CHR 0x5C, CHR ''f'']
      else if c = CHR 0x0A then [CHR 0x5C, CHR ''n'']
      else if c = CHR 0x0D then [CHR 0x5C, CHR ''r'']
      else if c = CHR 0x09 then [CHR 0x5C, CHR ''t'']
      else if byte c < 0x20 \<or> c = CHR ''<'' \<or> c = CHR ''>'' \<or> c = CHR ''&''
      then [CHR 0x5C, CHR ''u'', CHR ''0'', CHR ''0'', hex_digit (byte c div 16), hex_digit (byte c mod 16)]
      else [c])"

text \<open>The two line separators U+2028 and U+2029 are escaped; an invalid byte becomes the replacement character.\<close>

function (sequential) enc_chars :: "string \<Rightarrow> string" where
  "enc_chars [] = []"
| "enc_chars (c # cs) =
     (if byte c < 0x80 then enc_ascii c @ enc_chars cs
      else if utf8_len (c # cs) = 0 then [CHR 0x5C] @ ''ufffd'' @ enc_chars cs
      else if take 3 (c # cs) = [CHR 0xE2, CHR 0x80, CHR 0xA8] then [CHR 0x5C] @ ''u2028'' @ enc_chars (drop 2 cs)
      else if take 3 (c # cs) = [CHR 0xE2, CHR 0x80, CHR 0xA9] then [CHR 0x5C] @ ''u2029'' @ enc_chars (drop 2 cs)
      else take (utf8_len (c # cs)) (c # cs) @ enc_chars (drop (utf8_len (c # cs)) (c # cs)))"
  by pat_completeness auto
termination
  by (relation "measure length") auto

definition enc_string :: "string \<Rightarrow> string" where
  "enc_string s = [CHR 0x22] @ enc_chars s @ [CHR 0x22]"

fun json_Encode :: "json \<Rightarrow> string" where
  "json_Encode JNull = ''null''"
| "json_Encode (JBool b) = (if b then ''true'' else ''false'')"
| "json_Encode (JNum l) = l"
| "json_Encode (JStr s) = enc_string s"
| "json_Encode (JArr vs) = ''['' @ strings_Join (map json_Encode vs) '','' @ '']''"
| "json_Encode (JObj ms) = ''{'' @ strings_Join (map (\<lambda>m. enc_string (fst m) @ '':'' @ json_Encode (snd m)) ms) '','' @ ''}''"

section \<open>Decoding an encoded string\<close>

lemma utf8_len_le: "utf8_len s \<le> length s"
  by (auto simp: utf8_len_def Let_def split: list.splits)

lemma utf8_len_append:
  assumes "utf8_len s \<noteq> 0"
  shows "utf8_len (take (utf8_len s) s @ t) = utf8_len s"
proof (cases s)
  case (Cons a u)
  let ?n = "utf8_need (byte a)"
  from assms Cons have n: "utf8_len s = ?n" "?n \<noteq> 0" "?n \<le> length s" "continuation (byte a) (take (?n - 1) u)"
    by (auto simp: utf8_len_def Let_def split: if_splits)
  then have "take (utf8_len s) s @ t = a # (take (?n - 1) u @ t)" using Cons by (cases ?n) auto
  moreover have "take (?n - 1) (take (?n - 1) u @ t) = take (?n - 1) u" using n(2,3) Cons by simp
  ultimately show ?thesis using n Cons by (auto simp: utf8_len_def Let_def)
qed (use assms in \<open>simp add: utf8_len_def\<close>)

lemma utf8_len_ascii: "byte c < 0x80 \<Longrightarrow> utf8_len (c # cs) = 1"
  by (simp add: utf8_len_def utf8_need_def continuation_def)

function (sequential) utf8_valid :: "string \<Rightarrow> bool" where
  "utf8_valid [] = True"
| "utf8_valid (c # cs) = (if utf8_len (c # cs) = 0 then False else utf8_valid (drop (utf8_len (c # cs)) (c # cs)))"
  by pat_completeness auto
termination
  by (relation "measure length") auto

lemma utf8_valid_ascii: "list_all (\<lambda>c. byte c < 0x80) s \<Longrightarrow> utf8_valid s"
  by (induction s) (simp_all add: utf8_len_ascii)

lemma hex_value_hex_digit: "n < 16 \<Longrightarrow> hex_value (hex_digit n) = Some n"
proof -
  have "list_all (\<lambda>n. hex_value (hex_digit n) = Some n) [0..<16]" by code_simp
  then show "n < 16 \<Longrightarrow> ?thesis" by (simp add: list_all_iff)
qed

lemma unquote_plain:
  "byte c < 0x80 \<Longrightarrow> c \<noteq> CHR 0x22 \<Longrightarrow> c \<noteq> CHR 0x5C \<Longrightarrow> 0x20 \<le> byte c \<Longrightarrow>
   unquote (c # t) = map_option (\<lambda>(s, r). (c # s, r)) (unquote t)"
  by (simp add: utf8_len_ascii)

lemma unquote_escape:
  "json_escape cs = Some (out, n) \<Longrightarrow> unquote (CHR 0x5C # cs) = map_option (\<lambda>(s, r). (out @ s, r)) (unquote (drop n cs))"
  by (simp add: byte_def)

lemma escape_u00:
  assumes "byte c < 0x80"
  shows "json_escape (CHR ''u'' # CHR ''0'' # CHR ''0'' # hex_digit (byte c div 16) # hex_digit (byte c mod 16) # t) = Some ([c], 5)"
proof -
  have "getu4 (CHR ''0'' # CHR ''0'' # hex_digit (byte c div 16) # hex_digit (byte c mod 16) # t) = Some (byte c)"
    using assms by (simp add: getu4_def hex_value_hex_digit) (simp add: hex_value_def byte_def)
  with assms show ?thesis by (simp add: json_escape_def EncodeRune_def)
qed

lemma unquote_ascii:
  assumes "byte c < 0x80"
  shows "unquote (enc_ascii c @ t) = map_option (\<lambda>(s, r). (c # s, r)) (unquote t)"
proof -
  have simple: "json_escape (x # t) = Some ([y], 1) \<Longrightarrow> unquote (CHR 0x5C # x # t) = map_option (\<lambda>(s, r). (y # s, r)) (unquote t)" for x y
    by (subst unquote_escape, assumption) (simp del: unquote.simps)
  have u: "unquote (CHR 0x5C # CHR ''u'' # CHR ''0'' # CHR ''0'' # hex_digit (byte c div 16) # hex_digit (byte c mod 16) # t)
      = map_option (\<lambda>(s, r). (c # s, r)) (unquote t)"
    using unquote_escape [OF escape_u00 [OF assms, of t]] by (simp del: unquote.simps)
  show ?thesis
    using assms unquote_plain [OF assms] u
    by (auto simp: enc_ascii_def simple json_escape_def simp del: unquote.simps)
qed


lemma unquote_rune:
  assumes "utf8_len s \<noteq> 0" "0x80 \<le> byte (hd s)"
  shows "unquote (take (utf8_len s) s @ t) = map_option (\<lambda>(u, r). (take (utf8_len s) s @ u, r)) (unquote t)"
proof -
  let ?n = "utf8_len s"
  from assms(1) obtain c cs where s: "s = c # cs" by (cases s) (auto simp: utf8_len_def)
  have hd: "take ?n s @ t = c # (take (?n - 1) cs @ t)" using assms(1) s by (cases ?n) auto
  have len: "utf8_len (c # (take (?n - 1) cs @ t)) = ?n" using utf8_len_append [OF assms(1), of t] hd by simp
  have tk: "take ?n (c # (take (?n - 1) cs @ t)) = take ?n s" "drop ?n (c # (take (?n - 1) cs @ t)) = t"
    unfolding hd [symmetric] using utf8_len_le [of s] by simp_all
  have "c \<noteq> CHR 0x22" "\<not> byte c < 0x20" "c \<noteq> CHR 0x5C" using assms(2) s by (auto simp: byte_def)
  then show ?thesis unfolding hd by (simp only: unquote.simps len tk if_False assms(1))
qed

lemma unquote_u2028:
  "unquote (CHR 0x5C # ''u2028'' @ t) = map_option (\<lambda>(s, r). ([CHR 0xE2, CHR 0x80, CHR 0xA8] @ s, r)) (unquote t)"
  "unquote (CHR 0x5C # ''u2029'' @ t) = map_option (\<lambda>(s, r). ([CHR 0xE2, CHR 0x80, CHR 0xA9] @ s, r)) (unquote t)"
proof -
  have "json_escape (''u2028'' @ t) = Some ([CHR 0xE2, CHR 0x80, CHR 0xA8], 5)"
    "json_escape (''u2029'' @ t) = Some ([CHR 0xE2, CHR 0x80, CHR 0xA9], 5)"
    by (simp_all add: json_escape_def getu4_def hex_value_def byte_def EncodeRune_def char_of_def bit_0)
  from this [THEN unquote_escape] show
    "unquote (CHR 0x5C # ''u2028'' @ t) = map_option (\<lambda>(s, r). ([CHR 0xE2, CHR 0x80, CHR 0xA8] @ s, r)) (unquote t)"
    "unquote (CHR 0x5C # ''u2029'' @ t) = map_option (\<lambda>(s, r). ([CHR 0xE2, CHR 0x80, CHR 0xA9] @ s, r)) (unquote t)"
    by (simp_all del: unquote.simps)
qed

lemma utf8_len_3: "take 3 (c # cs) = CHR 0xE2 # r \<Longrightarrow> utf8_len (c # cs) \<noteq> 0 \<Longrightarrow> utf8_len (c # cs) = 3"
  by (auto simp: utf8_len_def utf8_need_def Let_def byte_def split: if_splits)

lemma unquote_enc: "utf8_valid s \<Longrightarrow> unquote (enc_chars s @ CHR 0x22 # r) = Some (s, r)"
proof (induction s rule: enc_chars.induct)
  case (2 c cs)
  let ?s = "c # cs"
  have v: "utf8_len ?s \<noteq> 0" "utf8_valid (drop (utf8_len ?s) ?s)" using "2.prems" by (auto split: if_splits)
  consider (ascii) "byte c < 0x80"
    | (ls) "\<not> byte c < 0x80" "take 3 ?s = [CHR 0xE2, CHR 0x80, CHR 0xA8]"
    | (ps) "\<not> byte c < 0x80" "take 3 ?s = [CHR 0xE2, CHR 0x80, CHR 0xA9]"
    | (rune) "\<not> byte c < 0x80" "take 3 ?s \<noteq> [CHR 0xE2, CHR 0x80, CHR 0xA8]" "take 3 ?s \<noteq> [CHR 0xE2, CHR 0x80, CHR 0xA9]"
    by blast
  then show ?case
  proof cases
    case ascii
    with v have "utf8_valid cs" by (simp add: utf8_len_ascii)
    with "2.IH"(1) [OF ascii] ascii show ?thesis by (simp add: unquote_ascii del: unquote.simps)
  next
    case ls
    have "utf8_len ?s = 3" using utf8_len_3 [OF ls(2) v(1)] .
    then have "utf8_valid (drop 2 cs)" using v by simp
    from "2.IH"(3) [OF ls(1) v(1) ls(2) this] have IH: "unquote (enc_chars (drop 2 cs) @ CHR 0x22 # r) = Some (drop 2 cs, r)" .
    have e: "enc_chars ?s = CHR 0x5C # ''u2028'' @ enc_chars (drop 2 cs)" using ls v(1) by (simp only: enc_chars.simps) simp
    have "unquote (enc_chars ?s @ CHR 0x22 # r) = Some (take 3 ?s @ drop 3 ?s, r)"
      unfolding e ls(2) using unquote_u2028(1) [of "enc_chars (drop 2 cs) @ CHR 0x22 # r"] IH by (simp del: unquote.simps)
    then show ?thesis by (simp only: append_take_drop_id)
  next
    case ps
    have "utf8_len ?s = 3" using utf8_len_3 [OF ps(2) v(1)] .
    then have "utf8_valid (drop 2 cs)" using v by simp
    moreover have "take 3 ?s \<noteq> [CHR 0xE2, CHR 0x80, CHR 0xA8]" unfolding ps(2) by simp
    ultimately have IH: "unquote (enc_chars (drop 2 cs) @ CHR 0x22 # r) = Some (drop 2 cs, r)"
      using "2.IH"(4) [OF ps(1) v(1) _ ps(2)] by blast
    have e: "enc_chars ?s = CHR 0x5C # ''u2029'' @ enc_chars (drop 2 cs)" using ps v(1) by (simp only: enc_chars.simps) simp
    have "unquote (enc_chars ?s @ CHR 0x22 # r) = Some (take 3 ?s @ drop 3 ?s, r)"
      unfolding e ps(2) using unquote_u2028(2) [of "enc_chars (drop 2 cs) @ CHR 0x22 # r"] IH by (simp del: unquote.simps)
    then show ?thesis by (simp only: append_take_drop_id)
  next
    case rune
    from "2.IH"(5) [OF rune(1) v(1) rune(2,3) v(2)]
    have IH: "unquote (enc_chars (drop (utf8_len ?s) ?s) @ CHR 0x22 # r) = Some (drop (utf8_len ?s) ?s, r)" .
    have "enc_chars ?s = take (utf8_len ?s) ?s @ enc_chars (drop (utf8_len ?s) ?s)" using rune v(1) by (simp only: enc_chars.simps if_False)
    then show ?thesis
      using unquote_rune [OF v(1), of "enc_chars (drop (utf8_len ?s) ?s) @ CHR 0x22 # r"] rune(1) IH by simp
  qed
qed simp


section \<open>Decoding an encoded number\<close>

definition number_end :: "string \<Rightarrow> bool" where
  "number_end r \<longleftrightarrow> (r = [] \<or> \<not> (is_digit (hd r) \<or> hd r = CHR ''.'' \<or> hd r = CHR ''e'' \<or> hd r = CHR ''E''))"

lemma digits_append: "list_all is_digit d \<Longrightarrow> number_end r \<Longrightarrow> scan_digits (d @ r) = (d, r)"
  by (induction d) (cases r; auto simp: scan_digits_def number_end_def)+

lemma scan_int_nat_digits: "number_end r \<Longrightarrow> scan_int (nat_digits n @ r) = Some (nat_digits n, r)"
  using nat_digits_hd [of n] nat_digits_digits [of n] digits_append [of "nat_digits n" r]
  by (auto simp: scan_int_def)

text \<open>A scan that ends inside or at the end of its input ends at the same place when more input follows.\<close>

lemma digits_extend: "scan_digits s = (d, t) \<Longrightarrow> t \<noteq> [] \<or> number_end r \<Longrightarrow> scan_digits (s @ r) = (d, t @ r)"
proof (induction s arbitrary: d)
  case Nil
  then show ?case by (cases r) (auto simp: scan_digits_def number_end_def)
next
  case (Cons c s)
  show ?case
  proof (cases "is_digit c")
    case True
    with Cons.prems have "scan_digits s = (takeWhile is_digit s, t)" by (simp add: scan_digits_def)
    from Cons.IH [OF this] Cons.prems True show ?thesis by (auto simp: scan_digits_def)
  qed (use Cons.prems in \<open>auto simp: scan_digits_def\<close>)
qed

lemma scan_int_extend: "scan_int s = Some (i, t) \<Longrightarrow> t \<noteq> [] \<or> number_end r \<Longrightarrow> scan_int (s @ r) = Some (i, t @ r)"
  using digits_extend [of s i t r] by (auto simp: scan_int_def split: list.splits if_splits)

lemma scan_frac_extend: "scan_frac s = Some (f, t) \<Longrightarrow> t \<noteq> [] \<or> number_end r \<Longrightarrow> scan_frac (s @ r) = Some (f, t @ r)"
  using digits_extend [of "tl s" "tl f" t r]
  by (cases r) (auto simp: scan_frac_def number_end_def split: list.splits if_splits prod.splits)

lemma scan_exp_extend:
  assumes "scan_exp s = Some (e, t)" "t \<noteq> [] \<or> number_end r"
  shows "scan_exp (s @ r) = Some (e, t @ r)"
proof (cases s)
  case Nil
  with assms show ?thesis by (cases r) (auto simp: scan_exp_def number_end_def)
next
  case (Cons c cs)
  show ?thesis
  proof (cases "c = CHR ''e'' \<or> c = CHR ''E''")
    case True
    let ?sg = "scan_sign ''+-''"
    obtain d where d: "scan_digits (drop (length (?sg cs)) cs) = (d, t)" "d \<noteq> []" "e = c # ?sg cs @ d"
      using assms(1) Cons True by (auto simp: scan_exp_def Let_def split: prod.splits if_splits)
    then have "cs \<noteq> []" by (auto simp: scan_digits_def)
    then have "?sg (cs @ r) = ?sg cs" "drop (length (?sg cs)) (cs @ r) = drop (length (?sg cs)) cs @ r"
      by (auto simp: scan_sign_def neq_Nil_conv)
    with digits_extend [OF d(1) assms(2)] d Cons True show ?thesis by (simp add: scan_exp_def)
  qed (use assms Cons in \<open>auto simp: scan_exp_def split: if_splits\<close>)
qed

lemma scan_number_extend:
  assumes "scan_number s = Some (l, t)" "t \<noteq> [] \<or> number_end r"
  shows "scan_number (s @ r) = Some (l, t @ r)"
proof -
  let ?sg = "scan_sign ''-''"
  obtain i u f v e where c: "scan_int (drop (length (?sg s)) s) = Some (i, u)" "scan_frac u = Some (f, v)"
      "scan_exp v = Some (e, t)" "l = ?sg s @ i @ f @ e"
    using assms(1) by (auto simp: scan_number_def Let_def split: option.splits)
  have "s \<noteq> []" using c(1) by (auto simp: scan_int_def)
  then have sg: "?sg (s @ r) = ?sg s" "drop (length (?sg s)) (s @ r) = drop (length (?sg s)) s @ r" by (auto simp: scan_sign_def neq_Nil_conv)
  have v: "v \<noteq> [] \<or> number_end r" using c(3) assms(2) by (cases v) (auto simp: scan_exp_def)
  have u: "u \<noteq> [] \<or> number_end r" using c(2) v by (cases u) (auto simp: scan_frac_def)
  show ?thesis
    using scan_int_extend [OF c(1) u] scan_frac_extend [OF c(2) v] scan_exp_extend [OF c(3) assms(2)] sg c(4)
    by (simp add: scan_number_def)
qed

lemma scan_end: "number_end r \<Longrightarrow> scan_frac r = Some ([], r) \<and> scan_exp r = Some ([], r)"
  by (cases r) (auto simp: scan_frac_def scan_exp_def number_end_def)

lemma scan_number_Itoa:
  assumes "number_end r"
  shows "scan_number (Itoa i @ r) = Some (Itoa i, r)"
proof -
  have "c \<noteq> CHR ''-''" if "is_digit c" for c using that by (auto simp: is_digit_def byte_def)
  then have "scan_sign ''-'' (nat_digits n @ r) = []" for n
    using nat_digits_hd [of n] by (auto simp: scan_sign_def)
  with scan_int_nat_digits [OF assms] scan_end [OF assms] show ?thesis
    by (simp add: Itoa_def scan_number_def) (simp add: scan_sign_def)
qed


lemma parse_int64_Itoa:
  assumes "- 9223372036854775808 \<le> i" "i \<le> 9223372036854775807"
  shows "parse_int64 (Itoa i) = Some i"
proof -
  obtain c cs where d: "nat_digits (nat i) = c # cs" "is_digit c" using nat_digits_hd by blast
  then have "c \<noteq> CHR ''-''" by (auto simp: is_digit_def byte_def)
  moreover have "nat_digits (nat (- i)) \<noteq> []" using nat_digits_hd [of "nat (- i)"] by auto
  ultimately show ?thesis
    using assms d parse_digits_nat_digits [of "nat i"] parse_digits_nat_digits [of "nat (- i)"]
    by (auto simp: Itoa_def parse_int64_def)
qed

section \<open>Decoding an encoded document\<close>

text \<open>
  What the encoder may be given: number literals that are JSON numbers, strings of valid UTF-8, nesting of
  at most \<open>d\<close>.
\<close>

fun json_wf :: "nat \<Rightarrow> json \<Rightarrow> bool" where
  "json_wf d JNull = True"
| "json_wf d (JBool b) = True"
| "json_wf d (JNum l) = (scan_number l = Some (l, []))"
| "json_wf d (JStr s) = utf8_valid s"
| "json_wf d (JArr vs) = (0 < d \<and> (\<forall>v \<in> set vs. json_wf (d - 1) v))"
| "json_wf d (JObj ms) = (0 < d \<and> (\<forall>(k, v) \<in> set ms. utf8_valid k \<and> json_wf (d - 1) v))"

lemma scan_number_hd: "scan_number s = Some (l, t) \<Longrightarrow> \<exists>c cs. s = c # cs \<and> (is_digit c \<or> c = CHR ''-'')"
  by (cases s) (auto simp: scan_number_def scan_int_def scan_sign_def is_digit_def byte_def split: option.splits if_splits list.splits)

definition value_start :: "char \<Rightarrow> bool" where
  "value_start c \<longleftrightarrow> is_digit c \<or> c \<in> {CHR ''-'', CHR 0x22, CHR ''['', CHR ''{'', CHR ''n'', CHR ''t'', CHR ''f''}"

lemma json_Encode_start: "json_wf d j \<Longrightarrow> \<exists>c cs. json_Encode j = c # cs \<and> value_start c"
  by (cases j) (auto simp: value_start_def enc_string_def dest: scan_number_hd)

lemma value_start_not: "value_start c \<Longrightarrow> \<not> json_space c \<and> c \<noteq> CHR '']'' \<and> c \<noteq> CHR ''}''"
  by (auto simp: value_start_def json_space_def is_digit_def byte_def)

lemma skip_Encode: "json_wf d j \<Longrightarrow> skip_space (json_Encode j @ r) = json_Encode j @ r"
  using json_Encode_start [of d j] value_start_not by (fastforce simp: skip_space_def)

lemma skip_Cons: "\<not> json_space c \<Longrightarrow> skip_space (c # s) = c # s"
  by (simp add: skip_space_def)

lemma spaces [simp]: "\<not> json_space CHR '',''" "\<not> json_space CHR '']''" "\<not> json_space CHR ''}''" "\<not> json_space CHR '':''"
  "\<not> json_space CHR 0x22" "\<not> json_space CHR ''[''" "\<not> json_space CHR ''{''"
  by (simp_all add: json_space_def)

lemma ends [simp]: "number_end (CHR '','' # r)" "number_end (CHR '']'' # r)" "number_end (CHR ''}'' # r)" "number_end []"
  by (simp_all add: number_end_def is_digit_def byte_def)

abbreviation enc_member :: "string \<times> json \<Rightarrow> string" where
  "enc_member m \<equiv> enc_string (fst m) @ '':'' @ json_Encode (snd m)"

lemma p_elems_Encode:
  assumes "vs \<noteq> []"
    and "\<And>v n r. v \<in> set vs \<Longrightarrow> number_end r \<Longrightarrow> length (json_Encode v) < n \<Longrightarrow> p_value n d (json_Encode v @ r) = Some (v, r)"
    and "length (strings_Join (map json_Encode vs) '','') + 1 < n"
  shows "p_elems n d (strings_Join (map json_Encode vs) '','' @ CHR '']'' # r) = Some (vs, r)"
  using assms
proof (induction vs arbitrary: n rule: induct_list012)
  case (2 v)
  then show ?case by (cases n) (auto simp: skip_Cons)
next
  case (3 v w vs)
  obtain m where n: "n = Suc m" using "3.prems"(3) by (cases n) auto
  have "p_elems m d (strings_Join (map json_Encode (w # vs)) '','' @ CHR '']'' # r) = Some (w # vs, r)"
    by (rule "3.IH"(2)) (use "3.prems" n in auto)
  moreover have "p_value m d (json_Encode v @ CHR '','' # strings_Join (map json_Encode (w # vs)) '','' @ CHR '']'' # r)
      = Some (v, CHR '','' # strings_Join (map json_Encode (w # vs)) '','' @ CHR '']'' # r)"
    by (rule "3.prems"(2)) (use "3.prems"(3) n in auto)
  ultimately show ?case by (simp add: n skip_Cons)
qed simp

lemma p_member:
  assumes "utf8_valid k" "p_value n d (json_Encode v @ r) = Some (v, r)"
  shows "p_members (Suc n) d (enc_member (k, v) @ r) =
    (case skip_space r of
       [] \<Rightarrow> None
     | c # r \<Rightarrow>
         (if c = CHR '','' then map_option (\<lambda>(ms, r). ((k, v) # ms, r)) (p_members n d r)
          else if c = CHR ''}'' then Some ([(k, v)], r)
          else None))"
  using assms unquote_enc [OF assms(1), of "CHR '':'' # json_Encode v @ r"]
  by (simp add: enc_string_def skip_Cons del: unquote.simps)

lemma p_members_Encode:
  assumes "ms \<noteq> []"
    and "\<And>k v n r. (k, v) \<in> set ms \<Longrightarrow> utf8_valid k \<and>
      (number_end r \<longrightarrow> length (json_Encode v) < n \<longrightarrow> p_value n d (json_Encode v @ r) = Some (v, r))"
    and "length (strings_Join (map enc_member ms) '','') + 1 < n"
  shows "p_members n d (strings_Join (map enc_member ms) '','' @ CHR ''}'' # r) = Some (ms, r)"
  using assms
proof (induction ms arbitrary: n rule: induct_list012)
  case (2 m)
  obtain k v i where e: "m = (k, v)" "n = Suc i" using "2.prems"(3) by (cases m; cases n) auto
  with "2.prems" have "utf8_valid k" "p_value i d (json_Encode v @ CHR ''}'' # r) = Some (v, CHR ''}'' # r)" by auto
  from p_member [OF this] show ?case by (simp add: e skip_Cons)
next
  case (3 m w ms)
  obtain k v i where e: "m = (k, v)" "n = Suc i" using "3.prems"(3) by (cases m; cases n) auto
  let ?t = "strings_Join (map enc_member (w # ms)) '','' @ CHR ''}'' # r"
  have "p_members i d ?t = Some (w # ms, r)"
    by (rule "3.IH"(2)) (use "3.prems" e in auto)
  moreover have "utf8_valid k \<and> p_value i d (json_Encode v @ CHR '','' # ?t) = Some (v, CHR '','' # ?t)"
    using "3.prems"(2) [of k v "CHR '','' # ?t" i] "3.prems"(3) e by simp
  then have "utf8_valid k" "p_value i d (json_Encode v @ CHR '','' # ?t) = Some (v, CHR '','' # ?t)" by blast+
  from p_member [OF this] have "p_members (Suc i) d (enc_member (k, v) @ CHR '','' # ?t) =
      map_option (\<lambda>(ms, r). ((k, v) # ms, r)) (p_members i d ?t)" by (simp add: skip_Cons)
  ultimately show ?case by (simp add: e)
qed simp


lemma p_value_number:
  assumes "scan_number l = Some (l, [])" "number_end r"
  shows "p_value (Suc n) d (l @ r) = Some (JNum l, r)"
proof -
  obtain c cs where l: "l = c # cs" and c: "is_digit c \<or> c = CHR ''-''" using scan_number_hd [OF assms(1)] by blast
  have "\<not> json_space c" using c value_start_not [of c] by (auto simp: value_start_def)
  moreover have "c \<notin> {CHR 0x22, CHR ''['', CHR ''{'', CHR ''n'', CHR ''t'', CHR ''f''}"
    using c by (auto simp: is_digit_def byte_def)
  ultimately show ?thesis using scan_number_extend [OF assms(1), of r] assms(2) l by (simp add: skip_Cons)
qed

lemma p_value_Encode:
  "json_wf d j \<Longrightarrow> number_end r \<Longrightarrow> length (json_Encode j) < n \<Longrightarrow> p_value n d (json_Encode j @ r) = Some (j, r)"
proof (induction j arbitrary: d n r)
  case JNull
  then show ?case by (cases n) (simp_all add: skip_Cons json_space_def del: unquote.simps)
next
  case (JBool b)
  then show ?case by (cases n) (simp_all add: skip_Cons json_space_def del: unquote.simps)
next
  case (JNum l)
  then show ?case using p_value_number [of l r "n - 1" d] by simp
next
  case (JStr s)
  then show ?case using unquote_enc [of s r] by (cases n) (simp_all add: enc_string_def skip_Cons del: unquote.simps)
next
  case (JArr vs)
  obtain m e where n: "n = Suc m" "d = Suc e" using JArr.prems by (cases n; cases d) auto
  show ?case
  proof (cases vs)
    case (Cons v ws)
    have "p_elems m e (strings_Join (map json_Encode vs) '','' @ CHR '']'' # r) = Some (vs, r)"
      by (rule p_elems_Encode) (use JArr Cons n in auto)
    moreover have "json_wf e v" using JArr.prems Cons n by simp
    then obtain c cs where "json_Encode v = c # cs" "value_start c" using json_Encode_start by blast
    then have "\<exists>cs. strings_Join (map json_Encode vs) '','' = c # cs" and "c \<noteq> CHR '']''" "\<not> json_space c"
      using value_start_not Cons by (cases ws, auto)+
    ultimately show ?thesis using n by (auto simp: skip_Cons)
  qed (simp add: n skip_Cons)
next
  case (JObj ms)
  obtain m e where n: "n = Suc m" "d = Suc e" using JObj.prems by (cases n; cases d) auto
  show ?case
  proof (cases ms)
    case (Cons kv ws)
    have "p_members m e (strings_Join (map enc_member ms) '','' @ CHR ''}'' # r) = Some (ms, r)"
      by (rule p_members_Encode) (use JObj Cons n in fastforce)+
    moreover have "\<exists>cs. strings_Join (map enc_member ms) '','' = CHR 0x22 # cs"
      using Cons by (cases ws) (auto simp: enc_string_def)
    ultimately show ?thesis using n by (auto simp: skip_Cons)
  qed (simp add: n skip_Cons)
qed

theorem json_Parse_Encode: "json_wf 10000 j \<Longrightarrow> json_Parse (json_Encode j) = Some j"
  using p_value_Encode [of 10000 j "[]" "Suc (2 * length (json_Encode j))"]
  by (simp add: json_Parse_def skip_space_def del: p_value.simps)


section \<open>Enough fuel\<close>

lemma skip_le: "length (skip_space s) \<le> length s"
  by (simp add: skip_space_def length_dropWhile_le)

lemma skip_shrink: "skip_space s = c # cs \<Longrightarrow> length cs < length s"
  using skip_le [of s] by simp

lemma unquote_shrink: "unquote s = Some (x, r) \<Longrightarrow> length r < length s"
proof (induction s arbitrary: x rule: unquote.induct)
  case (2 c cs)
  then show ?case
    by (fastforce split: if_splits option.splits)
qed simp

lemma digits_le: "scan_digits s = (d, r) \<Longrightarrow> length r \<le> length s"
  by (auto simp: scan_digits_def length_dropWhile_le)

lemma scan_int_shrink: "scan_int s = Some (i, u) \<Longrightarrow> length u < length s"
  by (auto simp: scan_int_def scan_digits_def length_dropWhile_le less_Suc_eq_le split: list.splits if_splits)

lemma scan_number_shrink: "scan_number s = Some (l, r) \<Longrightarrow> length r < length s"
proof -
  assume "scan_number s = Some (l, r)"
  then obtain i u f v e where c: "scan_int (drop (length (scan_sign ''-'' s)) s) = Some (i, u)" "scan_frac u = Some (f, v)" "scan_exp v = Some (e, r)"
    by (auto simp: scan_number_def split: option.splits)
  have "length u < length s" using scan_int_shrink [OF c(1)] by simp
  moreover have "length v \<le> length u" using c(2) digits_le by (fastforce simp: scan_frac_def split: list.splits if_splits prod.splits)
  moreover have "length r \<le> length v" using c(3) digits_le by (fastforce simp: scan_exp_def split: list.splits if_splits prod.splits)
  ultimately show ?thesis by simp
qed


lemma p_shrink:
  "p_value n d s = Some (v, r) \<Longrightarrow> length r < length s"
  "p_elems n d s = Some (vs, r) \<Longrightarrow> length r < length s"
  "p_members n d s = Some (ms, r) \<Longrightarrow> length r < length s"
proof (induction n d s and n d s and n d s arbitrary: v r and vs r and ms r rule: p_value_p_elems_p_members.induct)
  case (2 n d s)
  obtain c cs where s: "skip_space s = c # cs" using "2.prems" by (cases "skip_space s") auto
  from "2.IH" [OF s] "2.prems" skip_shrink [OF s] skip_le [of cs] show ?case
    by (auto simp: s split: if_splits dest!: unquote_shrink scan_number_shrink simp del: unquote.simps)
next
  case (4 n d s)
  then show ?case
    by (fastforce split: if_splits option.splits list.splits dest: skip_shrink)
next
  case (6 n d s)
  then show ?case
    by (fastforce split: if_splits option.splits list.splits dest: skip_shrink unquote_shrink simp del: unquote.simps)
qed simp_all


lemma p_fuel:
  "2 * length s < n \<Longrightarrow> 2 * length s < m \<Longrightarrow> p_value n d s = p_value m d s"
  "2 * length s + 1 < n \<Longrightarrow> 2 * length s + 1 < m \<Longrightarrow> p_elems n d s = p_elems m d s"
  "2 * length s + 1 < n \<Longrightarrow> 2 * length s + 1 < m \<Longrightarrow> p_members n d s = p_members m d s"
proof (induction n d s and n d s and n d s arbitrary: m and m and m rule: p_value_p_elems_p_members.induct)
  case (2 n d s)
  obtain k where m: "m = Suc k" using "2.prems" by (cases m) auto
  show ?case
  proof (cases "skip_space s")
    case (Cons c cs)
    have "p_elems n (d - 1) cs = p_elems k (d - 1) cs" if "c = CHR ''[''" "d \<noteq> 0" "take 1 (skip_space cs) \<noteq> '']''"
      using "2.IH"(1) [OF Cons, where m = k] "2.prems" skip_shrink [OF Cons] that m by simp
    moreover have "p_members n (d - 1) cs = p_members k (d - 1) cs" if "c = CHR ''{''" "d \<noteq> 0" "take 1 (skip_space cs) \<noteq> ''}''"
      using "2.IH"(2) [OF Cons, where m = k] "2.prems" skip_shrink [OF Cons] that m by simp
    ultimately show ?thesis by (simp only: m p_value.simps Cons list.case not_False_eq_True cong: if_cong)
  qed (simp add: m)
next
  case (4 n d s)
  obtain k where m: "m = Suc k" using "4.prems" by (cases m) auto
  have v: "p_value n d s = p_value k d s" using "4.IH"(1) [of k] "4.prems" m by simp
  show ?case
  proof (cases "p_value k d s")
    case (Some a)
    obtain x r where a: "a = (x, r)" by (cases a)
    have r: "length r < length s" using p_shrink(1) Some a by blast
    have "p_elems n d cs = p_elems k d cs" if "skip_space r = CHR '','' # cs" for cs
      using "4.IH"(2) [OF v [unfolded Some a] refl that, of k] "4.prems" m r skip_shrink [OF that] by simp
    then show ?thesis by (auto simp: m v Some a split: list.split)
  qed (simp add: m v)
next
  case (6 n d s)
  obtain k where m: "m = Suc k" using "6.prems" by (cases m) auto
  show ?case
  proof (cases "\<exists>cs x r t. skip_space s = CHR 0x22 # cs \<and> unquote cs = Some (x, r) \<and> skip_space r = CHR '':'' # t")
    case True
    then obtain cs x r t where e: "skip_space s = CHR 0x22 # cs" "unquote cs = Some (x, r)" "skip_space r = CHR '':'' # t" by blast
    have t: "length t + 2 < length s" using skip_shrink [OF e(1)] unquote_shrink [OF e(2)] skip_shrink [OF e(3)] by simp
    have v: "p_value n d t = p_value k d t" using "6.IH"(1) [OF e(1) _ e(2) refl e(3)] "6.prems" m t by simp
    show ?thesis
    proof (cases "p_value k d t")
      case (Some a)
      obtain y u where a: "a = (y, u)" by (cases a)
      have u: "length u < length t" using p_shrink(1) Some a by blast
      have "p_members n d w = p_members k d w" if "skip_space u = CHR '','' # w" for w
        using "6.IH"(2) [OF e(1) _ e(2) refl e(3) _ v [unfolded Some a] refl that] "6.prems" m t u skip_shrink [OF that] by simp
      then show ?thesis by (auto simp: m e v Some a simp del: unquote.simps split: list.split)
    qed (simp add: m e v del: unquote.simps)
  next
    case False
    then show ?thesis by (auto simp: m simp del: unquote.simps split: list.split option.split)
  qed
qed simp_all

lemma json_Parse_fuel:
  "2 * length s < n \<Longrightarrow> json_Parse s = (case p_value n 10000 s of None \<Rightarrow> None | Some (v, r) \<Rightarrow> if skip_space r = [] then Some v else None)"
  using p_fuel(1) [of s "Suc (2 * length s)" n 10000] by (simp add: json_Parse_def del: p_value.simps)

end
