(* ===== verification/Go_Std.thy ===== *)
theory Go_Std
  imports Dpop Go_JSON_Text
begin

text \<open>
  The standard library the DPoP verifier runs on: the record \<open>dpop_std\<close> with SHA-256, encoding/json and
  net/url put in. The properties of Dpop hold for every such record; the ones here need the real one.
\<close>

definition go_std :: "(string \<Rightarrow> goerr + string) \<Rightarrow> dpop_std" where
  "go_std lit = \<lparr>sha256 = Sum256, json_tree = json_Parse,
     url_Parse = (\<lambda>s. case Parse_URL lit s of Inl e \<Rightarrow> None | Inr u \<Rightarrow> Some u), url_String = URL_String\<rparr>"

section \<open>The URL a proof is for\<close>

lemma stripURL_Inr:
  "Parse_URL lit s = Inr u \<Longrightarrow> stripURL (go_std lit) s = URL_String (u\<lparr>u_RawQuery := [], u_Fragment := []\<rparr>)"
  by (simp add: stripURL_def go_std_def)

lemma stripURL_Inl: "Parse_URL lit s = Inl e \<Longrightarrow> stripURL (go_std lit) s = s"
  by (simp add: stripURL_def go_std_def)

lemma Cut_absent [simp]: "c \<notin> set s \<Longrightarrow> strings_Cut s c = (s, [])"
  by (induction s) (auto simp: strings_Cut_def)

lemma Cut_append [simp]: "c \<notin> set s \<Longrightarrow> strings_Cut (s @ c # t) c = (s, t)"
  by (induction s) (auto simp: strings_Cut_def)

text \<open>The scheme of a URL is decided before its query.\<close>

lemma getScheme_query:
  "getScheme (s @ CHR ''?'' # q) = map_sum id (\<lambda>(a, r). (a, r @ CHR ''?'' # q)) (getScheme s)"
proof -
  let ?P = "\<lambda>c. is_alpha c \<or> is_digit c \<or> c \<in> set ''+-.''"
  have "\<not> ?P CHR ''?''" by (simp add: is_alpha_def is_digit_def byte_def)
  then have t: "takeWhile ?P (s @ CHR ''?'' # q) = takeWhile ?P s" by (induction s) auto
  have d: "drop (length (takeWhile ?P s)) (s @ CHR ''?'' # q) = drop (length (takeWhile ?P s)) s @ CHR ''?'' # q"
    by (simp add: length_takeWhile_le)
  show ?thesis unfolding getScheme_def Let_def t d
    by (cases "drop (length (takeWhile ?P s)) s") auto
qed

text \<open>A non-empty query only sets \<open>RawQuery\<close>; an empty one sets \<open>ForceQuery\<close>.\<close>

lemma getScheme_rest: "getScheme s = Inr (a, r) \<Longrightarrow> set r \<subseteq> set s"
  by (auto simp: getScheme_def Let_def split: if_splits dest!: in_set_dropD list.set_sel(2) [rotated])

lemma cut_query_none: "CHR ''?'' \<notin> set r \<Longrightarrow> cut_query r = (r, False, [])"
  by (cases r rule: rev_cases) (auto simp: cut_query_def)

lemma cut_query_some: "CHR ''?'' \<notin> set r \<Longrightarrow> cut_query (r @ CHR ''?'' # q) = (r, q = [], q)"
  by (auto simp: cut_query_def butlast_append)

text \<open>The parser passes the query fields through.\<close>

lemma parse_rest_query:
  "parse_rest lit rest (u\<lparr>u_ForceQuery := f, u_RawQuery := q\<rparr>) =
     map_sum id (\<lambda>u. u\<lparr>u_ForceQuery := f, u_RawQuery := q\<rparr>) (parse_rest lit rest u)"
proof -
  have "setPath p (u\<lparr>u_ForceQuery := f, u_RawQuery := q, u_User := a, u_Host := h\<rparr>)
      = map_sum id (\<lambda>u. u\<lparr>u_ForceQuery := f, u_RawQuery := q\<rparr>) (setPath p (u\<lparr>u_User := a, u_Host := h\<rparr>))" for p a h
    by (simp add: setPath_def split: sum.split)
  moreover have "setPath p (u\<lparr>u_ForceQuery := f, u_RawQuery := q, u_OmitHost := b\<rparr>)
      = map_sum id (\<lambda>u. u\<lparr>u_ForceQuery := f, u_RawQuery := q\<rparr>) (setPath p (u\<lparr>u_OmitHost := b\<rparr>))" for p b
    by (simp add: setPath_def split: sum.split)
  ultimately show ?thesis unfolding parse_rest_def by (simp split: sum.split prod.split)
qed


abbreviation no_controls :: "string \<Rightarrow> bool" where
  "no_controls s \<equiv> list_all (\<lambda>c. 0x20 \<le> byte c \<and> byte c \<noteq> 0x7F) s"

lemma url_parse_query:
  assumes "url_parse lit s = Inr u" "s \<noteq> ''*''" "CHR ''?'' \<notin> set s" "no_controls q"
  shows "url_parse lit (s @ CHR ''?'' # q) = Inr (u\<lparr>u_ForceQuery := (q = []), u_RawQuery := q\<rparr>)"
proof -
  from assms(1,2) obtain a r where g: "getScheme s = Inr (a, r)" and c: "no_controls s"
    by (auto simp: url_parse_def split: if_splits sum.splits)
  have r: "CHR ''?'' \<notin> set r" using getScheme_rest [OF g] assms(3) by blast
  have z: "zero_url\<lparr>u_Scheme := x, u_ForceQuery := False, u_RawQuery := []\<rparr> = zero_url\<lparr>u_Scheme := x\<rparr>" for x
    by (simp add: zero_url_def)
  from assms(1,2) c g have "parse_rest lit r (zero_url\<lparr>u_Scheme := map ascii_lower a\<rparr>) = Inr u"
    by (simp add: url_parse_def cut_query_none [OF r] z)
  then show ?thesis using assms(2,4) c
    by (simp add: url_parse_def getScheme_query g cut_query_some [OF r] parse_rest_query byte_def) (cases s; simp)
qed

lemma Parse_URL_plain: "CHR ''#'' \<notin> set s \<Longrightarrow> Parse_URL lit s = Inr u \<longleftrightarrow> url_parse lit s = Inr u"
  by (simp add: Parse_URL_def split: sum.split)

lemma Parse_URL_fragment:
  assumes "url_parse lit s = Inr u" "CHR ''#'' \<notin> set s" "unescape f encodeFragment = Inr g"
  shows "\<exists>r. Parse_URL lit (s @ CHR ''#'' # f) = Inr (u\<lparr>u_Fragment := (if f = [] then u_Fragment u else g), u_RawFragment := r\<rparr>)"
proof -
  show ?thesis
  proof (cases "f = []")
    case True
    with assms show ?thesis by (intro exI [of _ "u_RawFragment u"]) (simp add: Parse_URL_def)
  next
    case False
    with assms show ?thesis by (simp add: Parse_URL_def setFragment_def) blast
  qed
qed

lemma URL_String_strip:
  "URL_String (u\<lparr>u_Fragment := x, u_RawFragment := r, u_RawQuery := [], u_Fragment := []\<rparr>) = URL_String (u\<lparr>u_RawQuery := [], u_Fragment := []\<rparr>)"
  by (simp add: URL_String_def EscapedPath_def url_authority_def)

lemma URL_String_force:
  "\<not> u_ForceQuery u \<Longrightarrow>
   URL_String (u\<lparr>u_ForceQuery := b, u_RawQuery := [], u_Fragment := []\<rparr>)
     = URL_String (u\<lparr>u_RawQuery := [], u_Fragment := []\<rparr>) @ (if b then ''?'' else [])"
  by (simp add: URL_String_def EscapedPath_def url_authority_def Let_def)


lemma url_parse_no_query:
  assumes "url_parse lit s = Inr u" "CHR ''?'' \<notin> set s"
  shows "\<not> u_ForceQuery u"
proof -
  have p: "\<not> u_ForceQuery v" if "setPath p w = Inr v" "\<not> u_ForceQuery w" for p v w
    using that by (auto simp: setPath_def split: sum.splits)
  have "\<not> u_ForceQuery v" if "parse_rest lit r w = Inr v" "\<not> u_ForceQuery w" for r v w
    using that by (auto simp: parse_rest_def split: if_splits sum.splits prod.splits dest!: p)
  moreover have "CHR ''?'' \<notin> set r" if "getScheme s = Inr (a, r)" for a r using getScheme_rest [OF that] assms(2) by blast
  ultimately show ?thesis
    using assms(1) by (auto simp: url_parse_def cut_query_none zero_url_def split: if_splits sum.splits)
qed

text \<open>C31: the URL of a DPoP proof is compared without its query and fragment: for a URL that net/url parses,
  adding a query, a fragment or both gives the same comparison key. The one exception is a query that is
  empty but present: its question mark stays, so a proof for such a URL only matches a request whose URL
  ends in one too.\<close>

theorem htu_ignores_query_and_fragment:
  assumes "Parse_URL lit s = Inr u" "s \<noteq> ''*''" "CHR ''?'' \<notin> set s" "CHR ''#'' \<notin> set s"
    and "no_controls q" "CHR ''#'' \<notin> set q" "unescape f encodeFragment = Inr g"
  shows "stripURL (go_std lit) (s @ CHR ''?'' # q) = stripURL (go_std lit) s @ (if q = [] then ''?'' else [])
    \<and> stripURL (go_std lit) (s @ CHR ''#'' # f) = stripURL (go_std lit) s
    \<and> stripURL (go_std lit) (s @ CHR ''?'' # q @ CHR ''#'' # f) = stripURL (go_std lit) s @ (if q = [] then ''?'' else [])"
proof -
  have u: "url_parse lit s = Inr u" using assms(1,4) by (simp add: Parse_URL_plain)
  let ?u = "u\<lparr>u_ForceQuery := (q = []), u_RawQuery := q\<rparr>"
  have q: "url_parse lit (s @ CHR ''?'' # q) = Inr ?u" using url_parse_query [OF u assms(2,3,5)] .
  have h: "CHR ''#'' \<notin> set (s @ CHR ''?'' # q)" using assms(4,6) by simp
  have strip_q: "URL_String (?u\<lparr>u_RawQuery := [], u_Fragment := []\<rparr>) = stripURL (go_std lit) s @ (if q = [] then ''?'' else [])"
    using URL_String_force [OF url_parse_no_query [OF u assms(3)]] stripURL_Inr [OF assms(1)] by simp
  have frag: "stripURL (go_std lit) (t @ CHR ''#'' # f) = URL_String (v\<lparr>u_RawQuery := [], u_Fragment := []\<rparr>)"
    if t: "url_parse lit t = Inr v" "CHR ''#'' \<notin> set t" for t v
  proof -
    obtain r x where "Parse_URL lit (t @ CHR ''#'' # f) = Inr (v\<lparr>u_Fragment := x, u_RawFragment := r\<rparr>)"
      using Parse_URL_fragment [OF t assms(7)] by blast
    from stripURL_Inr [OF this] show ?thesis using URL_String_strip [where u = v and x = x and r = r] by simp
  qed
  have "stripURL (go_std lit) (s @ CHR ''?'' # q) = URL_String (?u\<lparr>u_RawQuery := [], u_Fragment := []\<rparr>)"
    using stripURL_Inr q h by (simp add: Parse_URL_plain)
  then show ?thesis using strip_q frag [OF u assms(4)] frag [OF q h] stripURL_Inr [OF assms(1)] by simp
qed

theorem htu_ignores_query_and_fragment_witness:
  "stripURL (go_std no_literals) ''https://a/m?x=1#top'' = ''https://a/m''
     \<and> stripURL (go_std no_literals) ''https://a/m?'' = ''https://a/m?''"
proof -
  have "map_sum id (\<lambda>u. URL_String (u\<lparr>u_RawQuery := [], u_Fragment := []\<rparr>)) (Parse_URL no_literals ''https://a/m'') = Inr ''https://a/m''"
    by code_simp
  then obtain u where u: "Parse_URL no_literals ''https://a/m'' = Inr u" "stripURL (go_std no_literals) ''https://a/m'' = ''https://a/m''"
    by (cases "Parse_URL no_literals ''https://a/m''") (auto simp: stripURL_Inr)
  have f: "unescape ''top'' encodeFragment = Inr ''top''" by code_simp
  from htu_ignores_query_and_fragment [OF u(1), where q = "''x=1''", OF _ _ _ _ _ f]
    htu_ignores_query_and_fragment [OF u(1), where q = "[]", OF _ _ _ _ _ f] u(2)
  show ?thesis by (simp add: byte_def)
qed

end
