(* ===== verification/DPoP_Client.thy ===== *)
theory DPoP_Client
  imports Exchange Go_Std
begin

text \<open>
  The DPoP client of exchange/dpop.go against the verifier of dpop/: what the verifier reads in a proof the
  client signed. The claims travel as JSON text (Go_JSON_Text); signing and parsing a JWS are jwx functions,
  related by the hypothesis \<open>jws_signs\<close>.
\<close>

lemma hex_digit_ascii: "n < 16 \<Longrightarrow> byte (hex_digit n) < 0x80"
proof -
  have "list_all (\<lambda>n. byte (hex_digit n) < 0x80) [0..<16]" by code_simp
  then show "n < 16 \<Longrightarrow> ?thesis" by (simp add: list_all_iff)
qed

lemma utf8_valid_hex: "utf8_valid (hex_EncodeToString s)"
proof (rule utf8_valid_ascii, induction s)
  case (Cons c s)
  then show ?case by (auto intro!: hex_digit_ascii simp: div_less_iff_less_mult)
qed simp

text \<open>What the claims of a proof decode to: the members it has, an empty \<open>ath\<close>.\<close>

definition client_claims :: "string \<Rightarrow> string \<Rightarrow> string \<Rightarrow> string \<Rightarrow> time \<Rightarrow> proofClaims" where
  "client_claims htm htu nonce jti t =
     \<lparr>pc_JTI = hex_EncodeToString jti, pc_HTM = htm, pc_HTU = htu, pc_IAT = time_toUnix t, pc_ATH = [], pc_Nonce = nonce\<rparr>"

lemma proof_members_wf:
  "utf8_valid htm \<Longrightarrow> utf8_valid htu \<Longrightarrow> utf8_valid nonce \<Longrightarrow> json_wf 10000 (proof_members htm htu nonce jti t)"
  using scan_number_Itoa [of "[]" "time_toUnix t"]
  by (auto simp: proof_members_def utf8_valid_hex utf8_valid_ascii byte_def simp del: utf8_valid.simps)

lemma dec_int64_Unix: "dec_int64 (JNum (Itoa (time_toUnix t))) cur = Some (time_toUnix t)"
  using wrap64_range [of "t div second - unixToInternal"]
  by (auto simp: dec_int64_def time_toUnix_def in_int64_def intro!: parse_int64_Itoa)

lemma decode_proof_members:
  assumes "utf8_valid htm" "utf8_valid htu" "utf8_valid nonce"
  shows "unmarshal_proofClaims (go_std lit) (json_Encode (proof_members htm htu nonce jti t)) = Some (client_claims htm htu nonce jti t)"
proof -
  have "json_Parse (json_Encode (proof_members htm htu nonce jti t)) = Some (proof_members htm htu nonce jti t)"
    by (rule json_Parse_Encode [OF proof_members_wf [OF assms]])
  then show ?thesis
    by (simp add: unmarshal_proofClaims_def go_std_def proof_members_def decode_struct_def match_field_def
        set_proofClaims_def dec_string_def dec_int64_Unix zero_proofClaims_def client_claims_def)
qed


text \<open>What jwx promises: parsing a signed message gives back its one protected header and its payload.\<close>

definition jws_signs :: "('raw, 'sk, 'pk, 'a) dpop_lib \<Rightarrow> 'pk jose \<Rightarrow> bool" where
  "jws_signs lib jo \<longleftrightarrow>
     (\<forall>payload key hdr pf. dl_Sign lib payload key hdr = Inr pf \<longrightarrow>
        jws_Parse jo pf = Some \<lparr>jm_Signatures = [hdr], jm_Payload = payload\<rparr>)"

text \<open>C12: the verifier reads in a proof of the exchange client exactly what the client put there: through the
  JSON text and the JWS, the type and the key of the header, and the method, URL, nonce, time and random
  identifier of the claims. Such a proof is for a token endpoint and carries no hash of an access token, so
  no resource server that enforces a binding accepts it, whatever else the request carries: a proof sent to
  an authorization server cannot be replayed against the library's own middleware.\<close>

theorem client_proof_read_back:
  assumes "jws_signs lib jo" "dl_Marshal lib = (\<lambda>j. Inr (json_Encode j))"
    and "dpop_proof lib d a htm htu nonce = (Inr pf, a')" "utf8_valid htm" "utf8_valid htu" "utf8_valid nonce"
  shows "\<exists>jti t pub payload. dl_draw lib a = ((Inr jti, t), a') \<and> dl_PublicKey lib (dp_key d) = Inr pub
    \<and> jws_Parse jo pf = Some \<lparr>jm_Signatures = [\<lparr>jh_Type = ''dpop+jwt'', jh_Algorithm = ''ES256'', jh_JWK = Some pub\<rparr>],
                             jm_Payload = payload\<rparr>
    \<and> proof_claims jo (go_std lit) pf =
        Some \<lparr>pc_JTI = hex_EncodeToString jti, pc_HTM = htm, pc_HTU = htu, pc_IAT = time_toUnix t, pc_ATH = [], pc_Nonce = nonce\<rparr>
    \<and> (in_BoundJKT inp \<noteq> [] \<and> pf \<in> set (in_Proofs inp) \<longrightarrow> fst (Enforce jo (go_std lit) v inp now cnow st) \<noteq> None)"
proof -
  obtain jti t pub where d: "dl_draw lib a = ((Inr jti, t), a')" "dl_PublicKey lib (dp_key d) = Inr pub"
    and s: "dl_Sign lib (json_Encode (proof_members htm htu nonce jti t)) (dp_key d)
        \<lparr>jh_Type = ''dpop+jwt'', jh_Algorithm = ''ES256'', jh_JWK = Some pub\<rparr> = Inr pf"
    using assms(2,3) by (auto simp: dpop_proof_def split: sum.splits prod.splits)
  from s assms(1) have p: "jws_Parse jo pf = Some \<lparr>jm_Signatures = [\<lparr>jh_Type = ''dpop+jwt'', jh_Algorithm = ''ES256'', jh_JWK = Some pub\<rparr>],
      jm_Payload = json_Encode (proof_members htm htu nonce jti t)\<rparr>"
    unfolding jws_signs_def by blast
  then have c: "proof_claims jo (go_std lit) pf = Some (client_claims htm htu nonce jti t)"
    using decode_proof_members [OF assms(4-6)] by (simp add: proof_claims_def)
  have "fst (Enforce jo (go_std lit) v inp now cnow st) \<noteq> None" if b: "in_BoundJKT inp \<noteq> []" "pf \<in> set (in_Proofs inp)"
  proof
    assume "fst (Enforce jo (go_std lit) v inp now cnow st) = None"
    then obtain st' where "Enforce jo (go_std lit) v inp now cnow st = (None, st')" by (metis prod.collapse)
    then obtain q key alg pc where q: "in_Proofs inp = [q]" "holder_proof jo (go_std lit) v q inp now key alg pc"
      using b(1) by (rule Enforce_accepted)
    with b(2) c holder_proof_claims [OF q(2)] have "pc = client_claims htm htu nonce jti t" by simp
    with q(2) show False by (simp add: holder_proof_def client_claims_def)
  qed
  with d p c show ?thesis unfolding client_claims_def by blast
qed

definition demo_client_lib :: "(unit, unit, string, unit) dpop_lib" where
  "demo_client_lib = \<lparr>dl_GenerateKey = (\<lambda>a. (Inr (), a)), dl_FromRaw = (\<lambda>r. Inr ()), dl_SetAlgorithm = (\<lambda>k alg. Inr k),
     dl_PublicKey = (\<lambda>k. Inr ''key''), dl_Marshal = (\<lambda>j. Inr (json_Encode j)),
     dl_Sign = (\<lambda>p k h. if h = \<lparr>jh_Type = ''dpop+jwt'', jh_Algorithm = ''ES256'', jh_JWK = Some ''key''\<rparr> then Inr p
                        else Inl (ErrorString ''unknown header'')),
     dl_draw = (\<lambda>a. ((Inr ''r'', time_Unix 1700000000), a)), dl_URLString = (\<lambda>u. u)\<rparr>"

theorem client_proof_read_back_witness:
  "\<exists>pf. dpop_proof demo_client_lib \<lparr>dp_base = None, dp_key = ()\<rparr> () ''POST'' ''https://as/token'' ''n'' = (Inr pf, ())
     \<and> proof_claims demo_jose (go_std no_literals) pf =
         Some \<lparr>pc_JTI = ''72'', pc_HTM = ''POST'', pc_HTU = ''https://as/token'', pc_IAT = 1700000000, pc_ATH = [], pc_Nonce = ''n''\<rparr>
     \<and> fst (Enforce demo_jose (go_std no_literals) (NewVerifier SeenBefore (demo_dpop_config None))
           (demo_input pf) demo_iat 0 NewMemoryReplayCache) \<noteq> None"
proof -
  let ?d = "\<lparr>dp_base = None, dp_key = ()\<rparr>"
  have js: "jws_signs demo_client_lib demo_jose" by (auto simp: jws_signs_def demo_client_lib_def demo_jose_def split: if_splits)
  have m: "dl_Marshal demo_client_lib = (\<lambda>j. Inr (json_Encode j))" by (simp add: demo_client_lib_def)
  obtain pf where pf: "dpop_proof demo_client_lib ?d () ''POST'' ''https://as/token'' ''n'' = (Inr pf, ())"
    by (simp add: dpop_proof_def demo_client_lib_def)
  have u: "utf8_valid ''POST''" "utf8_valid ''https://as/token''" "utf8_valid ''n''"
    by (rule utf8_valid_ascii; simp add: byte_def)+
  have b: "in_BoundJKT (demo_input pf) \<noteq> []" "pf \<in> set (in_Proofs (demo_input pf))" using demo_jkt by (simp_all add: demo_input_def)
  have h: "hex_EncodeToString ''r'' = ''72''" by code_simp
  have t: "time_toUnix (time_Unix 1700000000) = 1700000000" by (simp add: time_toUnix_Unix in_int64_def)
  have dr: "dl_draw demo_client_lib () = ((Inr ''r'', time_Unix 1700000000), ())" by (simp add: demo_client_lib_def)
  show ?thesis
    using client_proof_read_back [OF js m pf u, where lit = no_literals and inp = "demo_input pf"
        and v = "NewVerifier SeenBefore (demo_dpop_config None)" and now = demo_iat and cnow = 0 and st = NewMemoryReplayCache] pf b h t dr
    by auto
qed

end
