(* ===== verification/Jwkstest.thy ===== *)
theory Jwkstest
  imports Validator Go_HTTP Go_JSON_Text
begin

text \<open>
  internal/jwkstest/jwkstest.go: the issuer the repository's tests mint tokens with, an RSA key and a server
  for the matching JWKS document. The jwx functions are the record \<open>jwks_lib\<close>; a \<open>t.Fatalf\<close>, which ends
  the test, is a left summand with the message and its error. What the tests rely on is stated here: a
  token minted with the defaults is one the library's Validator accepts, one signed by another key is not.
\<close>

section \<open>Parameters\<close>

text \<open>The token a \<open>jwt.Builder\<close> describes; \<open>ts_Claims\<close> are the \<open>Claim\<close> calls in order.\<close>

record jwt_spec =
  ts_Issuer :: string
  ts_Audience :: "string list"
  ts_Subject :: string
  ts_IssuedAt :: time
  ts_Expiration :: time
  ts_NotBefore :: "time option"
  ts_Claims :: "(string \<times> any_val) list"

text \<open>The jwx functions; the last six read the \<open>kid\<close>, \<open>alg\<close> and \<open>use\<close> attributes of a key (empty when unset).\<close>

record ('raw, 'sk, 'pk, 'tok, 'a) jwks_lib =
  jl_GenerateKey :: "'a \<Rightarrow> (goerr + 'raw) \<times> 'a"
  jl_FromRaw :: "'raw \<Rightarrow> goerr + 'sk"
  jl_Set :: "'sk \<Rightarrow> string \<Rightarrow> string \<Rightarrow> goerr + 'sk"
  jl_PublicKey :: "'sk \<Rightarrow> goerr + 'pk"
  jl_AddKey :: "'pk list \<Rightarrow> 'pk \<Rightarrow> goerr + 'pk list"
  jl_EncodeSet :: "'pk list \<Rightarrow> string"
  jl_Build :: "jwt_spec \<Rightarrow> goerr + 'tok"
  jl_Sign :: "'tok \<Rightarrow> string \<Rightarrow> 'sk \<Rightarrow> goerr + string"
  jl_KeyID :: "'sk \<Rightarrow> string"
  jl_Algorithm :: "'sk \<Rightarrow> string"
  jl_KeyUsage :: "'sk \<Rightarrow> string"
  jl_pubKeyID :: "'pk \<Rightarrow> string"
  jl_pubAlgorithm :: "'pk \<Rightarrow> string"
  jl_pubKeyUsage :: "'pk \<Rightarrow> string"

section \<open>jwkstest.go\<close>

abbreviation (input) hour :: duration where "hour \<equiv> 60 * minute"

record ('sk, 'pk) JWKS =
  jk_serverURL :: string
  jk_set :: "'pk list"
  jk_privKey :: 'sk
  jk_issuer :: string
  jk_audience :: string

definition fatal :: "string \<Rightarrow> goerr \<Rightarrow> goerr" where
  "fatal msg err = Errorf (msg @ '': %v'') [] (Some err)"

text \<open>A key with the given identifier, marked for RS256; the three messages are the caller's.\<close>

definition new_key :: "('raw, 'sk, 'pk, 'tok, 'a) jwks_lib \<Rightarrow> string list \<Rightarrow> string \<Rightarrow> 'a \<Rightarrow> (goerr + 'sk) \<times> 'a" where
  "new_key lib msgs kid a =
     (case jl_GenerateKey lib a of
        (Inl err, a') \<Rightarrow> (Inl (fatal (msgs ! 0) err), a')
      | (Inr raw, a') \<Rightarrow>
          (case jl_FromRaw lib raw of
             Inl err \<Rightarrow> (Inl (fatal (msgs ! 1) err), a')
           | Inr key \<Rightarrow>
          (case jl_Set lib key ''kid'' kid of
             Inl err \<Rightarrow> (Inl (fatal (msgs ! 2) err), a')
           | Inr key' \<Rightarrow>
          (case jl_Set lib key' ''alg'' ''RS256'' of
             Inl err \<Rightarrow> (Inl (fatal (msgs ! 3) err), a')
           | Inr key'' \<Rightarrow> (Inr key'', a')))))"

definition jwkstest_New :: "('raw, 'sk, 'pk, 'tok, 'a) jwks_lib \<Rightarrow> string \<Rightarrow> 'a \<Rightarrow> (goerr + ('sk, 'pk) JWKS) \<times> 'a" where
  "jwkstest_New lib server a =
     (case new_key lib [''generate rsa'', ''jwk.FromRaw'', ''set kid'', ''set alg''] ''test-key-1'' a of
        (Inl err, a') \<Rightarrow> (Inl err, a')
      | (Inr priv, a') \<Rightarrow>
          (case jl_PublicKey lib priv of
             Inl err \<Rightarrow> (Inl (fatal ''public key'' err), a')
           | Inr pub \<Rightarrow>
          (case jl_AddKey lib [] pub of
             Inl err \<Rightarrow> (Inl (fatal ''add key'' err), a')
           | Inr keys \<Rightarrow>
               (Inr \<lparr>jk_serverURL = server, jk_set = keys, jk_privKey = priv,
                     jk_issuer = ''https://test-issuer.example.com/oauth2/aus123'',
                     jk_audience = ''https://mcp.test.example.com''\<rparr>, a'))))"

text \<open>The handler the test server has at \<open>/jwks\<close>.\<close>

definition jwks_handler :: "('raw, 'sk, 'pk, 'tok, 'a) jwks_lib \<Rightarrow> ('sk, 'pk) JWKS \<Rightarrow> response \<Rightarrow> response" where
  "jwks_handler lib j w =
     Write (BodyText (jl_EncodeSet lib (jk_set j) @ [CHR 0x0A])) (set_header ''Content-Type'' ''application/json'' w)"

definition jwks_URL :: "('sk, 'pk) JWKS \<Rightarrow> string" where
  "jwks_URL j = jk_serverURL j @ ''/jwks''"

definition jwks_Issuer :: "('sk, 'pk) JWKS \<Rightarrow> string" where
  "jwks_Issuer j = jk_issuer j"

definition jwks_Audience :: "('sk, 'pk) JWKS \<Rightarrow> string" where
  "jwks_Audience j = jk_audience j"

record claim_set =
  cs_Subject :: string
  cs_Email :: string
  cs_Issuer :: string
  cs_Audience :: string
  cs_NotAfter :: duration
  cs_NotBefore :: duration
  cs_Private :: "(string, any_val) gomap"

definition mint_spec :: "('sk, 'pk) JWKS \<Rightarrow> claim_set \<Rightarrow> time \<Rightarrow> jwt_spec" where
  "mint_spec j cs now =
     (let notAfter = (if cs_NotAfter cs = 0 then hour else cs_NotAfter cs);
          iss = (if cs_Issuer cs \<noteq> [] then cs_Issuer cs else jk_issuer j);
          aud = (if cs_Audience cs \<noteq> [] then cs_Audience cs else jk_audience j)
      in \<lparr>ts_Issuer = iss, ts_Audience = [aud], ts_Subject = cs_Subject cs, ts_IssuedAt = now,
          ts_Expiration = time_Add now notAfter,
          ts_NotBefore = (if cs_NotBefore cs \<noteq> 0 then Some (time_Add now (cs_NotBefore cs)) else None),
          ts_Claims = (if cs_Email cs \<noteq> [] then [(''email'', AnyString (cs_Email cs))] else []) @ cs_Private cs\<rparr>)"

definition signWith :: "('raw, 'sk, 'pk, 'tok, 'a) jwks_lib \<Rightarrow> ('sk, 'pk) JWKS \<Rightarrow> claim_set \<Rightarrow> 'sk \<Rightarrow> time \<Rightarrow> goerr + string" where
  "signWith lib j cs key now =
     (case jl_Build lib (mint_spec j cs now) of
        Inl err \<Rightarrow> Inl (fatal ''build token'' err)
      | Inr tok \<Rightarrow>
          (case jl_Sign lib tok ''RS256'' key of
             Inl err \<Rightarrow> Inl (fatal ''sign token'' err)
           | Inr b \<Rightarrow> Inr b))"

definition Mint :: "('raw, 'sk, 'pk, 'tok, 'a) jwks_lib \<Rightarrow> ('sk, 'pk) JWKS \<Rightarrow> claim_set \<Rightarrow> time \<Rightarrow> goerr + string" where
  "Mint lib j cs now = signWith lib j cs (jk_privKey j) now"

definition foreign_msgs :: "string list" where
  "foreign_msgs = [''generate foreign rsa'', ''jwk.FromRaw (foreign)'', ''set foreign kid'', ''set foreign alg'']"

definition MintWithWrongKey :: "('raw, 'sk, 'pk, 'tok, 'a) jwks_lib \<Rightarrow> ('sk, 'pk) JWKS \<Rightarrow> claim_set \<Rightarrow> 'a \<Rightarrow> time
    \<Rightarrow> (goerr + string) \<times> 'a" where
  "MintWithWrongKey lib j cs a now =
     (case new_key lib foreign_msgs ''foreign-key'' a of
        (Inl err, a') \<Rightarrow> (Inl err, a')
      | (Inr other, a') \<Rightarrow> (signWith lib j cs other now, a'))"


section \<open>What the tests rely on\<close>

text \<open>
  Documented behaviour of jwx. A key is added to an empty set as its one element. A key made from raw
  material has no use attribute, \<open>Set\<close> changes the named attribute of a key and keeps the others, and a
  public key has the attributes of its private key.
\<close>

definition jwx_adds_key :: "('raw, 'sk, 'pk, 'tok, 'a) jwks_lib \<Rightarrow> bool" where
  "jwx_adds_key lib \<longleftrightarrow> (\<forall>pub keys. jl_AddKey lib [] pub = Inr keys \<longrightarrow> set keys = {pub})"

definition jwx_key_attributes :: "('raw, 'sk, 'pk, 'tok, 'a) jwks_lib \<Rightarrow> bool" where
  "jwx_key_attributes lib \<longleftrightarrow>
     (\<forall>raw k. jl_FromRaw lib raw = Inr k \<longrightarrow> jl_KeyUsage lib k = [])
     \<and> (\<forall>k n x k'. jl_Set lib k n x = Inr k' \<longrightarrow>
          jl_KeyID lib k' = (if n = ''kid'' then x else jl_KeyID lib k)
          \<and> jl_Algorithm lib k' = (if n = ''alg'' then x else jl_Algorithm lib k)
          \<and> jl_KeyUsage lib k' = (if n = ''use'' then x else jl_KeyUsage lib k))
     \<and> (\<forall>k pub. jl_PublicKey lib k = Inr pub \<longrightarrow>
          jl_pubKeyID lib pub = jl_KeyID lib k \<and> jl_pubAlgorithm lib pub = jl_Algorithm lib k
          \<and> jl_pubKeyUsage lib pub = jl_KeyUsage lib k)"

definition registered :: "string list" where
  "registered = [''iss'', ''aud'', ''sub'', ''iat'', ''exp'', ''nbf'']"

definition in_time :: "jwt_spec \<Rightarrow> duration \<Rightarrow> time \<Rightarrow> bool" where
  "in_time spec skew now \<longleftrightarrow> now + second \<le> ts_Expiration spec + skew \<and> ts_IssuedAt spec \<le> now + skew
     \<and> (case ts_NotBefore spec of None \<Rightarrow> True | Some t \<Rightarrow> t \<le> now + skew)"

text \<open>
  \<open>jwt.WithKeySet\<close>: a token is verified with the key of the set that has the key id of the signer (which
  signing wrote into the token), unless that key is reserved for another use, and only under the algorithm
  that key is marked with.
\<close>

definition key_selected :: "('raw, 'sk, 'pk, 'tok, 'a) jwks_lib \<Rightarrow> 'pk list \<Rightarrow> 'sk \<Rightarrow> 'pk \<Rightarrow> bool" where
  "key_selected lib keys key pub \<longleftrightarrow>
     pub \<in> set keys \<and> jl_KeyID lib key \<noteq> [] \<and> jl_pubKeyID lib pub = jl_KeyID lib key \<and> jl_pubAlgorithm lib pub = ''RS256''
     \<and> jl_pubKeyUsage lib pub = []
     \<and> (\<forall>k \<in> set keys. jl_pubKeyID lib k = jl_KeyID lib key \<longrightarrow> k = pub)"

text \<open>
  A signed token is not empty. It parses under a key set and the expected issuer and audience when the key
  selected from the set is the public key of the signer, its strings survive JSON (they are UTF-8), the issuer and audience are the expected ones, and
  the clock is at least a second (dates are kept in whole seconds) before the expiry and after the start,
  each extended by the skew. It is refused, not as an expired one, when no key of the set has the
  signer's key id.
\<close>

definition text_claims :: "jwt_spec \<Rightarrow> bool" where
  "text_claims spec \<longleftrightarrow> utf8_valid (ts_Issuer spec) \<and> utf8_valid (ts_Subject spec) \<and> list_all utf8_valid (ts_Audience spec)"

definition jwx_verifies :: "('raw, 'sk, 'pk, 'tok, 'a) jwks_lib \<Rightarrow> 'pk list jwx \<Rightarrow> time \<Rightarrow> bool" where
  "jwx_verifies lib env now \<longleftrightarrow>
     (\<forall>spec tok key pub b keys iss aud skew.
        jl_Build lib spec = Inr tok \<longrightarrow> jl_Sign lib tok ''RS256'' key = Inr b \<longrightarrow>
        b \<noteq> []
        \<and> (jl_PublicKey lib key = Inr pub \<longrightarrow> key_selected lib keys key pub \<longrightarrow> ts_Issuer spec = iss \<longrightarrow>
             aud \<in> set (ts_Audience spec) \<longrightarrow> in_time spec skew now \<longrightarrow> text_claims spec \<longrightarrow>
             list_all (\<lambda>c. fst c \<notin> set registered) (ts_Claims spec) \<longrightarrow>
             (\<exists>t. jwx_Parse env b keys iss aud skew = Inr t \<and> tok_Issuer t = iss \<and> tok_Audience t = ts_Audience spec
                \<and> tok_Subject t = ts_Subject spec))
        \<and> ((\<forall>k \<in> set keys. jl_pubKeyID lib k \<noteq> jl_KeyID lib key) \<longrightarrow>
             (\<exists>e. jwx_Parse env b keys iss aud skew = Inl e \<and> \<not> jwx_IsTokenExpired env e)))"

lemma jwx_verified:
  assumes "jwx_verifies lib env now" "jl_Build lib spec = Inr tok" "jl_Sign lib tok ''RS256'' key = Inr b" "jl_PublicKey lib key = Inr pub"
    and "key_selected lib keys key pub" "ts_Issuer spec = iss" "aud \<in> set (ts_Audience spec)" "in_time spec skew now"
      "text_claims spec" "list_all (\<lambda>c. fst c \<notin> set registered) (ts_Claims spec)"
  shows "b \<noteq> [] \<and> (\<exists>t. jwx_Parse env b keys iss aud skew = Inr t \<and> tok_Issuer t = iss \<and> tok_Audience t = ts_Audience spec
    \<and> tok_Subject t = ts_Subject spec)"
  using assms unfolding jwx_verifies_def by blast

lemma jwx_refused:
  assumes "jwx_verifies lib env now" "jl_Build lib spec = Inr tok" "jl_Sign lib tok ''RS256'' key = Inr b"
    and "\<forall>k \<in> set keys. jl_pubKeyID lib k \<noteq> jl_KeyID lib key"
  shows "b \<noteq> [] \<and> (\<exists>e. jwx_Parse env b keys iss aud skew = Inl e \<and> \<not> jwx_IsTokenExpired env e)"
  using assms unfolding jwx_verifies_def by blast

text \<open>The keys the package makes carry their id and RS256.\<close>

lemma new_key_attributes:
  assumes "jwx_key_attributes lib" and "new_key lib msgs kid a = (Inr key, a')"
  shows "jl_KeyID lib key = kid \<and> jl_Algorithm lib key = ''RS256'' \<and> jl_KeyUsage lib key = []"
proof -
  from assms(2) obtain raw k k' where "jl_FromRaw lib raw = Inr k" "jl_Set lib k ''kid'' kid = Inr k'" "jl_Set lib k' ''alg'' ''RS256'' = Inr key"
    by (auto simp: new_key_def split: prod.splits sum.splits)
  with assms(1) show ?thesis by (auto simp: jwx_key_attributes_def)
qed

lemma jwkstest_New_facts:
  assumes "jwkstest_New lib server a = (Inr j, a')" and "jwx_adds_key lib" and "jwx_key_attributes lib"
  obtains pub where "jl_PublicKey lib (jk_privKey j) = Inr pub" "key_selected lib (jk_set j) (jk_privKey j) pub"
    "\<forall>k \<in> set (jk_set j). jl_pubKeyID lib k = ''test-key-1''" "utf8_valid (jk_issuer j)" "utf8_valid (jk_audience j)"
proof -
  obtain pub where key: "new_key lib [''generate rsa'', ''jwk.FromRaw'', ''set kid'', ''set alg''] ''test-key-1'' a = (Inr (jk_privKey j), a')"
    and pub: "jl_PublicKey lib (jk_privKey j) = Inr pub" "set (jk_set j) = {pub}"
    and names: "jk_issuer j = ''https://test-issuer.example.com/oauth2/aus123''" "jk_audience j = ''https://mcp.test.example.com''"
    using assms(1,2) by (auto simp: jwkstest_New_def jwx_adds_key_def split: prod.splits sum.splits)
  have "utf8_valid (jk_issuer j)" "utf8_valid (jk_audience j)" unfolding names by (rule utf8_valid_ascii; simp add: byte_def)+
  moreover have "jl_KeyID lib (jk_privKey j) = ''test-key-1''" "jl_pubKeyID lib pub = ''test-key-1''" "jl_pubAlgorithm lib pub = ''RS256''"
    "jl_pubKeyUsage lib pub = []"
    using new_key_attributes [OF assms(3) key] assms(3) pub(1) by (auto simp: jwx_key_attributes_def)
  ultimately show ?thesis using that pub by (simp add: key_selected_def)
qed

text \<open>C40: the tests' tokens mean what the tests take them to mean. Against a Validator configured with the
  URL, issuer and audience of a JWKS, and no further verifiers: a token minted with a zero ClaimSet but for
  subject (valid UTF-8), email and private claims (not the registered names) is accepted for an hour from its minting, as its subject (the served
  key has the id the token names and is marked RS256, without which jwx refuses every token); a token with
  the same claims minted with the wrong key is refused as invalid, at any time, because no served key has
  its id.\<close>

theorem minted_token_accepted:
  assumes new: "jwkstest_New lib server a = (Inr j, a1)" "jwx_adds_key lib" "jwx_key_attributes lib" and jwx: "jwx_verifies lib env now"
    and keys: "jwx_CacheGet env (jwks_URL j) = Inr (jk_set j)"
    and v: "NewValidator env \<lparr>JWKSURL = jwks_URL j, cfg_Issuer = jwks_Issuer j, cfg_Audience = jwks_Audience j,
              MinRefreshInterval = 0, ClockSkew = 0, Verifiers = []\<rparr> = Inr v"
    and cs: "cs = \<lparr>cs_Subject = sub, cs_Email = email, cs_Issuer = [], cs_Audience = [], cs_NotAfter = 0, cs_NotBefore = 0, cs_Private = priv\<rparr>"
      "utf8_valid sub" "list_all (\<lambda>c. fst c \<notin> set registered) priv"
    and at: "sane_time t" "t \<le> now" "now \<le> t + hour"
  shows "(Mint lib j cs t = Inr b \<longrightarrow>
           (\<exists>c. Validate env v ctx b = Inr c \<and> Subject c = sub \<and> Issuer c = jwks_Issuer j \<and> Audience c = [jwks_Audience j]))
    \<and> (MintWithWrongKey lib j cs a2 t = (Inr b, a3) \<longrightarrow> (\<exists>cause. Validate env v ctx b = Inl (AuthErr (With ErrInvalidToken cause))))"
proof -
  obtain pub where pub: "jl_PublicKey lib (jk_privKey j) = Inr pub" "key_selected lib (jk_set j) (jk_privKey j) pub"
    and ids: "\<forall>k \<in> set (jk_set j). jl_pubKeyID lib k = ''test-key-1''" and utf8: "utf8_valid (jk_issuer j)" "utf8_valid (jk_audience j)"
    using jwkstest_New_facts [OF new] by blast
  have cfg: "JWKSURL (v_cfg v) = jwks_URL j" "cfg_Issuer (v_cfg v) = jk_issuer j" "cfg_Audience (v_cfg v) = jk_audience j"
      "Verifiers (v_cfg v) = []" "ClockSkew (v_cfg v) = 30 * second"
    using v by (auto simp: NewValidator_def jwks_Issuer_def jwks_Audience_def Let_def split: if_splits option.splits)
  let ?spec = "mint_spec j cs t"
  have spec: "ts_Issuer ?spec = jk_issuer j" "ts_Audience ?spec = [jk_audience j]" "ts_Subject ?spec = sub"
      "in_time ?spec (30 * second) now" "list_all (\<lambda>c. fst c \<notin> set registered) (ts_Claims ?spec)"
    using cs at by (simp_all add: mint_spec_def in_time_def registered_def sane_time_Add in_int64_def)
  have txts: "text_claims ?spec" using spec(1-3) utf8 cs(2) by (simp add: text_claims_def)
  have accept: "\<exists>c. Validate env v ctx b = Inr c \<and> Subject c = sub \<and> Issuer c = jwks_Issuer j \<and> Audience c = [jwks_Audience j]"
    if m: "Mint lib j cs t = Inr b"
  proof -
    obtain tok where tok: "jl_Build lib ?spec = Inr tok" "jl_Sign lib tok ''RS256'' (jk_privKey j) = Inr b"
      using m by (auto simp: Mint_def signWith_def split: sum.splits)
    obtain tk where "jwx_Parse env b (jk_set j) (jk_issuer j) (jk_audience j) (30 * second) = Inr tk" "b \<noteq> []"
        "tok_Issuer tk = jk_issuer j" "tok_Audience tk = [jk_audience j]" "tok_Subject tk = sub"
      using jwx_verified [OF jwx tok pub spec(1) _ spec(4) txts spec(5), of "jk_audience j"] spec(2,3) by auto
    then show ?thesis using keys cfg by (simp add: Validate_def jwks_Issuer_def jwks_Audience_def)
  qed
  have refuse: "\<exists>cause. Validate env v ctx b = Inl (AuthErr (With ErrInvalidToken cause))"
    if m: "MintWithWrongKey lib j cs a2 t = (Inr b, a3)"
  proof -
    obtain other where o: "new_key lib foreign_msgs ''foreign-key'' a2 = (Inr other, a3)" "signWith lib j cs other t = Inr b"
      using m by (auto simp: MintWithWrongKey_def split: prod.splits sum.splits)
    have no: "\<forall>k \<in> set (jk_set j). jl_pubKeyID lib k \<noteq> jl_KeyID lib other" using new_key_attributes [OF new(3) o(1)] ids by simp
    obtain tok where tok: "jl_Build lib ?spec = Inr tok" "jl_Sign lib tok ''RS256'' other = Inr b"
      using o(2) by (auto simp: signWith_def split: sum.splits)
    from jwx_refused [OF jwx tok no]
    obtain e where "jwx_Parse env b (jk_set j) (jk_issuer j) (jk_audience j) (30 * second) = Inl e" "\<not> jwx_IsTokenExpired env e" "b \<noteq> []"
      by blast
    then show ?thesis using keys cfg by (auto simp: Validate_def isExpiredError_def)
  qed
  from accept refuse show ?thesis by blast
qed

definition demo_cs :: claim_set where
  "demo_cs = \<lparr>cs_Subject = ''u'', cs_Email = [], cs_Issuer = [], cs_Audience = [], cs_NotAfter = 0, cs_NotBefore = 0, cs_Private = []\<rparr>"

definition demo_jwks :: "(string \<times> string, string \<times> string) JWKS" where
  "demo_jwks = \<lparr>jk_serverURL = ''http://127.0.0.1:1'', jk_set = [(''test-key-1'', ''RS256'')], jk_privKey = (''test-key-1'', ''RS256''),
     jk_issuer = ''https://test-issuer.example.com/oauth2/aus123'', jk_audience = ''https://mcp.test.example.com''\<rparr>"

definition demo_minted :: time where
  "demo_minted = time_Unix 1700000000"

text \<open>Keys that are their two attributes, and a builder for the tokens of the demonstration, which name their key.\<close>

definition demo_jwks_lib :: "(unit, string \<times> string, string \<times> string, unit, unit) jwks_lib" where
  "demo_jwks_lib = \<lparr>jl_GenerateKey = (\<lambda>a. (Inr (), a)), jl_FromRaw = (\<lambda>r. Inr ([], [])),
     jl_Set = (\<lambda>(i, g) n x. if n = ''use'' then Inl (ErrorString ''no use'')
       else Inr (if n = ''kid'' then x else i, if n = ''alg'' then x else g)), jl_PublicKey = Inr,
     jl_AddKey = (\<lambda>ks p. Inr (ks @ [p])), jl_EncodeSet = (\<lambda>ks. ''{}''),
     jl_Build = (\<lambda>spec. if spec = mint_spec demo_jwks demo_cs demo_minted then Inr () else Inl (ErrorString ''unknown'')),
     jl_Sign = (\<lambda>tok alg k. Inr (''t'' @ fst k)), jl_KeyID = fst, jl_Algorithm = snd, jl_KeyUsage = (\<lambda>k. []),
     jl_pubKeyID = fst, jl_pubAlgorithm = snd, jl_pubKeyUsage = (\<lambda>k. [])\<rparr>"

definition demo_verifier :: "(string \<times> string) list jwx" where
  "demo_verifier = \<lparr>jwx_Register = \<lambda>_ _. None, jwx_Refresh = \<lambda>_. None, jwx_CacheGet = \<lambda>_. Inr [(''test-key-1'', ''RS256'')],
     jwx_Parse = \<lambda>b ks iss aud skew. (if list_ex (\<lambda>k. b = ''t'' @ fst k \<and> snd k = ''RS256'') ks
       then Inr \<lparr>tok_Subject = ''u'', tok_Issuer = iss, tok_Audience = [''https://mcp.test.example.com''], tok_Expiration = 0,
                 tok_IssuedAt = 0, tok_Get = Map.empty, tok_PrivateClaims = []\<rparr>
       else Inl (ErrorString ''no key'')),
     jwx_ParseInsecure = \<lambda>b. Inl (ErrorString ''unused''), jwx_IsTokenExpired = \<lambda>_. False\<rparr>"

theorem minted_token_accepted_witness:
  "\<exists>v c cause. NewValidator demo_verifier \<lparr>JWKSURL = jwks_URL demo_jwks, cfg_Issuer = jwks_Issuer demo_jwks, cfg_Audience = jwks_Audience demo_jwks,
       MinRefreshInterval = 0, ClockSkew = 0, Verifiers = []\<rparr> = Inr v
     \<and> Validate demo_verifier v [] ''ttest-key-1'' = Inr c \<and> Subject c = ''u''
     \<and> Validate demo_verifier v [] ''tforeign-key'' = Inl (AuthErr (With ErrInvalidToken cause))"
proof -
  let ?lib = demo_jwks_lib and ?j = demo_jwks
  have new: "jwkstest_New ?lib ''http://127.0.0.1:1'' () = (Inr ?j, ())"
    by (simp add: jwkstest_New_def new_key_def demo_jwks_lib_def demo_jwks_def)
  have add: "jwx_adds_key ?lib" by (simp add: jwx_adds_key_def demo_jwks_lib_def)
  have attr: "jwx_key_attributes ?lib" by (auto simp: jwx_key_attributes_def demo_jwks_lib_def)
  have ver: "jwx_verifies ?lib demo_verifier demo_minted"
    unfolding jwx_verifies_def
  proof (intro allI impI)
    fix spec tok key pub b keys iss aud skew
    assume "jl_Build ?lib spec = Inr tok" and "jl_Sign ?lib tok ''RS256'' key = Inr b"
    then have spec: "ts_Audience spec = [''https://mcp.test.example.com'']" "ts_Subject spec = ''u''" and b: "b = ''t'' @ fst key"
      by (auto simp: demo_jwks_lib_def mint_spec_def demo_cs_def demo_jwks_def split: if_splits)
    show "b \<noteq> [] \<and> (jl_PublicKey ?lib key = Inr pub \<longrightarrow> key_selected ?lib keys key pub \<longrightarrow> ts_Issuer spec = iss \<longrightarrow>
             aud \<in> set (ts_Audience spec) \<longrightarrow> in_time spec skew demo_minted \<longrightarrow> text_claims spec \<longrightarrow>
             list_all (\<lambda>c. fst c \<notin> set registered) (ts_Claims spec) \<longrightarrow>
             (\<exists>t. jwx_Parse demo_verifier b keys iss aud skew = Inr t \<and> tok_Issuer t = iss \<and> tok_Audience t = ts_Audience spec
                \<and> tok_Subject t = ts_Subject spec))
        \<and> ((\<forall>k \<in> set keys. jl_pubKeyID ?lib k \<noteq> jl_KeyID ?lib key) \<longrightarrow>
             (\<exists>e. jwx_Parse demo_verifier b keys iss aud skew = Inl e \<and> \<not> jwx_IsTokenExpired demo_verifier e))"
      unfolding spec by (auto simp: b key_selected_def demo_jwks_lib_def demo_verifier_def list_ex_iff) (metis fst_conv)+
  qed
  have keys: "jwx_CacheGet demo_verifier (jwks_URL ?j) = Inr (jk_set ?j)" by (simp add: demo_verifier_def demo_jwks_def)
  have at: "sane_time demo_minted" "demo_minted \<le> demo_minted" "demo_minted \<le> demo_minted + hour"
    by (simp_all add: demo_minted_def sane_time_def time_Unix_eq)
  obtain v where v: "NewValidator demo_verifier \<lparr>JWKSURL = jwks_URL ?j, cfg_Issuer = jwks_Issuer ?j, cfg_Audience = jwks_Audience ?j,
       MinRefreshInterval = 0, ClockSkew = 0, Verifiers = []\<rparr> = Inr v"
    by (simp add: NewValidator_def demo_verifier_def jwks_URL_def jwks_Issuer_def jwks_Audience_def demo_jwks_def)
  have mint: "Mint ?lib ?j demo_cs demo_minted = Inr ''ttest-key-1''"
    "MintWithWrongKey ?lib ?j demo_cs () demo_minted = (Inr ''tforeign-key'', ())"
    by (simp_all add: Mint_def MintWithWrongKey_def signWith_def new_key_def demo_jwks_lib_def demo_jwks_def)
  have u: "utf8_valid ''u''" by (rule utf8_valid_ascii) (simp add: byte_def)
  note both = minted_token_accepted [OF new add attr ver keys v demo_cs_def u _ at]
  from both [of "''ttest-key-1''" "[]"] both [of "''tforeign-key''" "[]" "()" "()"] mint v show ?thesis by auto
qed

end
