(* ===== verification/Downstream.thy ===== *)
theory Downstream
  imports Exchange
begin

text \<open>
  exchange/idjag.go: the two-step Identity Assertion JWT Authorization Grant. The provider owns two
  exchangers, one per authorization server, with a cache that stores nothing, and a cache of its own for
  the final token. The two authorization servers are two networks with two authenticator states.
\<close>

record ('a, 'n) endpoint =
  ep_TokenURL :: string
  ep_ClientAuth :: "'a x_auth option"
  ep_HTTPClient :: "'n http_client option"

type_synonym 'c token_store = "('c \<Rightarrow> time \<Rightarrow> string \<Rightarrow> token option \<times> 'c) \<times> ('c \<Rightarrow> string \<Rightarrow> token \<Rightarrow> 'c)"

record ('c, 'a, 'n, 'w) downstream_config =
  dn_IDP :: "('a, 'n) endpoint"
  dn_ResourceAS :: "('a, 'n) endpoint"
  dn_Audience :: string
  dn_Resource :: string
  dn_Scope :: "string list"
  dn_SubjectTokenType :: string
  dn_Cache :: "'c token_store option"
  dn_Audit :: "'w sink option"

record ('c, 'a, 'n, 'w) provider =
  pr_idp :: "(unit, 'a, 'n, 'w) exchanger"
  pr_resourceAS :: "(unit, 'a, 'n, 'w) exchanger"
  pr_audience :: string
  pr_resource :: string
  pr_subjectTokenType :: string
  pr_scope :: "string list"
  pr_cache :: "'c token_store option"
  pr_audit :: "'w sink option"

definition endpoint_config :: "('a, 'n) endpoint \<Rightarrow> (unit, 'a, 'n, 'w) x_config" where
  "endpoint_config ep = \<lparr>xc_TokenURL = ep_TokenURL ep, xc_ClientAuth = ep_ClientAuth ep,
     xc_Cache = Some (nop_Cache_Get, nop_Cache_Set), xc_HTTPClient = ep_HTTPClient ep, xc_Audit = None\<rparr>"

definition NewDownstreamProvider :: "'n http_client \<Rightarrow> ('c, 'a, 'n, 'w) downstream_config \<Rightarrow> goerr + ('c, 'a, 'n, 'w) provider" where
  "NewDownstreamProvider default_client cfg =
     (if ep_TokenURL (dn_IDP cfg) = [] then Inl (ErrorString ''exchange: DownstreamConfig.IDP.TokenURL is required'')
      else if ep_ClientAuth (dn_IDP cfg) = None then Inl (ErrorString ''exchange: DownstreamConfig.IDP.ClientAuth is required'')
      else if ep_TokenURL (dn_ResourceAS cfg) = [] then Inl (ErrorString ''exchange: DownstreamConfig.ResourceAS.TokenURL is required'')
      else if ep_ClientAuth (dn_ResourceAS cfg) = None then Inl (ErrorString ''exchange: DownstreamConfig.ResourceAS.ClientAuth is required'')
      else if dn_Audience cfg = [] then Inl (ErrorString ''exchange: DownstreamConfig.Audience is required'')
      else
        (case NewExchanger (nop_Cache_Get, nop_Cache_Set) default_client (endpoint_config (dn_IDP cfg)) of
           Inl err \<Rightarrow> Inl err
         | Inr idp \<Rightarrow>
        (case NewExchanger (nop_Cache_Get, nop_Cache_Set) default_client (endpoint_config (dn_ResourceAS cfg)) of
           Inl err \<Rightarrow> Inl err
         | Inr ras \<Rightarrow>
             Inr \<lparr>pr_idp = idp, pr_resourceAS = ras, pr_audience = dn_Audience cfg, pr_resource = dn_Resource cfg,
                  pr_subjectTokenType = (if dn_SubjectTokenType cfg = [] then TokenTypeIDToken else dn_SubjectTokenType cfg),
                  pr_scope = [] @ dn_Scope cfg, pr_cache = dn_Cache cfg, pr_audit = dn_Audit cfg\<rparr>)))"

record ('c, 'a, 'n, 'w) p_state =
  ps_cache :: 'c
  ps_idp_auth :: 'a
  ps_idp_net :: 'n
  ps_ras_auth :: 'a
  ps_ras_net :: 'n
  ps_sink :: 'w

record p_clock =
  pk_cache :: time
  pk_idjag :: time
  pk_token :: time
  pk_audit :: time

record provide_request =
  pq_SubjectAssertion :: string
  pq_Subject :: string

definition p_recordGranted :: "('c, 'a, 'n, 'w) provider \<Rightarrow> string \<Rightarrow> token \<Rightarrow> time \<Rightarrow> 'w \<Rightarrow> 'w" where
  "p_recordGranted p subject tok now w =
     x_record (pr_audit p)
       (zero_event\<lparr>ev_Action := ActionTokenExchange, ev_Outcome := OutcomeGranted, ev_ReasonCode := ''cross_app_access'',
          ev_Subject := subject, ev_Audience := pr_audience p, ev_Scopes := tk_Scopes tok, ev_Time := now\<rparr>) w"

definition p_recordFailure :: "('c, 'a, 'n, 'w) provider \<Rightarrow> string \<Rightarrow> goerr \<Rightarrow> time \<Rightarrow> 'w \<Rightarrow> 'w" where
  "p_recordFailure p subject err now w =
     (let rej = errors_Is err ErrExchangeRejected in
      x_record (pr_audit p)
        (zero_event\<lparr>ev_Action := ActionTokenExchange, ev_Outcome := (if rej then OutcomeDenied else OutcomeError),
           ev_ReasonCode := (if rej then ''exchange_rejected'' else ''exchange_unavailable''),
           ev_Subject := subject, ev_Audience := pr_audience p, ev_Scopes := pr_scope p, ev_Time := now\<rparr>) w)"

definition idjag_request :: "('c, 'a, 'n, 'w) provider \<Rightarrow> provide_request \<Rightarrow> xrequest" where
  "idjag_request p req =
     \<lparr>xr_SubjectToken = pq_SubjectAssertion req, xr_Subject = [], xr_Audience = pr_audience p, xr_Resource = pr_resource p,
      xr_Scope = pr_scope p, xr_ActorToken = [], xr_SubjectTokenType = pr_subjectTokenType p,
      xr_RequestedTokenType = TokenTypeIDJAG\<rparr>"

text \<open>The two legs, each on its own exchanger with its own authenticator and network.\<close>

definition idp_leg :: "('c, 'a, 'n, 'w) provider \<Rightarrow> p_clock \<Rightarrow> provide_request \<Rightarrow> ('c, 'a, 'n, 'w) p_state
    \<Rightarrow> (goerr + token) \<times> ('c, 'a, 'n, 'w) p_state" where
  "idp_leg p ck req s =
     (case Exchange (pr_idp p) \<lparr>ck_cache = pk_cache ck, ck_token = pk_idjag ck, ck_audit = pk_audit ck\<rparr> (idjag_request p req)
             \<lparr>xs_cache = (), xs_auth = ps_idp_auth s, xs_net = ps_idp_net s, xs_sink = ps_sink s\<rparr> of
        (r, x) \<Rightarrow> (r, s\<lparr>ps_idp_auth := xs_auth x, ps_idp_net := xs_net x, ps_sink := xs_sink x\<rparr>))"

definition ras_leg :: "('c, 'a, 'n, 'w) provider \<Rightarrow> p_clock \<Rightarrow> string \<Rightarrow> ('c, 'a, 'n, 'w) p_state
    \<Rightarrow> (goerr + token) \<times> ('c, 'a, 'n, 'w) p_state" where
  "ras_leg p ck assertion s =
     (case RedeemAssertion (pr_resourceAS p) (pk_token ck) assertion (pr_scope p)
             \<lparr>xs_cache = (), xs_auth = ps_ras_auth s, xs_net = ps_ras_net s, xs_sink = ps_sink s\<rparr> of
        (r, x) \<Rightarrow> (r, s\<lparr>ps_ras_auth := xs_auth x, ps_ras_net := xs_net x, ps_sink := xs_sink x\<rparr>))"

definition p_key :: "('c, 'a, 'n, 'w) provider \<Rightarrow> provide_request \<Rightarrow> string" where
  "p_key p req =
     (if pr_cache p \<noteq> None \<and> pq_Subject req \<noteq> [] then x_cacheKey (pq_Subject req) (pr_audience p) [] [] (pr_scope p) else [])"

definition p_lookup :: "('c, 'a, 'n, 'w) provider \<Rightarrow> p_clock \<Rightarrow> provide_request \<Rightarrow> 'c \<Rightarrow> token option \<times> 'c" where
  "p_lookup p ck req c =
     (case pr_cache p of
        None \<Rightarrow> (None, c)
      | Some (get, put) \<Rightarrow> if pq_Subject req \<noteq> [] then get c (pk_cache ck) (p_key p req) else (None, c))"

definition Provide :: "('c, 'a, 'n, 'w) provider \<Rightarrow> p_clock \<Rightarrow> provide_request \<Rightarrow> ('c, 'a, 'n, 'w) p_state
    \<Rightarrow> (goerr + token) \<times> ('c, 'a, 'n, 'w) p_state" where
  "Provide p ck req s =
     (if pq_SubjectAssertion req = [] then (Inl (ErrorString ''exchange: ProvideRequest.SubjectAssertion is required''), s)
      else
      (case p_lookup p ck req (ps_cache s) of
         (Some tok, c) \<Rightarrow> (Inr tok, s\<lparr>ps_cache := c, ps_sink := p_recordGranted p (pq_Subject req) tok (pk_audit ck) (ps_sink s)\<rparr>)
       | (None, c) \<Rightarrow>
      (case idp_leg p ck req (s\<lparr>ps_cache := c\<rparr>) of
         (Inl err, s1) \<Rightarrow> (Inl err, s1\<lparr>ps_sink := p_recordFailure p (pq_Subject req) err (pk_audit ck) (ps_sink s1)\<rparr>)
       | (Inr idjag, s1) \<Rightarrow>
      (case ras_leg p ck (tk_AccessToken idjag) s1 of
         (Inl err, s2) \<Rightarrow> (Inl err, s2\<lparr>ps_sink := p_recordFailure p (pq_Subject req) err (pk_audit ck) (ps_sink s2)\<rparr>)
       | (Inr tok, s2) \<Rightarrow>
           (Inr tok, s2\<lparr>ps_cache := (case pr_cache p of
                             Some (get, put) \<Rightarrow> if p_key p req \<noteq> [] \<and> \<not> time_IsZero (tk_ExpiresAt tok)
                                                then put (ps_cache s2) (p_key p req) tok else ps_cache s2
                           | None \<Rightarrow> ps_cache s2),
                        ps_sink := p_recordGranted p (pq_Subject req) tok (pk_audit ck) (ps_sink s2)\<rparr>)))))"

section \<open>Properties\<close>

definition silent_leg :: "(unit, 'a, 'n, 'w) exchanger \<Rightarrow> bool" where
  "silent_leg x \<longleftrightarrow> x_audit x = None \<and> x_get x = nop_Cache_Get \<and> x_put x = nop_Cache_Set"

lemma NewDownstreamProvider_legs:
  assumes "NewDownstreamProvider dc cfg = Inr p"
  shows "silent_leg (pr_idp p)" "silent_leg (pr_resourceAS p)" "pr_audit p = dn_Audit cfg" "pr_cache p = dn_Cache cfg"
  using assms
  by (auto simp: NewDownstreamProvider_def NewExchanger_def endpoint_config_def silent_leg_def Let_def
      split: if_splits option.splits sum.splits)

lemma idp_leg_run:
  assumes "silent_leg (pr_idp p)" and "pq_SubjectAssertion req \<noteq> []"
    and "x_do (pr_idp p) (pk_idjag ck) (x_form (idjag_request p req)) (ps_idp_auth s) (ps_idp_net s) = (r, a, n)"
  shows "idp_leg p ck req s = (r, s\<lparr>ps_idp_auth := a, ps_idp_net := n\<rparr>)"
  using assms
  by (auto simp: idp_leg_def Exchange_def idjag_request_def silent_leg_def x_recordGranted_def x_recordFailure_def
      x_record_def x_key_def split: sum.splits prod.splits)

lemma ras_leg_run:
  assumes "assertion \<noteq> []"
    and "x_do (pr_resourceAS p) (pk_token ck) (redeem_form assertion (pr_scope p)) (ps_ras_auth s) (ps_ras_net s) = (r, a, n)"
  shows "ras_leg p ck assertion s = (r, s\<lparr>ps_ras_auth := a, ps_ras_net := n\<rparr>)"
  using assms by (simp add: ras_leg_def RedeemAssertion_def)

text \<open>C22: on a cache miss Provide runs the two steps in order. A failure of the first step is the answer,
  and the resource authorization server is not contacted; otherwise the answer is the resource server's
  answer to the very assertion the identity provider just issued. Only a final token is ever stored, and
  exactly one event is recorded, for the caller.\<close>

theorem provide_two_steps:
  assumes new: "NewDownstreamProvider dc cfg = Inr p" and audit: "dn_Audit cfg = Some (\<lambda>e w. w @ [e])"
    and ne: "pq_SubjectAssertion req \<noteq> []" and miss: "p_lookup p ck req (ps_cache s) = (None, c)"
    and run: "Provide p ck req s = (r, s')"
  shows "(\<exists>e. ps_sink s' = ps_sink s @ [e] \<and> ev_Subject e = pq_Subject req)
    \<and> (case x_do (pr_idp p) (pk_idjag ck) (x_form (idjag_request p req)) (ps_idp_auth s) (ps_idp_net s) of
         (Inl err, a, n) \<Rightarrow> r = Inl err \<and> ps_ras_net s' = ps_ras_net s \<and> ps_ras_auth s' = ps_ras_auth s \<and> ps_cache s' = c
       | (Inr idjag, a, n) \<Rightarrow>
           r = fst (x_do (pr_resourceAS p) (pk_token ck) (redeem_form (tk_AccessToken idjag) (pr_scope p))
                      (ps_ras_auth s) (ps_ras_net s))
           \<and> (ps_cache s' = c \<or> (\<exists>tok get put. r = Inr tok \<and> pr_cache p = Some (get, put) \<and> ps_cache s' = put c (p_key p req) tok)))"
proof -
  note legs = NewDownstreamProvider_legs [OF new]
  have aud: "pr_audit p = Some (\<lambda>e w. w @ [e])" using legs(3) audit by simp
  obtain d a n where d: "x_do (pr_idp p) (pk_idjag ck) (x_form (idjag_request p req)) (ps_idp_auth s) (ps_idp_net s) = (d, a, n)"
    by (metis prod.exhaust)
  have leg1: "idp_leg p ck req (s\<lparr>ps_cache := c\<rparr>) = (d, s\<lparr>ps_cache := c, ps_idp_auth := a, ps_idp_net := n\<rparr>)"
    using idp_leg_run [OF legs(1) ne, of ck "s\<lparr>ps_cache := c\<rparr>"] d by simp
  show ?thesis
  proof (cases d)
    case (Inl err)
    have "Provide p ck req s = (Inl err, s\<lparr>ps_cache := c, ps_idp_auth := a, ps_idp_net := n,
        ps_sink := p_recordFailure p (pq_Subject req) err (pk_audit ck) (ps_sink s)\<rparr>)"
      using ne miss leg1 Inl by (simp add: Provide_def)
    with run Inl d show ?thesis by (auto simp: p_recordFailure_def aud x_record_def Let_def)
  next
    case (Inr idjag)
    obtain r2 a2 n2 where r2: "x_do (pr_resourceAS p) (pk_token ck) (redeem_form (tk_AccessToken idjag) (pr_scope p))
        (ps_ras_auth s) (ps_ras_net s) = (r2, a2, n2)" by (metis prod.exhaust)
    have "tk_AccessToken idjag \<noteq> []" using d [unfolded Inr] by (rule x_do_nonempty)
    then have leg2: "ras_leg p ck (tk_AccessToken idjag) (s\<lparr>ps_cache := c, ps_idp_auth := a, ps_idp_net := n\<rparr>)
        = (r2, s\<lparr>ps_cache := c, ps_idp_auth := a, ps_idp_net := n, ps_ras_auth := a2, ps_ras_net := n2\<rparr>)"
      using ras_leg_run [of "tk_AccessToken idjag" p ck "s\<lparr>ps_cache := c, ps_idp_auth := a, ps_idp_net := n\<rparr>"] r2 by simp
    show ?thesis
    proof (cases r2)
      case (Inl err)
      with run ne miss leg1 leg2 Inr d r2 show ?thesis
        by (auto simp: Provide_def p_recordFailure_def aud x_record_def Let_def)
    next
      case (Inr tok)
      with run ne miss leg1 leg2 \<open>d = Inr idjag\<close> d r2 show ?thesis
        by (auto simp: Provide_def p_recordGranted_def aud x_record_def split: option.splits)
    qed
  qed
qed

definition demo_provider_config :: "(token ttl_cache, unit, unit, event list) downstream_config" where
  "demo_provider_config =
     (let ep = \<lparr>ep_TokenURL = ''https://idp/token'', ep_ClientAuth = Some (x_BasicAuth ''id'' ''secret''),
                ep_HTTPClient = Some (demo_as 200 demo_grant [])\<rparr> in
      \<lparr>dn_IDP = ep, dn_ResourceAS = ep\<lparr>ep_TokenURL := ''https://ras/token''\<rparr>, dn_Audience = ''https://ras'', dn_Resource = [],
       dn_Scope = [''read''], dn_SubjectTokenType = [], dn_Cache = None, dn_Audit = Some (\<lambda>e w. w @ [e])\<rparr>)"

theorem provide_two_steps_witness:
  "\<exists>p r s' e. NewDownstreamProvider (demo_as 200 demo_grant []) demo_provider_config = Inr p
     \<and> Provide p \<lparr>pk_cache = 0, pk_idjag = 0, pk_token = 0, pk_audit = 0\<rparr> \<lparr>pq_SubjectAssertion = ''id-token'', pq_Subject = ''u''\<rparr>
         \<lparr>ps_cache = x_NewMemoryCache 0, ps_idp_auth = (), ps_idp_net = (), ps_ras_auth = (), ps_ras_net = (), ps_sink = []\<rparr> = (r, s')
     \<and> ps_sink s' = [e] \<and> ev_Subject e = ''u''"
proof -
  let ?ck = "\<lparr>pk_cache = 0, pk_idjag = 0, pk_token = 0, pk_audit = 0\<rparr>"
  let ?req = "\<lparr>pq_SubjectAssertion = ''id-token'', pq_Subject = ''u''\<rparr>"
  let ?s = "\<lparr>ps_cache = x_NewMemoryCache 0, ps_idp_auth = (), ps_idp_net = (), ps_ras_auth = (), ps_ras_net = (), ps_sink = []\<rparr>"
  obtain p where p: "NewDownstreamProvider (demo_as 200 demo_grant []) demo_provider_config = Inr p"
    by (simp add: NewDownstreamProvider_def NewExchanger_def endpoint_config_def demo_provider_config_def Let_def)
  have a: "dn_Audit demo_provider_config = Some (\<lambda>e w. w @ [e])" by (simp add: demo_provider_config_def Let_def)
  have "dn_Cache demo_provider_config = None" by (simp add: demo_provider_config_def Let_def)
  then have miss: "p_lookup p ?ck ?req (ps_cache ?s) = (None, x_NewMemoryCache 0)"
    using NewDownstreamProvider_legs(4) [OF p] by (simp add: p_lookup_def)
  have ne: "pq_SubjectAssertion ?req \<noteq> []" by simp
  obtain r s' where run: "Provide p ?ck ?req ?s = (r, s')" by fastforce
  from conjunct1 [OF provide_two_steps [OF p a ne miss run]] p run show ?thesis by auto
qed

text \<open>C23: the retry loops end. Whatever the two authorization servers answer, including a demand for another
  DPoP nonce every time, one call of Provide returns after at most two requests to each of them, and a
  cached token is answered without any.\<close>

theorem provide_requests_bounded:
  assumes new: "NewDownstreamProvider dc cfg = Inr p"
    and hc: "x_httpClient (pr_idp p) = counting hc1" "x_httpClient (pr_resourceAS p) = counting hc2"
    and run: "Provide p ck req s = (r, s')"
  shows "snd (ps_idp_net s') \<le> snd (ps_idp_net s) + 2 \<and> snd (ps_ras_net s') \<le> snd (ps_ras_net s) + 2
    \<and> (fst (p_lookup p ck req (ps_cache s)) \<noteq> None \<longrightarrow> ps_idp_net s' = ps_idp_net s \<and> ps_ras_net s' = ps_ras_net s)"
proof (cases "pq_SubjectAssertion req = []")
  case True
  with run show ?thesis by (auto simp: Provide_def)
next
  case ne: False
  obtain l c where l: "p_lookup p ck req (ps_cache s) = (l, c)" by fastforce
  show ?thesis
  proof (cases l)
    case (Some tok)
    with run l ne show ?thesis by (auto simp: Provide_def)
  next
    case None
    let ?s = "s\<lparr>ps_cache := c\<rparr>"
    obtain d a n where d: "x_do (pr_idp p) (pk_idjag ck) (x_form (idjag_request p req)) (ps_idp_auth s) (ps_idp_net s) = (d, a, n)"
      by (metis prod.exhaust)
    have n: "snd n \<le> snd (ps_idp_net s) + 2"
      using x_do_count [OF hc(1), of "pk_idjag ck" "x_form (idjag_request p req)" "ps_idp_auth s" "ps_idp_net s"] d by simp
    have leg1: "idp_leg p ck req ?s = (d, ?s\<lparr>ps_idp_auth := a, ps_idp_net := n\<rparr>)"
      using idp_leg_run [OF NewDownstreamProvider_legs(1) [OF new] ne, of ck ?s] d by simp
    have leg2: "snd (ps_ras_net (snd (ras_leg p ck t s1))) \<le> snd (ps_ras_net s1) + 2 \<and> ps_idp_net (snd (ras_leg p ck t s1)) = ps_idp_net s1" for t s1
      using x_do_count [OF hc(2), of "pk_token ck" "redeem_form t (pr_scope p)" "ps_ras_auth s1" "ps_ras_net s1"]
      by (auto simp: ras_leg_def RedeemAssertion_def split: prod.splits)
    show ?thesis
    proof (cases d)
      case (Inl err)
      with run None ne l leg1 n show ?thesis by (auto simp: Provide_def)
    next
      case (Inr idjag)
      let ?s1 = "?s\<lparr>ps_idp_auth := a, ps_idp_net := n\<rparr>"
      obtain r2 s2 where r2: "ras_leg p ck (tk_AccessToken idjag) ?s1 = (r2, s2)" by fastforce
      then have "snd (ps_ras_net s2) \<le> snd (ps_ras_net s) + 2" "ps_idp_net s2 = n" using leg2 [of "tk_AccessToken idjag" ?s1] by simp_all
      with run None ne l leg1 n Inr r2 show ?thesis by (cases r2) (auto simp: Provide_def split: option.splits)
    qed
  qed
qed

definition demo_nonce_config :: "(token ttl_cache, unit, unit \<times> nat, event list) downstream_config" where
  "demo_nonce_config =
     (let ep = \<lparr>ep_TokenURL = ''https://idp/token'', ep_ClientAuth = Some (x_BasicAuth ''id'' ''secret''),
                ep_HTTPClient = Some (counting (demo_as 400 demo_denial ''n1''))\<rparr> in
      \<lparr>dn_IDP = ep, dn_ResourceAS = ep, dn_Audience = ''https://ras'', dn_Resource = [], dn_Scope = [''read''], dn_SubjectTokenType = [],
       dn_Cache = None, dn_Audit = None\<rparr>)"

theorem provide_requests_bounded_witness:
  "\<exists>p r s'. NewDownstreamProvider (counting (demo_as 400 demo_denial ''n1'')) demo_nonce_config = Inr p
     \<and> Provide p \<lparr>pk_cache = 0, pk_idjag = 0, pk_token = 0, pk_audit = 0\<rparr> \<lparr>pq_SubjectAssertion = ''id-token'', pq_Subject = ''u''\<rparr>
         \<lparr>ps_cache = x_NewMemoryCache 0, ps_idp_auth = (), ps_idp_net = ((), 0), ps_ras_auth = (), ps_ras_net = ((), 0), ps_sink = []\<rparr> = (r, s')
     \<and> snd (ps_idp_net s') \<le> 2 \<and> snd (ps_ras_net s') \<le> 2"
proof -
  let ?ck = "\<lparr>pk_cache = 0, pk_idjag = 0, pk_token = 0, pk_audit = 0\<rparr>"
  let ?req = "\<lparr>pq_SubjectAssertion = ''id-token'', pq_Subject = ''u''\<rparr>"
  let ?s = "\<lparr>ps_cache = x_NewMemoryCache 0, ps_idp_auth = (), ps_idp_net = ((), 0), ps_ras_auth = (), ps_ras_net = ((), 0), ps_sink = []\<rparr>"
  obtain p where p: "NewDownstreamProvider (counting (demo_as 400 demo_denial ''n1'')) demo_nonce_config = Inr p"
    and h: "x_httpClient (pr_idp p) = counting (demo_as 400 demo_denial ''n1'')" "x_httpClient (pr_resourceAS p) = counting (demo_as 400 demo_denial ''n1'')"
    by (simp add: NewDownstreamProvider_def NewExchanger_def endpoint_config_def demo_nonce_config_def Let_def)
  obtain r s' where run: "Provide p ?ck ?req ?s = (r, s')" by fastforce
  from provide_requests_bounded [OF p h run] p run show ?thesis by auto
qed

end
