(* ===== verification/MCP_Verifier.thy ===== *)
theory MCP_Verifier
  imports Go_HTTP Validator
begin

text \<open>
  transport/mcpauth/verifier.go and context.go: the adapter from a token validator to the MCP SDK's
  TokenVerifier, the TokenInfo it produces, and the recovery of claims and raw token from a context. The
  SDK is a parameter where it is called. A \<open>challengeState\<close> pointer on the context is the address of a
  cell in \<open>ms_cells\<close>.
\<close>

section \<open>State\<close>

record challengeState =
  cs_isDPoP :: bool
  cs_code :: string

record ('v, 'd) mcp_state =
  ms_validator :: 'v
  ms_replay :: 'd
  ms_cells :: "nat \<Rightarrow> challengeState"

section \<open>verifier.go\<close>

abbreviation (input) claimsExtraKey :: string where "claimsExtraKey \<equiv> ''github.com/polyglotdev/mcp-auth-go.claims''"
abbreviation (input) rawTokenExtraKey :: string where "rawTokenExtraKey \<equiv> ''github.com/polyglotdev/mcp-auth-go.raw_token''"

definition mcp_requestURL :: "http_request \<Rightarrow> string \<Rightarrow> string" where
  "mcp_requestURL r baseURL =
     (if baseURL \<noteq> [] then trim_right_char CHR ''/'' baseURL @ rq_Path r
      else (if rq_TLS r then ''https'' else ''http'') @ ''://'' @ rq_Host r @ rq_Path r)"

text \<open>
  \<open>verifierError\<close> is \<open>VerifierErr\<close>: its message, and an \<open>Unwrap\<close> that yields the SDK's ErrInvalidToken.
  \<open>unwraps_to_invalid\<close> is \<open>errors.Is(err, sdkauth.ErrInvalidToken)\<close>: the chain of the error is followed,
  and of the errors of this library only a \<open>verifierError\<close> unwraps to that sentinel.
\<close>

fun unwraps_to_invalid :: "goerr \<Rightarrow> bool" where
  "unwraps_to_invalid (VerifierErr msg) = True"
| "unwraps_to_invalid (AuthErr (AuthError c m d h cause)) = (case cause of None \<Rightarrow> False | Some e \<Rightarrow> unwraps_to_invalid e)"
| "unwraps_to_invalid (Errorf f args (Some e)) = unwraps_to_invalid e"
| "unwraps_to_invalid (Errorf f args None) = False"
| "unwraps_to_invalid (ErrorString s) = False"
| "unwraps_to_invalid (ForeignErr s) = False"

text \<open>\<open>sdk_invalid\<close> is the text of the SDK's ErrInvalidToken.\<close>

definition toVerifierError :: "string \<Rightarrow> goerr \<Rightarrow> goerr" where
  "toVerifierError sdk_invalid err =
     (case errors_As err of Some ae \<Rightarrow> VerifierErr (Message ae) | None \<Rightarrow> VerifierErr sdk_invalid)"

definition toTokenInfo :: "claims \<Rightarrow> token_info" where
  "toTokenInfo c =
     \<lparr>TI_Scopes = Scopes c, TI_Expiration = ExpiresAt c, TI_UserID = Subject c,
      TI_Extra = (\<lambda>k. map_option XString (Raw c k))(claimsExtraKey \<mapsto> XClaims c)\<rparr>"

definition TokenInfoFromContext :: "go_context \<Rightarrow> token_info option" where
  "TokenInfoFromContext ctx = (case map_of ctx TokenInfoKey of Some (VTokenInfo ti) \<Rightarrow> Some ti | _ \<Rightarrow> None)"

definition ClaimsFromContext :: "go_context \<Rightarrow> claims option" where
  "ClaimsFromContext ctx =
     (case ClaimsFrom ctx of
        Some c \<Rightarrow> Some c
      | None \<Rightarrow>
          (case TokenInfoFromContext ctx of
             Some ti \<Rightarrow> (case TI_Extra ti claimsExtraKey of Some (XClaims c) \<Rightarrow> Some c | _ \<Rightarrow> None)
           | None \<Rightarrow> None))"

definition RawTokenFromContext :: "go_context \<Rightarrow> string option" where
  "RawTokenFromContext ctx =
     (case RawTokenFrom ctx of
        Some raw \<Rightarrow> Some raw
      | None \<Rightarrow>
          (case TokenInfoFromContext ctx of
             Some ti \<Rightarrow> (case TI_Extra ti rawTokenExtraKey of Some (XString raw) \<Rightarrow> Some raw | _ \<Rightarrow> None)
           | None \<Rightarrow> None))"

type_synonym ('v, 'd) token_verifier =
  "go_context \<Rightarrow> string \<Rightarrow> http_request option \<Rightarrow> ('v, 'd) mcp_state \<Rightarrow> (goerr + token_info) \<times> ('v, 'd) mcp_state"

text \<open>The write through the pointer on the context, if there is one.\<close>

definition classify :: "go_context \<Rightarrow> goerr \<Rightarrow> ('v, 'd) mcp_state \<Rightarrow> ('v, 'd) mcp_state" where
  "classify ctx derr s =
     (case map_of ctx ChallengeKey of
        Some (VChallenge p) \<Rightarrow>
          s\<lparr>ms_cells := (ms_cells s)(p := \<lparr>cs_isDPoP = True,
              cs_code = (if errors_Is derr ErrUseDPoPNonce then Code ErrUseDPoPNonce else Code ErrInvalidDPoPProof)\<rparr>)\<rparr>
      | _ \<Rightarrow> s)"

definition mcp_input :: "http_request \<Rightarrow> string \<Rightarrow> string \<Rightarrow> claims \<Rightarrow> dpop_input" where
  "mcp_input r baseURL token c =
     \<lparr>in_Proofs = Header_Values (rq_Header r) ''DPoP'', in_Method = rq_Method r, in_URL = mcp_requestURL r baseURL,
      in_AccessToken = token, in_BoundJKT = Confirmation c\<rparr>"

text \<open>The closure \<open>newVerifierFunc\<close> returns; \<open>now\<close> and \<open>cnow\<close> are the clock readings of \<open>Enforce\<close>.\<close>

definition newVerifierFunc :: "'key jose \<Rightarrow> dpop_std \<Rightarrow> string \<Rightarrow> ('v \<Rightarrow> go_context \<Rightarrow> string \<Rightarrow> (goerr + claims) \<times> 'v)
    \<Rightarrow> 'd dpop_verifier option \<Rightarrow> string \<Rightarrow> time \<Rightarrow> time \<Rightarrow> ('v, 'd) token_verifier" where
  "newVerifierFunc jo std sdk_invalid validate dv baseURL now cnow ctx token req s =
     (case validate (ms_validator s) ctx token of
        (Inl err, v') \<Rightarrow> (Inl (toVerifierError sdk_invalid err), s\<lparr>ms_validator := v'\<rparr>)
      | (Inr c, v') \<Rightarrow>
     (let s = s\<lparr>ms_validator := v'\<rparr>;
          ti = toTokenInfo c; info = ti\<lparr>TI_Extra := (TI_Extra ti)(rawTokenExtraKey \<mapsto> XString token)\<rparr> in
      case dv of
        None \<Rightarrow> (Inr info, s)
      | Some d \<Rightarrow>
     (case req of
        None \<Rightarrow> (Inl (toVerifierError sdk_invalid
                   (AuthErr (With ErrInvalidDPoPProof (ErrorString ''no request available for dpop check'')))), s)
      | Some r \<Rightarrow>
          (case Enforce jo std d (mcp_input r baseURL token c) now cnow (ms_replay s) of
             (Some derr, st) \<Rightarrow> (Inl (toVerifierError sdk_invalid derr), classify ctx derr (s\<lparr>ms_replay := st\<rparr>))
           | (None, st) \<Rightarrow> (Inr info, s\<lparr>ms_replay := st\<rparr>)))))"

text \<open>\<open>NewTokenVerifier\<close>: no DPoP; a nil validator is a construction-time panic (left summand).\<close>

definition NewTokenVerifier :: "'key jose \<Rightarrow> dpop_std \<Rightarrow> string \<Rightarrow> ('v \<Rightarrow> go_context \<Rightarrow> string \<Rightarrow> (goerr + claims) \<times> 'v) option
    \<Rightarrow> string + (time \<Rightarrow> time \<Rightarrow> ('v, 'd) token_verifier)" where
  "NewTokenVerifier jo std sdk_invalid v =
     (case v of
        None \<Rightarrow> Inl ''mcpauth: a non-nil auth.TokenValidator is required''
      | Some validate \<Rightarrow> Inr (newVerifierFunc jo std sdk_invalid validate None []))"

section \<open>context.go\<close>

definition bridge_context :: "go_context \<Rightarrow> go_context" where
  "bridge_context ctx =
     (let ctx = (case ClaimsFromContext ctx of Some c \<Rightarrow> WithClaims ctx c | None \<Rightarrow> ctx)
      in (case RawTokenFromContext ctx of Some raw \<Rightarrow> WithRawToken ctx raw | None \<Rightarrow> ctx))"

definition ContextBridge :: "(go_context \<Rightarrow> 'm \<Rightarrow> 'q \<Rightarrow> 'r) \<Rightarrow> go_context \<Rightarrow> 'm \<Rightarrow> 'q \<Rightarrow> 'r" where
  "ContextBridge next_handler ctx m req = next_handler (bridge_context ctx) m req"

section \<open>Lemmas\<close>

lemmas context_simps = ClaimsFrom_def RawTokenFrom_def WithClaims_def WithRawToken_def WithValue_def TokenInfoFromContext_def

lemma ClaimsFromContext_info:
  "map_of ctx CtxClaimsKey = None \<Longrightarrow> map_of ctx TokenInfoKey = Some (VTokenInfo ti) \<Longrightarrow>
   ClaimsFromContext ctx = (case TI_Extra ti claimsExtraKey of Some (XClaims c) \<Rightarrow> Some c | _ \<Rightarrow> None)"
  by (simp add: ClaimsFromContext_def context_simps)

lemma RawTokenFromContext_info:
  "map_of ctx CtxRawTokenKey = None \<Longrightarrow> map_of ctx TokenInfoKey = Some (VTokenInfo ti) \<Longrightarrow>
   RawTokenFromContext ctx = (case TI_Extra ti rawTokenExtraKey of Some (XString raw) \<Rightarrow> Some raw | _ \<Rightarrow> None)"
  by (simp add: RawTokenFromContext_def context_simps)

lemma toVerifierError_unwraps [simp]: "unwraps_to_invalid (toVerifierError iv err)"
  by (simp add: toVerifierError_def split: option.splits)

text \<open>Every error of the verifier, from the validator or from the DPoP check, unwraps to the SDK's sentinel.\<close>

lemma newVerifierFunc_error_unwraps:
  "newVerifierFunc jo std iv validate dv baseURL now cnow ctx token req s = (Inl e, s') \<Longrightarrow> unwraps_to_invalid e"
  by (auto simp: newVerifierFunc_def Let_def split: sum.splits prod.splits option.splits)

lemma newVerifierFunc_accepts:
  assumes "newVerifierFunc jo std iv validate dv baseURL now cnow ctx token req s = (Inr ti, s')"
  obtains c where "validate (ms_validator s) ctx token = (Inr c, ms_validator s')"
    and "ti = (toTokenInfo c)\<lparr>TI_Extra := (TI_Extra (toTokenInfo c))(rawTokenExtraKey \<mapsto> XString token)\<rparr>"
    and "case dv of None \<Rightarrow> ms_replay s' = ms_replay s
         | Some d \<Rightarrow> (\<exists>r. req = Some r \<and> Enforce jo std d (mcp_input r baseURL token c) now cnow (ms_replay s) = (None, ms_replay s'))"
  using assms by (auto simp: newVerifierFunc_def Let_def split: sum.splits prod.splits option.splits)

lemma context_lookup [simp]:
  "ClaimsFrom (WithClaims ctx c) = Some c" "RawTokenFrom (WithRawToken ctx raw) = Some raw"
  "ClaimsFrom (WithRawToken ctx raw) = ClaimsFrom ctx" "RawTokenFrom (WithClaims ctx c) = RawTokenFrom ctx"
  "TokenInfoFromContext (WithClaims ctx c) = TokenInfoFromContext ctx"
  by (simp_all add: context_simps)

lemma RawTokenFromContext_WithClaims [simp]: "RawTokenFromContext (WithClaims ctx c) = RawTokenFromContext ctx"
  unfolding RawTokenFromContext_def context_lookup ..

lemma ClaimsFrom_absent: "ClaimsFromContext ctx = None \<Longrightarrow> ClaimsFrom ctx = None"
  by (simp add: ClaimsFromContext_def split: option.splits)

lemma RawTokenFrom_absent: "RawTokenFromContext ctx = None \<Longrightarrow> RawTokenFrom ctx = None"
  by (simp add: RawTokenFromContext_def split: option.splits)

lemma bridge_claims: "ClaimsFrom (bridge_context ctx) = ClaimsFromContext ctx"
  by (cases "ClaimsFromContext ctx"; cases "RawTokenFromContext ctx") (simp_all add: bridge_context_def ClaimsFrom_absent)

lemma bridge_raw: "RawTokenFrom (bridge_context ctx) = RawTokenFromContext ctx"
  by (cases "ClaimsFromContext ctx"; cases "RawTokenFromContext ctx") (simp_all add: bridge_context_def RawTokenFrom_absent)

section \<open>Properties\<close>

text \<open>C21: what the verifier accepts, and what a tool handler sees behind the bridge. If the SDK gets a
  TokenInfo for a token, the validator accepted that token with claims that are the ones the info carries
  (user, scopes, expiry), DPoP was enforced when configured, and once the SDK has put the info on the
  context, the bridge gives core code exactly those claims and that token. A private claim of the token
  cannot replace either of them.\<close>

theorem verifier_to_handler_identity:
  assumes "newVerifierFunc jo std iv validate dv baseURL now cnow ctx token req s = (Inr ti, s')"
    and "map_of ctx' CtxClaimsKey = None" and "map_of ctx' CtxRawTokenKey = None"
    and "map_of ctx' TokenInfoKey = Some (VTokenInfo ti)"
  shows "\<exists>c. fst (validate (ms_validator s) ctx token) = Inr c
    \<and> TI_UserID ti = Subject c \<and> TI_Scopes ti = Scopes c \<and> TI_Expiration ti = ExpiresAt c
    \<and> (case dv of None \<Rightarrow> True
       | Some d \<Rightarrow> \<exists>r. req = Some r \<and> fst (Enforce jo std d (mcp_input r baseURL token c) now cnow (ms_replay s)) = None)
    \<and> ClaimsFrom (bridge_context ctx') = Some c \<and> RawTokenFrom (bridge_context ctx') = Some token"
proof (rule newVerifierFunc_accepts [OF assms(1)])
  fix c
  assume v: "validate (ms_validator s) ctx token = (Inr c, ms_validator s')"
    and ti: "ti = (toTokenInfo c)\<lparr>TI_Extra := (TI_Extra (toTokenInfo c))(rawTokenExtraKey \<mapsto> XString token)\<rparr>"
    and d: "case dv of None \<Rightarrow> ms_replay s' = ms_replay s
         | Some d \<Rightarrow> (\<exists>r. req = Some r \<and> Enforce jo std d (mcp_input r baseURL token c) now cnow (ms_replay s) = (None, ms_replay s'))"
  have "TI_Extra ti claimsExtraKey = Some (XClaims c)" "TI_Extra ti rawTokenExtraKey = Some (XString token)"
    by (simp_all add: ti toTokenInfo_def)
  then have "ClaimsFromContext ctx' = Some c" "RawTokenFromContext ctx' = Some token"
    using ClaimsFromContext_info [OF assms(2,4)] RawTokenFromContext_info [OF assms(3,4)] by simp_all
  moreover have "TI_UserID ti = Subject c" "TI_Scopes ti = Scopes c" "TI_Expiration ti = ExpiresAt c"
    by (simp_all add: ti toTokenInfo_def)
  moreover have "case dv of None \<Rightarrow> True
      | Some d \<Rightarrow> \<exists>r. req = Some r \<and> fst (Enforce jo std d (mcp_input r baseURL token c) now cnow (ms_replay s)) = None"
    using d by (auto split: option.splits)
  ultimately show ?thesis using v bridge_claims [of ctx'] bridge_raw [of ctx'] by simp
qed

definition demo_info :: "claims \<Rightarrow> string \<Rightarrow> token_info" where
  "demo_info c token = (toTokenInfo c)\<lparr>TI_Extra := (TI_Extra (toTokenInfo c))(rawTokenExtraKey \<mapsto> XString token)\<rparr>"

theorem verifier_to_handler_identity_witness:
  "let c = claimsFromToken (demo_token ''iss'');
       s = \<lparr>ms_validator = (), ms_replay = (), ms_cells = (\<lambda>p. \<lparr>cs_isDPoP = False, cs_code = []\<rparr>)\<rparr>
   in fst (newVerifierFunc demo_jose demo_std ''invalid token'' (\<lambda>v ctx b. (Inr c, v)) None [] 0 0 [] ''tok'' None s) = Inr (demo_info c ''tok'')
     \<and> ClaimsFrom (bridge_context [(TokenInfoKey, VTokenInfo (demo_info c ''tok''))]) = Some c
     \<and> RawTokenFrom (bridge_context [(TokenInfoKey, VTokenInfo (demo_info c ''tok''))]) = Some ''tok''"
proof -
  let ?c = "claimsFromToken (demo_token ''iss'')"
  let ?s = "\<lparr>ms_validator = (), ms_replay = (), ms_cells = (\<lambda>p. \<lparr>cs_isDPoP = False, cs_code = []\<rparr>)\<rparr>"
  have e: "newVerifierFunc demo_jose demo_std ''invalid token'' (\<lambda>v ctx b. (Inr ?c, v)) None [] 0 0 [] ''tok'' None ?s
      = (Inr (demo_info ?c ''tok''), ?s)"
    by (simp add: newVerifierFunc_def demo_info_def Let_def)
  from verifier_to_handler_identity [OF e, of "[(TokenInfoKey, VTokenInfo (demo_info ?c ''tok''))]"]
  show ?thesis using e by (simp add: Let_def)
qed

end
