(* ===== verification/Tool_Gate.thy ===== *)
theory Tool_Gate
  imports MCP_Verifier Audit_Log
begin

text \<open>
  transport/mcpauth/toolgate.go: per-tool authorization of an MCP server, as receiving middleware around
  the SDK's method handler. A request carries the typed parameters of a tools/call, or other parameters;
  a result is a tool list or something else. A handler returns a result and an error (both may be nil) and
  changes the world the audit sink also writes to.
\<close>

section \<open>The SDK's types\<close>

datatype 'p mcp_params = CallToolParamsRaw (call_Name: string) 'p | OtherParams 'p

datatype ('t, 'r) mcp_result =
    ListToolsResult (lt_Meta: 'r) (lt_NextCursor: string) (lt_Tools: "(string \<times> 't) list")
  | OtherResult 'r

type_synonym ('t, 'r) mcp_answer = "('t, 'r) mcp_result option \<times> goerr option"

type_synonym ('p, 't, 'r, 'w) method_handler =
  "go_context \<Rightarrow> string \<Rightarrow> 'p mcp_params \<Rightarrow> 'w \<Rightarrow> ('t, 'r) mcp_answer \<times> 'w"

section \<open>The gate\<close>

text \<open>A policy stored as nil is \<open>Some None\<close> in the map.\<close>

record 'w tool_gate =
  tg_Policies :: "string \<rightharpoonup> authorizer option"
  tg_Default :: "authorizer option"
  tg_Audit :: "'w sink option"

definition errUnauthenticated :: goerr where
  "errUnauthenticated = ErrorString ''forbidden: request is not authenticated''"

definition policyFor :: "'w tool_gate \<Rightarrow> string \<Rightarrow> authorizer option" where
  "policyFor g tool = (case tg_Policies g tool of Some p \<Rightarrow> p | None \<Rightarrow> tg_Default g)"

definition evaluate :: "'w tool_gate \<Rightarrow> go_context \<Rightarrow> claims \<Rightarrow> string \<Rightarrow> goerr option" where
  "evaluate g ctx c tool = (case policyFor g tool of None \<Rightarrow> None | Some policy \<Rightarrow> policy ctx c)"

definition reasonOf :: "goerr \<Rightarrow> string" where
  "reasonOf err = (case errors_As err of Some ae \<Rightarrow> Code ae | None \<Rightarrow> ''forbidden'')"

definition denial :: "goerr \<Rightarrow> goerr" where
  "denial err = (case errors_As err of Some ae \<Rightarrow> ErrorString (Message ae) | None \<Rightarrow> ErrorString ''forbidden'')"

definition gate_record :: "'w tool_gate \<Rightarrow> event \<Rightarrow> 'w \<Rightarrow> 'w" where
  "gate_record g e w = (case tg_Audit g of None \<Rightarrow> w | Some s \<Rightarrow> s e w)"

definition toolEvent :: "claims \<Rightarrow> string \<Rightarrow> string \<Rightarrow> string \<Rightarrow> time \<Rightarrow> event" where
  "toolEvent c tool outcome reason now =
     zero_event\<lparr>ev_Action := ActionToolCall, ev_Outcome := outcome, ev_ReasonCode := reason, ev_Tool := tool,
       ev_Subject := Subject c, ev_Issuer := Issuer c, ev_Scopes := Scopes c, ev_Email := Email c, ev_Time := now\<rparr>"

definition gateCall :: "'w tool_gate \<Rightarrow> time \<Rightarrow> ('p, 't, 'r, 'w) method_handler \<Rightarrow> ('p, 't, 'r, 'w) method_handler" where
  "gateCall g now next_handler ctx method req w =
     (case req of
        OtherParams p \<Rightarrow> next_handler ctx method req w
      | CallToolParamsRaw name p \<Rightarrow>
     (case ClaimsFromContext ctx of
        None \<Rightarrow>
          ((None, Some errUnauthenticated),
           gate_record g (zero_event\<lparr>ev_Action := ActionToolCall, ev_Outcome := OutcomeDenied, ev_Tool := name,
              ev_ReasonCode := ''unauthenticated'', ev_Time := now\<rparr>) w)
      | Some c \<Rightarrow>
     (case evaluate g ctx c name of
        Some err \<Rightarrow> ((None, Some (denial err)), gate_record g (toolEvent c name OutcomeDenied (reasonOf err) now) w)
      | None \<Rightarrow> next_handler ctx method req (gate_record g (toolEvent c name OutcomeGranted [] now) w))))"

definition filterList :: "'w tool_gate \<Rightarrow> ('p, 't, 'r, 'w) method_handler \<Rightarrow> ('p, 't, 'r, 'w) method_handler" where
  "filterList g next_handler ctx method req w =
     (case next_handler ctx method req w of
        ((res, Some err), w') \<Rightarrow> ((res, Some err), w')
      | ((Some (ListToolsResult meta cursor tools), None), w') \<Rightarrow>
          ((Some (ListToolsResult meta cursor
              (case ClaimsFromContext ctx of
                 None \<Rightarrow> []
               | Some c \<Rightarrow> filter (\<lambda>tool. evaluate g ctx c (fst tool) = None) tools)), None), w')
      | ((res, None), w') \<Rightarrow> ((res, None), w'))"

definition gate_Middleware :: "'w tool_gate \<Rightarrow> time \<Rightarrow> ('p, 't, 'r, 'w) method_handler \<Rightarrow> ('p, 't, 'r, 'w) method_handler" where
  "gate_Middleware g now next_handler ctx method req w =
     (if method = ''tools/call'' then gateCall g now next_handler ctx method req w
      else if method = ''tools/list'' then filterList g next_handler ctx method req w
      else next_handler ctx method req w)"

section \<open>The abstract gate\<close>

text \<open>
  What the gate promises: a caller may use a tool when there is an authenticated caller and the policy
  that governs the tool, if any, allows it.
\<close>

definition may_use :: "'w tool_gate \<Rightarrow> go_context \<Rightarrow> string \<Rightarrow> bool" where
  "may_use g ctx tool \<longleftrightarrow>
     (\<exists>c. ClaimsFromContext ctx = Some c \<and> (\<forall>policy. policyFor g tool = Some policy \<longrightarrow> policy ctx c = None))"

lemma may_use_evaluate:
  "may_use g ctx tool \<longleftrightarrow> (\<exists>c. ClaimsFromContext ctx = Some c \<and> evaluate g ctx c tool = None)"
  by (auto simp: may_use_def evaluate_def split: option.splits)

lemma gateCall_admits:
  "ClaimsFromContext ctx = Some c \<Longrightarrow> evaluate g ctx c name = None \<Longrightarrow>
   gate_Middleware g now h ctx ''tools/call'' (CallToolParamsRaw name p) w =
     h ctx ''tools/call'' (CallToolParamsRaw name p) (gate_record g (toolEvent c name OutcomeGranted [] now) w)"
  by (simp add: gate_Middleware_def gateCall_def)

lemma gateCall_denies:
  assumes "\<not> may_use g ctx name"
  shows "\<exists>e err. (\<forall>h. gate_Middleware g now h ctx ''tools/call'' (CallToolParamsRaw name p) w = ((None, Some err), gate_record g e w))
    \<and> ev_Outcome e = OutcomeDenied \<and> ev_Tool e = name \<and> ev_Time e = now
    \<and> (err = errUnauthenticated \<or> (\<exists>c cause. ClaimsFromContext ctx = Some c \<and> evaluate g ctx c name = Some cause \<and> err = denial cause))"
proof (cases "ClaimsFromContext ctx")
  case None
  then show ?thesis by (auto simp: gate_Middleware_def gateCall_def zero_event_def)
next
  case (Some c)
  with assms obtain cause where "evaluate g ctx c name = Some cause" by (auto simp: may_use_evaluate)
  with Some show ?thesis by (auto simp: gate_Middleware_def gateCall_def toolEvent_def zero_event_def)
qed

section \<open>Properties\<close>

text \<open>C4: the gate lets a tools/call run exactly when there is an authenticated caller and the policy of the
  tool allows it. Otherwise the tool is not invoked (the answer does not depend on it), and the error is a
  fixed text or the public message of the policy's error, so nothing of its cause reaches the client. With
  a recording sink every decision leaves exactly one event, written before the tool runs, with the
  outcome of the decision.\<close>

theorem gate_call_enforces_policy:
  fixes g :: "(event list \<times> 'w) tool_gate" and p :: 'p
  assumes "tg_Audit g = Some (\<lambda>e (log, w). (log @ [e], w))"
  shows "if may_use g ctx name
    then (\<exists>e c. ClaimsFromContext ctx = Some c \<and> ev_Outcome e = ''granted'' \<and> ev_Tool e = name \<and> ev_Subject e = Subject c
        \<and> (\<forall>h :: ('p, 't, 'r, event list \<times> 'w) method_handler. gate_Middleware g now h ctx ''tools/call'' (CallToolParamsRaw name p) (log, w)
              = h ctx ''tools/call'' (CallToolParamsRaw name p) (log @ [e], w)))
    else (\<exists>e msg. ev_Outcome e = ''denied'' \<and> ev_Tool e = name
        \<and> (\<forall>h :: ('p, 't, 'r, event list \<times> 'w) method_handler. gate_Middleware g now h ctx ''tools/call'' (CallToolParamsRaw name p) (log, w)
              = ((None, Some (ErrorString msg)), (log @ [e], w)))
        \<and> (msg \<in> {''forbidden: request is not authenticated'', ''forbidden''}
            \<or> (\<exists>c cause ae. ClaimsFromContext ctx = Some c \<and> evaluate g ctx c name = Some cause
                 \<and> errors_As cause = Some ae \<and> msg = Message ae)))"
proof (cases "may_use g ctx name")
  case True
  then obtain c where c: "ClaimsFromContext ctx = Some c" "evaluate g ctx c name = None" by (auto simp: may_use_evaluate)
  let ?e = "toolEvent c name OutcomeGranted [] now"
  have "gate_Middleware g now h ctx ''tools/call'' (CallToolParamsRaw name p) (log, w)
      = h ctx ''tools/call'' (CallToolParamsRaw name p) (log @ [?e], w)" for h :: "('p, 't, 'r, event list \<times> 'w) method_handler"
    using gateCall_admits [OF c, of now h p "(log, w)"] assms by (simp add: gate_record_def)
  moreover have "ev_Outcome ?e = ''granted''" "ev_Tool ?e = name" "ev_Subject ?e = Subject c"
    by (simp_all add: toolEvent_def zero_event_def)
  ultimately show ?thesis using True c by auto
next
  case False
  from gateCall_denies [OF this, of now p "(log, w)"] obtain e err
    where run: "\<And>h :: ('p, 't, 'r, event list \<times> 'w) method_handler. gate_Middleware g now h ctx ''tools/call'' (CallToolParamsRaw name p) (log, w) = ((None, Some err), (log @ [e], w))"
      and ev: "ev_Outcome e = ''denied''" "ev_Tool e = name"
      and err: "err = errUnauthenticated \<or> (\<exists>c cause. ClaimsFromContext ctx = Some c \<and> evaluate g ctx c name = Some cause \<and> err = denial cause)"
    using assms by (auto simp: gate_record_def)
  from err have "\<exists>msg. err = ErrorString msg \<and> (msg \<in> {''forbidden: request is not authenticated'', ''forbidden''}
      \<or> (\<exists>c cause ae. ClaimsFromContext ctx = Some c \<and> evaluate g ctx c name = Some cause \<and> errors_As cause = Some ae \<and> msg = Message ae))"
    by (auto simp: errUnauthenticated_def denial_def split: option.splits)
  with run ev False show ?thesis by (simp only: if_False) blast
qed

definition demo_gate :: "(event list \<times> nat) tool_gate" where
  "demo_gate = \<lparr>tg_Policies = [''admin'' \<mapsto> Some DenyAll], tg_Default = None, tg_Audit = Some (\<lambda>e (log, w). (log @ [e], w))\<rparr>"

definition demo_caller :: go_context where
  "demo_caller = WithClaims [] (claimsFromToken (demo_token ''iss''))"

definition demo_tool :: "(nat, nat, nat, event list \<times> nat) method_handler" where
  "demo_tool ctx m req w = ((Some (OtherResult 1), None), w)"

theorem gate_call_enforces_policy_witness:
  "\<exists>e msg. gate_Middleware demo_gate 0 demo_tool demo_caller ''tools/call'' (CallToolParamsRaw ''admin'' 0) ([], 0)
      = ((None, Some (ErrorString msg)), ([e], 0)) \<and> ev_Outcome e = ''denied''"
proof -
  have audit: "tg_Audit demo_gate = Some (\<lambda>e (log, w). (log @ [e], w))" by (simp add: demo_gate_def)
  have "ClaimsFromContext demo_caller = Some (claimsFromToken (demo_token ''iss''))"
    by (simp add: demo_caller_def ClaimsFromContext_def context_simps)
  then have no: "\<not> may_use demo_gate demo_caller ''admin''" by (simp add: may_use_def policyFor_def DenyAll_def demo_gate_def)
  obtain e msg where "ev_Outcome e = ''denied''"
    and "\<forall>h :: (nat, nat, nat, event list \<times> nat) method_handler.
      gate_Middleware demo_gate 0 h demo_caller ''tools/call'' (CallToolParamsRaw ''admin'' 0) ([], 0)
        = ((None, Some (ErrorString msg)), ([] @ [e], 0))"
    using gate_call_enforces_policy [OF audit, of demo_caller "''admin''" 0 0 "[]" 0] no by (simp only: if_False) blast
  then show ?thesis by (intro exI [of _ e] exI [of _ msg]) simp
qed

text \<open>C18: discovery and invocation agree. When the server answers tools/list with a list, the caller sees
  exactly the tools it could call, in the server's order, with the cursor and metadata kept; without an
  authenticated caller it sees none. Everything else passes through the gate unchanged.\<close>

theorem gate_list_agrees_with_call:
  "gate_Middleware g now (\<lambda>ctx m req w. ((Some (ListToolsResult meta cursor tools), None), w)) ctx ''tools/list'' req w =
     ((Some (ListToolsResult meta cursor (filter (\<lambda>tool. may_use g ctx (fst tool)) tools)), None), w)
   \<and> gate_Middleware g now (\<lambda>ctx m req w. ((res, Some err), w)) ctx ''tools/list'' req w = ((res, Some err), w)
   \<and> (m \<in> {''tools/call'', ''tools/list''} \<or> gate_Middleware g now h ctx m req w = h ctx m req w)"
  by (auto simp: gate_Middleware_def filterList_def may_use_evaluate split: option.splits mcp_result.splits)

end
