(* ===== verification/MCP_Challenge.thy ===== *)
theory MCP_Challenge
  imports MCP_Verifier
begin

text \<open>
  transport/mcpauth/challenge.go and middleware.go: the response wrapper that turns the SDK's Bearer
  challenge into a DPoP challenge and rotates nonces, and the composition RequireBearerToken. What a
  handler does to its ResponseWriter is a list of method calls (\<open>rw_call\<close>), replayed on the plain writer
  or on the wrapper; the SDK's RequireBearerToken is a parameter that yields such a list. The
  verifier writes the challenge state before the SDK makes the first write, so the wrapper's reads of it
  during the calls see the value the run ends with.
\<close>

section \<open>Writer calls\<close>

text \<open>\<open>EditHeader\<close> is any other write to the header map (\<open>Header().Add\<close>, an index assignment).\<close>

datatype rw_call =
    SetHeader string string
  | DelHeader string
  | EditHeader "header \<Rightarrow> header"
  | CallWriteHeader int
  | CallWrite body_part

fun plain_call :: "rw_call \<Rightarrow> response \<Rightarrow> response" where
  "plain_call (SetHeader k v) w = set_header k v w"
| "plain_call (DelHeader k) w = w\<lparr>rs_header := Header_Del (rs_header w) k\<rparr>"
| "plain_call (EditHeader f) w = w\<lparr>rs_header := f (rs_header w)\<rparr>"
| "plain_call (CallWriteHeader code) w = WriteHeader code w"
| "plain_call (CallWrite b) w = Write b w"

section \<open>challenge.go\<close>

definition mcp_sanitizeQuoted :: "string \<Rightarrow> string" where
  "mcp_sanitizeQuoted s = filter quoted_ok s"

definition dpopChallenge :: "string \<Rightarrow> string \<Rightarrow> string" where
  "dpopChallenge code resourceMetadataURL =
     ''DPoP '' @ strings_Join
       ([''realm='' @ [CHR 0x22] @ ''mcp'' @ [CHR 0x22], ''error='' @ [CHR 0x22] @ code @ [CHR 0x22]]
        @ (if resourceMetadataURL \<noteq> []
           then [''resource_metadata='' @ [CHR 0x22] @ mcp_sanitizeQuoted resourceMetadataURL @ [CHR 0x22]] else []))
       '', ''"

text \<open>
  The wrapper: the writer underneath and whether the header was written through it. Its other fields are
  arguments: the challenge state it points to, the verifier, the metadata URL, and the clock reading and
  randomness of the one nonce it may issue.
\<close>

record challengeWriter =
  cw_inner :: response
  cw_wroteHeader :: bool

record 'd challenge_env =
  ce_state :: challengeState
  ce_dv :: "'d dpop_verifier"
  ce_resourceMetadataURL :: string
  ce_now :: time
  ce_rnd :: "string option"

definition inject :: "'d challenge_env \<Rightarrow> int \<Rightarrow> response \<Rightarrow> response" where
  "inject env code w =
     (let st = ce_state env; dv = ce_dv env in
      if cs_isDPoP st \<and> code = 401 then
        (let w = set_header ''Cache-Control'' ''no-store''
                   (set_header ''WWW-Authenticate'' (dpopChallenge (cs_code st) (ce_resourceMetadataURL env)) w) in
         if cs_code st = Code ErrUseDPoPNonce then
           (let n = IssueNonce dv (ce_now env) (ce_rnd env) in if n \<noteq> [] then set_header ''DPoP-Nonce'' n w else w)
         else w)
      else if 200 \<le> code \<and> code < 300 \<and> NonceConfigured dv then
        (let n = IssueNonce dv (ce_now env) (ce_rnd env) in
         if n \<noteq> [] then
           (let w = set_header ''DPoP-Nonce'' n w in
            if Header_Get (rs_header w) ''Cache-Control'' = [] then set_header ''Cache-Control'' ''no-store'' w else w)
         else w)
      else w)"

definition cw_WriteHeader :: "'d challenge_env \<Rightarrow> int \<Rightarrow> challengeWriter \<Rightarrow> challengeWriter" where
  "cw_WriteHeader env code w =
     (let w = (if \<not> cw_wroteHeader w then \<lparr>cw_inner = inject env code (cw_inner w), cw_wroteHeader = True\<rparr> else w)
      in w\<lparr>cw_inner := WriteHeader code (cw_inner w)\<rparr>)"

definition cw_Write :: "'d challenge_env \<Rightarrow> body_part \<Rightarrow> challengeWriter \<Rightarrow> challengeWriter" where
  "cw_Write env b w =
     (let w = (if \<not> cw_wroteHeader w then cw_WriteHeader env 200 w else w)
      in w\<lparr>cw_inner := Write b (cw_inner w)\<rparr>)"

fun wrapped_call :: "'d challenge_env \<Rightarrow> rw_call \<Rightarrow> challengeWriter \<Rightarrow> challengeWriter" where
  "wrapped_call env (SetHeader k v) w = w\<lparr>cw_inner := set_header k v (cw_inner w)\<rparr>"
| "wrapped_call env (DelHeader k) w = w\<lparr>cw_inner := (cw_inner w)\<lparr>rs_header := Header_Del (rs_header (cw_inner w)) k\<rparr>\<rparr>"
| "wrapped_call env (EditHeader f) w = w\<lparr>cw_inner := (cw_inner w)\<lparr>rs_header := f (rs_header (cw_inner w))\<rparr>\<rparr>"
| "wrapped_call env (CallWriteHeader code) w = cw_WriteHeader env code w"
| "wrapped_call env (CallWrite b) w = cw_Write env b w"

section \<open>middleware.go\<close>

record 'd mcp_options =
  op_ResourceMetadataURL :: string
  op_Scopes :: "string list"
  op_DPoP :: "'d dpop_verifier option"
  op_BaseURL :: string

type_synonym 's mcp_handler = "http_request \<Rightarrow> 's \<Rightarrow> rw_call list \<times> 's"

text \<open>The SDK: from a token verifier and its options (metadata URL, scopes), middleware around a handler.\<close>

type_synonym ('v, 'd) sdk_middleware =
  "('v, 'd) token_verifier \<Rightarrow> (string \<times> string list) option \<Rightarrow> ('v, 'd) mcp_state mcp_handler \<Rightarrow> ('v, 'd) mcp_state mcp_handler"

text \<open>\<open>p\<close> is the address of the challenge state allocated for the request.\<close>

definition dpopChallengeMiddleware :: "('v, 'd) mcp_state mcp_handler \<Rightarrow> 'd dpop_verifier \<Rightarrow> string \<Rightarrow> time \<Rightarrow> string option \<Rightarrow> nat
    \<Rightarrow> http_request \<Rightarrow> response \<Rightarrow> ('v, 'd) mcp_state \<Rightarrow> response \<times> ('v, 'd) mcp_state" where
  "dpopChallengeMiddleware wrapped dv url now rnd p r w s =
     (case wrapped (r\<lparr>rq_Context := WithValue (rq_Context r) ChallengeKey (VChallenge p)\<rparr>)
             (s\<lparr>ms_cells := (ms_cells s)(p := \<lparr>cs_isDPoP = False, cs_code = []\<rparr>)\<rparr>) of
        (calls, s') \<Rightarrow>
          (cw_inner (fold (wrapped_call \<lparr>ce_state = ms_cells s' p, ce_dv = dv, ce_resourceMetadataURL = url, ce_now = now, ce_rnd = rnd\<rparr>)
             calls \<lparr>cw_inner = w, cw_wroteHeader = False\<rparr>), s'))"

record mcp_env =
  me_enforce :: time
  me_cache :: time
  me_nonce :: time
  me_rnd :: "string option"
  me_cell :: nat

definition RequireBearerToken :: "'key jose \<Rightarrow> dpop_std \<Rightarrow> string \<Rightarrow> ('v, 'd) sdk_middleware
    \<Rightarrow> ('v \<Rightarrow> go_context \<Rightarrow> string \<Rightarrow> (goerr + claims) \<times> 'v) \<Rightarrow> 'd mcp_options option \<Rightarrow> mcp_env
    \<Rightarrow> ('v, 'd) mcp_state mcp_handler \<Rightarrow> http_request \<Rightarrow> response \<Rightarrow> ('v, 'd) mcp_state \<Rightarrow> response \<times> ('v, 'd) mcp_state" where
  "RequireBearerToken jo std iv sdk validate opts env next_handler r w s =
     (let sdkOpts = map_option (\<lambda>o'. (op_ResourceMetadataURL o', op_Scopes o')) opts;
          dv = (case opts of None \<Rightarrow> None | Some o' \<Rightarrow> op_DPoP o');
          baseURL = (case opts of None \<Rightarrow> [] | Some o' \<Rightarrow> op_BaseURL o');
          url = (case opts of None \<Rightarrow> [] | Some o' \<Rightarrow> op_ResourceMetadataURL o');
          inner = sdk (newVerifierFunc jo std iv validate dv baseURL (me_enforce env) (me_cache env)) sdkOpts
      in case dv of
           None \<Rightarrow> (case inner next_handler r s of (calls, s') \<Rightarrow> (fold plain_call calls w, s'))
         | Some d \<Rightarrow> dpopChallengeMiddleware (inner next_handler) d url (me_nonce env) (me_rnd env) (me_cell env) r w s)"

section \<open>Lemmas\<close>

lemma inject_sent [simp]: "rs_sent (inject env code w) = rs_sent w" "rs_body (inject env code w) = rs_body w"
  by (simp_all add: inject_def set_header_def Let_def)

lemma set_header_sent [simp]: "rs_sent (set_header k v w) = rs_sent w" "rs_body (set_header k v w) = rs_body w"
  by (simp_all add: set_header_def)

text \<open>The wrapper and the plain writer agree on the status and the body after every call.\<close>

definition same_wire :: "challengeWriter \<Rightarrow> response \<Rightarrow> bool" where
  "same_wire cw w \<longleftrightarrow> map_option fst (rs_sent (cw_inner cw)) = map_option fst (rs_sent w) \<and> rs_body (cw_inner cw) = rs_body w"

lemma WriteHeader_wire:
  "map_option fst (rs_sent (WriteHeader code w)) =
    (case rs_sent w of None \<Rightarrow> if informational code then None else Some code | Some x \<Rightarrow> Some (fst x))"
  "rs_body (WriteHeader code w) = rs_body w"
  by (auto simp: WriteHeader_def split: option.splits)

lemma same_wire_WriteHeader: "same_wire cw w \<Longrightarrow> same_wire (cw_WriteHeader env code cw) (WriteHeader code w)"
  by (auto simp: same_wire_def cw_WriteHeader_def Let_def WriteHeader_wire split: option.splits)

lemma same_wire_Write: "same_wire cw w \<Longrightarrow> same_wire (cw_Write env b cw) (Write b w)"
proof -
  assume "same_wire cw w"
  then have 1: "same_wire (cw_WriteHeader env 200 cw) (WriteHeader 200 w)" "same_wire (cw\<lparr>cw_inner := WriteHeader 200 (cw_inner cw)\<rparr>) (WriteHeader 200 w)"
    by (auto simp: same_wire_WriteHeader) (auto simp: same_wire_def WriteHeader_wire split: option.splits)
  have "WriteHeader 200 (WriteHeader 200 x) = WriteHeader 200 x" for x by (simp add: WriteHeader_def informational_def)
  then have "WriteHeader 200 (cw_inner (cw_WriteHeader env 200 cw)) = cw_inner (cw_WriteHeader env 200 cw)"
    by (simp add: cw_WriteHeader_def Let_def)
  with 1 show ?thesis by (auto simp: same_wire_def cw_Write_def Write_def Let_def)
qed

lemma same_wire_call: "same_wire cw w \<Longrightarrow> same_wire (wrapped_call env c cw) (plain_call c w)"
  by (cases c) (auto simp: same_wire_WriteHeader same_wire_Write, auto simp: same_wire_def)

lemma same_wire_fold: "same_wire cw w \<Longrightarrow> same_wire (fold (wrapped_call env) cs cw) (fold plain_call cs w)"
  by (induction cs arbitrary: cw w) (simp_all add: same_wire_call)

lemma sent_stable: "rs_sent (cw_inner cw) = Some x \<Longrightarrow> rs_sent (cw_inner (fold (wrapped_call env) cs cw)) = Some x"
proof (induction cs arbitrary: cw)
  case (Cons c cs)
  have "rs_sent (cw_inner (wrapped_call env c cw)) = Some x"
    using Cons.prems by (cases c) (auto simp: cw_WriteHeader_def cw_Write_def Write_def WriteHeader_def Let_def)
  with Cons.IH show ?case by simp
qed simp

text \<open>Header calls before the first write.\<close>

definition header_call :: "rw_call \<Rightarrow> bool" where
  "header_call c \<longleftrightarrow> (case c of CallWriteHeader code \<Rightarrow> False | CallWrite b \<Rightarrow> False | _ \<Rightarrow> True)"

text \<open>The status a call commits: an explicit one, or the implicit 200 of a body.\<close>

fun call_status :: "rw_call \<Rightarrow> int option" where
  "call_status (CallWriteHeader code) = Some code"
| "call_status (CallWrite b) = Some 200"
| "call_status _ = None"

lemma wrapped_headers:
  "list_all header_call pre \<Longrightarrow>
   fold (wrapped_call env) pre \<lparr>cw_inner = w, cw_wroteHeader = False\<rparr> = \<lparr>cw_inner = fold plain_call pre w, cw_wroteHeader = False\<rparr>
   \<and> rs_sent (fold plain_call pre w) = rs_sent w"
proof (induction pre arbitrary: w)
  case (Cons c pre)
  then show ?case by (cases c) (auto simp: header_call_def)
qed simp

lemma first_status:
  assumes "list_all header_call pre" and "rs_sent w = None" and "call_status c = Some code" and "\<not> informational code"
  shows "rs_sent (cw_inner (fold (wrapped_call env) (pre @ c # rest) \<lparr>cw_inner = w, cw_wroteHeader = False\<rparr>)) =
    Some (code, rs_header (inject env code (fold plain_call pre w)))"
proof -
  have p: "fold (wrapped_call env) pre \<lparr>cw_inner = w, cw_wroteHeader = False\<rparr> = \<lparr>cw_inner = fold plain_call pre w, cw_wroteHeader = False\<rparr>"
    and s: "rs_sent (fold plain_call pre w) = None"
    using wrapped_headers [OF assms(1), of env w] assms(2) by simp_all
  have "rs_sent (cw_inner (wrapped_call env c \<lparr>cw_inner = fold plain_call pre w, cw_wroteHeader = False\<rparr>)) =
      Some (code, rs_header (inject env code (fold plain_call pre w)))"
    using s assms(3,4) by (cases c) (auto simp: cw_WriteHeader_def cw_Write_def Write_def WriteHeader_def Let_def)
  then show ?thesis using sent_stable by (simp add: p)
qed

text \<open>Once a status went through it, the wrapper is the plain writer.\<close>

lemma wrapped_after_status:
  "fold (wrapped_call env) cs \<lparr>cw_inner = w, cw_wroteHeader = True\<rparr> = \<lparr>cw_inner = fold plain_call cs w, cw_wroteHeader = True\<rparr>"
proof (induction cs arbitrary: w)
  case (Cons c cs)
  have "wrapped_call env c \<lparr>cw_inner = w, cw_wroteHeader = True\<rparr> = \<lparr>cw_inner = plain_call c w, cw_wroteHeader = True\<rparr>"
    by (cases c) (simp_all add: cw_WriteHeader_def cw_Write_def Let_def)
  with Cons.IH show ?case by simp
qed simp

text \<open>An informational first status uses up the one injection: nothing is added to the handler's response.\<close>

lemma first_informational:
  assumes "list_all header_call pre" and "call_status c = Some code" and "informational code"
  shows "cw_inner (fold (wrapped_call env) (pre @ c # rest) \<lparr>cw_inner = w, cw_wroteHeader = False\<rparr>) = fold plain_call (pre @ c # rest) w"
proof -
  have c: "c = CallWriteHeader code" using assms(2,3) by (cases c) (auto simp: informational_def)
  have "inject env code x = x" for x using assms(3) by (simp add: inject_def informational_def)
  then have "wrapped_call env c \<lparr>cw_inner = x, cw_wroteHeader = False\<rparr> = \<lparr>cw_inner = plain_call c x, cw_wroteHeader = True\<rparr>" for x
    by (simp add: c cw_WriteHeader_def Let_def)
  then show ?thesis using wrapped_headers [OF assms(1), of env w] by (simp add: wrapped_after_status)
qed

lemma inject_headers:
  assumes "h0 = rs_header w" and "h = rs_header (inject env code w)" and "n = IssueNonce (ce_dv env) (ce_now env) (ce_rnd env)"
  shows "if cs_isDPoP (ce_state env) \<and> code = 401
   then Header_Get h ''WWW-Authenticate'' = dpopChallenge (cs_code (ce_state env)) (ce_resourceMetadataURL env)
     \<and> Header_Get h ''Cache-Control'' = ''no-store''
     \<and> Header_Get h ''DPoP-Nonce'' =
         (if cs_code (ce_state env) = Code ErrUseDPoPNonce \<and> n \<noteq> [] then n else Header_Get h0 ''DPoP-Nonce'')
   else if 200 \<le> code \<and> code < 300 \<and> n \<noteq> []
   then Header_Get h ''WWW-Authenticate'' = Header_Get h0 ''WWW-Authenticate''
     \<and> Header_Get h ''Cache-Control'' = (if Header_Get h0 ''Cache-Control'' = [] then ''no-store'' else Header_Get h0 ''Cache-Control'')
     \<and> Header_Get h ''DPoP-Nonce'' = n
   else h = h0"
proof -
  have keys: "CanonicalHeaderKey ''WWW-Authenticate'' = ''Www-Authenticate''" "CanonicalHeaderKey ''Cache-Control'' = ''Cache-Control''"
    by code_simp+
  have conf: "IssueNonce (ce_dv env) t r \<noteq> [] \<Longrightarrow> NonceConfigured (ce_dv env)" for t r
    by (auto simp: IssueNonce_def NonceConfigured_def split: option.splits)
  show ?thesis
    using conf [of "ce_now env" "ce_rnd env"]
    by (auto simp: assms inject_def set_header_def keys CanonicalHeaderKey_DPoP_Nonce Let_def)
qed

text \<open>An informational status uses up the one injection.\<close>

lemma early_hints_skip_challenge:
  assumes "cs_isDPoP (ce_state env)"
  shows "rs_sent (cw_inner (fold (wrapped_call env) [CallWriteHeader 103, CallWriteHeader 401]
      \<lparr>cw_inner = new_response, cw_wroteHeader = False\<rparr>)) = Some (401, [])"
  by (simp add: cw_WriteHeader_def inject_def WriteHeader_def informational_def new_response_def Let_def)

section \<open>Properties\<close>

text \<open>C19: the first status a handler commits through the wrapper, informational ones included, decides what the
  wrapper adds; the status is an explicit one or the implicit 200 of a first body write, and any header
  calls may come before it. If it is final, it goes out with these headers: a 401 after a DPoP failure
  carries the DPoP challenge with its error code in place of any Bearer challenge, is marked no-store, and
  carries a fresh nonce exactly when a nonce is demanded and can be issued; a 2xx carries a fresh nonce
  when one can be issued and is then no-store unless the handler set its own Cache-Control; every other
  response goes out with the handler's headers unchanged, so without a nonce of the wrapper. If it is
  informational (1xx), the injection is used up: the whole response is the handler's own, a later 401
  included, without challenge or nonce.\<close>

theorem wrapper_challenge_headers:
  assumes "list_all header_call pre" and "rs_sent w = None" and "call_status c = Some code"
    and "run = cw_inner (fold (wrapped_call env) (pre @ c # rest) \<lparr>cw_inner = w, cw_wroteHeader = False\<rparr>)"
  shows "(informational code \<longrightarrow> run = fold plain_call (pre @ c # rest) w)
    \<and> (\<not> informational code \<longrightarrow> (\<exists>h. rs_sent run = Some (code, h)
       \<and> (let h0 = rs_header (fold plain_call pre w); n = IssueNonce (ce_dv env) (ce_now env) (ce_rnd env) in
          if cs_isDPoP (ce_state env) \<and> code = 401
          then Header_Get h ''WWW-Authenticate'' = dpopChallenge (cs_code (ce_state env)) (ce_resourceMetadataURL env)
            \<and> Header_Get h ''Cache-Control'' = ''no-store''
            \<and> Header_Get h ''DPoP-Nonce'' =
                (if cs_code (ce_state env) = Code ErrUseDPoPNonce \<and> n \<noteq> [] then n else Header_Get h0 ''DPoP-Nonce'')
          else if 200 \<le> code \<and> code < 300 \<and> n \<noteq> []
          then Header_Get h ''WWW-Authenticate'' = Header_Get h0 ''WWW-Authenticate''
            \<and> Header_Get h ''Cache-Control'' =
                (if Header_Get h0 ''Cache-Control'' = [] then ''no-store'' else Header_Get h0 ''Cache-Control'')
            \<and> Header_Get h ''DPoP-Nonce'' = n
          else h = h0)))"
proof (cases "informational code")
  case True
  with first_informational [OF assms(1,3)] show ?thesis unfolding assms(4) by blast
next
  case False
  from first_status [OF assms(1-3) False, of env rest] have "rs_sent run = Some (code, rs_header (inject env code (fold plain_call pre w)))"
    unfolding assms(4) .
  with False inject_headers [OF refl refl refl, where w = "fold plain_call pre w" and env = env and code = code]
  show ?thesis unfolding Let_def by blast
qed

definition demo_challenge :: "unit challenge_env" where
  "demo_challenge = \<lparr>ce_state = \<lparr>cs_isDPoP = True, cs_code = ''invalid_dpop_proof''\<rparr>,
     ce_dv = NewVerifier nop_SeenBefore \<lparr>dc_Mode = 0, dc_IATLeeway = 0, dc_ReplayCache = None, dc_AlgAllow = [], dc_Nonce = None\<rparr>,
     ce_resourceMetadataURL = [], ce_now = 0, ce_rnd = None\<rparr>"

theorem wrapper_challenge_headers_witness:
  "(\<exists>h. rs_sent (cw_inner (fold (wrapped_call demo_challenge) ([SetHeader ''WWW-Authenticate'' ''Bearer''] @ CallWriteHeader 401 # [])
        \<lparr>cw_inner = new_response, cw_wroteHeader = False\<rparr>)) = Some (401, h)
      \<and> Header_Get h ''WWW-Authenticate'' = dpopChallenge ''invalid_dpop_proof'' [] \<and> Header_Get h ''DPoP-Nonce'' = [])
   \<and> rs_sent (cw_inner (fold (wrapped_call demo_challenge) ([] @ CallWrite (BodyText ''ok'') # [])
        \<lparr>cw_inner = new_response, cw_wroteHeader = False\<rparr>)) = Some (200, [])
   \<and> rs_sent (cw_inner (fold (wrapped_call demo_challenge) ([] @ CallWriteHeader 103 # [CallWriteHeader 401])
        \<lparr>cw_inner = new_response, cw_wroteHeader = False\<rparr>)) = Some (401, [])"
proof -
  have pre: "list_all header_call [SetHeader ''WWW-Authenticate'' ''Bearer'']" "list_all header_call []" by (simp_all add: header_call_def)
  have w: "rs_sent new_response = None" and inf: "\<not> informational 401" "\<not> informational 200" "informational 103"
    by (simp_all add: new_response_def informational_def)
  have st: "cs_isDPoP (ce_state demo_challenge)" "cs_code (ce_state demo_challenge) = ''invalid_dpop_proof''"
    "ce_resourceMetadataURL demo_challenge = []" "Code ErrUseDPoPNonce \<noteq> ''invalid_dpop_proof''"
    "IssueNonce (ce_dv demo_challenge) (ce_now demo_challenge) (ce_rnd demo_challenge) = []"
    by (simp_all add: demo_challenge_def sentinel_defs IssueNonce_def NewVerifier_def Let_def)
  have nonce: "Header_Get (rs_header (fold plain_call [SetHeader ''WWW-Authenticate'' ''Bearer''] new_response)) ''DPoP-Nonce'' = []"
    by (simp add: set_header_def new_response_def CanonicalHeaderKey_DPoP_Nonce Header_Get_def Header_Values_def Header_Set_def) code_simp
  from wrapper_challenge_headers [OF pre(1) w, of "CallWriteHeader 401" 401, OF _ refl, of demo_challenge "[]"] inf st nonce
  have 1: "\<exists>h. rs_sent (cw_inner (fold (wrapped_call demo_challenge) ([SetHeader ''WWW-Authenticate'' ''Bearer''] @ CallWriteHeader 401 # [])
        \<lparr>cw_inner = new_response, cw_wroteHeader = False\<rparr>)) = Some (401, h)
      \<and> Header_Get h ''WWW-Authenticate'' = dpopChallenge ''invalid_dpop_proof'' [] \<and> Header_Get h ''DPoP-Nonce'' = []"
    unfolding Let_def by auto
  from wrapper_challenge_headers [OF pre(2) w, of "CallWrite (BodyText ''ok'')" 200, OF _ refl, of demo_challenge "[]"] inf st
  have 2: "rs_sent (cw_inner (fold (wrapped_call demo_challenge) ([] @ CallWrite (BodyText ''ok'') # [])
        \<lparr>cw_inner = new_response, cw_wroteHeader = False\<rparr>)) = Some (200, [])"
    unfolding Let_def by (auto simp: new_response_def)
  from wrapper_challenge_headers [OF pre(2) w, of "CallWriteHeader 103" 103, OF _ refl, of demo_challenge "[CallWriteHeader 401]"] inf
  have "cw_inner (fold (wrapped_call demo_challenge) ([] @ CallWriteHeader 103 # [CallWriteHeader 401])
        \<lparr>cw_inner = new_response, cw_wroteHeader = False\<rparr>) = fold plain_call ([] @ CallWriteHeader 103 # [CallWriteHeader 401]) new_response" by simp
  then have 3: "rs_sent (cw_inner (fold (wrapped_call demo_challenge) ([] @ CallWriteHeader 103 # [CallWriteHeader 401])
        \<lparr>cw_inner = new_response, cw_wroteHeader = False\<rparr>)) = Some (401, [])"
    by (simp add: WriteHeader_def informational_def new_response_def)
  from 1 2 3 show ?thesis by blast
qed

text \<open>C20: the wrapper is transparent on the wire. Whatever calls a handler makes, in whatever order, the
  status line and the body are those the plain writer would send.\<close>

theorem wrapper_transparent:
  "map_option fst (rs_sent (cw_inner (fold (wrapped_call env) calls \<lparr>cw_inner = w, cw_wroteHeader = False\<rparr>)))
     = map_option fst (rs_sent (fold plain_call calls w))
   \<and> rs_body (cw_inner (fold (wrapped_call env) calls \<lparr>cw_inner = w, cw_wroteHeader = False\<rparr>))
     = rs_body (fold plain_call calls w)"
  using same_wire_fold [of "\<lparr>cw_inner = w, cw_wroteHeader = False\<rparr>" w env calls] by (simp add: same_wire_def)

text \<open>
  What RequireBearerToken relies on in the SDK: with a bearer token on the request, the verifier is asked
  about it once, with the request, and an error that unwraps to the SDK's ErrInvalidToken is answered by
  header calls and a 401. Nothing is assumed about other errors (the SDK answers them otherwise, with a 500).
\<close>

definition sdk_answers_401 :: "(http_request \<Rightarrow> string option) \<Rightarrow> ('v, 'd) sdk_middleware \<Rightarrow> bool" where
  "sdk_answers_401 bearer sdk \<longleftrightarrow>
     (\<forall>ver opts h r s token e s'. bearer r = Some token \<longrightarrow> ver (rq_Context r) token (Some r) s = (Inl e, s') \<longrightarrow>
        unwraps_to_invalid e \<longrightarrow>
        (\<exists>pre rest. list_all header_call pre \<and> sdk ver opts h r s = (pre @ CallWriteHeader 401 # rest, s')))"

text \<open>C17: end to end on the MCP transport: when the validator accepts the token but the DPoP check fails, the
  verifier's error unwraps to the SDK's ErrInvalidToken, which the SDK answers with a 401 (and no other error), so
  the client gets a 401 with a DPoP challenge whose error is use_dpop_nonce exactly when a nonce is
  demanded and invalid_dpop_proof otherwise, and a demanded nonce is in the DPoP-Nonce header when one
  can be issued.\<close>

theorem mcp_dpop_failure_challenged:
  assumes sdk: "sdk_answers_401 bearer sdk" and opts: "opts = Some \<lparr>op_ResourceMetadataURL = url, op_Scopes = sc, op_DPoP = Some dv, op_BaseURL = base\<rparr>"
    and req: "\<And>ctx. bearer (r\<lparr>rq_Context := ctx\<rparr>) = Some token" and w: "rs_sent w = None"
    and val: "validate (ms_validator s) (WithValue (rq_Context r) ChallengeKey (VChallenge (me_cell env))) token = (Inr c, v')"
    and fail: "Enforce jo std dv (mcp_input r base token c) (me_enforce env) (me_cache env) (ms_replay s) = (Some derr, st)"
  shows "\<exists>h. rs_sent (fst (RequireBearerToken jo std iv sdk validate opts env next_handler r w s)) = Some (401, h)
    \<and> Header_Get h ''WWW-Authenticate'' =
        dpopChallenge (if errors_Is derr ErrUseDPoPNonce then ''use_dpop_nonce'' else ''invalid_dpop_proof'') url
    \<and> (errors_Is derr ErrUseDPoPNonce \<and> IssueNonce dv (me_nonce env) (me_rnd env) \<noteq> [] \<longrightarrow>
         Header_Get h ''DPoP-Nonce'' = IssueNonce dv (me_nonce env) (me_rnd env))"
proof -
  let ?p = "me_cell env" and ?code = "if errors_Is derr ErrUseDPoPNonce then Code ErrUseDPoPNonce else Code ErrInvalidDPoPProof"
  let ?ctx = "WithValue (rq_Context r) ChallengeKey (VChallenge ?p)"
  let ?r = "r\<lparr>rq_Context := ?ctx\<rparr>" and ?s = "s\<lparr>ms_cells := (ms_cells s)(?p := \<lparr>cs_isDPoP = False, cs_code = []\<rparr>)\<rparr>"
  let ?ver = "newVerifierFunc jo std iv validate (Some dv) base (me_enforce env) (me_cache env)"
  have inp: "mcp_input ?r base token c = mcp_input r base token c" by (simp add: mcp_input_def mcp_requestURL_def)
  obtain s' where ver: "?ver (rq_Context ?r) token (Some ?r) ?s = (Inl (toVerifierError iv derr), s')"
    and cell: "ms_cells s' ?p = \<lparr>cs_isDPoP = True, cs_code = ?code\<rparr>"
    using val fail inp by (simp add: newVerifierFunc_def classify_def WithValue_def Let_def)
  obtain pre rest where pre: "list_all header_call pre"
    and run: "sdk ?ver (Some (url, sc)) next_handler ?r ?s = (pre @ CallWriteHeader 401 # rest, s')"
    using sdk req ver newVerifierFunc_error_unwraps [OF ver] unfolding sdk_answers_401_def by blast
  let ?env = "\<lparr>ce_state = ms_cells s' ?p, ce_dv = dv, ce_resourceMetadataURL = url, ce_now = me_nonce env, ce_rnd = me_rnd env\<rparr>"
  have out: "fst (RequireBearerToken jo std iv sdk validate opts env next_handler r w s) =
      cw_inner (fold (wrapped_call ?env) (pre @ CallWriteHeader 401 # rest) \<lparr>cw_inner = w, cw_wroteHeader = False\<rparr>)"
    using run by (simp add: RequireBearerToken_def opts dpopChallengeMiddleware_def)
  have codes: "Code ErrUseDPoPNonce = ''use_dpop_nonce''" "Code ErrInvalidDPoPProof = ''invalid_dpop_proof''"
    by (simp_all add: sentinel_defs)
  have "\<not> informational 401" by (simp add: informational_def)
  from first_status [OF pre w _ this, of "CallWriteHeader 401" ?env rest] inject_headers [OF refl refl refl, where w = "fold plain_call pre w" and env = ?env and code = 401] out cell
  show ?thesis by (auto simp: codes)
qed

definition demo_sdk :: "('v, 'd) sdk_middleware" where
  "demo_sdk ver opts h r s =
     (case ver (rq_Context r) ''tok'' (Some r) s of
        (Inl e, s') \<Rightarrow> ([CallWriteHeader (if unwraps_to_invalid e then 401 else 500)], s')
      | (Inr ti, s') \<Rightarrow> h r s')"

definition demo_bound :: claims where
  "demo_bound = (claimsFromToken (demo_token ''iss''))\<lparr>Confirmation := ''k''\<rparr>"

definition demo_mcp_state :: "(unit, unit) mcp_state" where
  "demo_mcp_state = \<lparr>ms_validator = (), ms_replay = (), ms_cells = (\<lambda>p. \<lparr>cs_isDPoP = False, cs_code = []\<rparr>)\<rparr>"

definition demo_mcp_request :: http_request where
  "demo_mcp_request = \<lparr>rq_Method = ''POST'', rq_Host = ''a'', rq_Path = ''/m'', rq_TLS = True, rq_Header = [], rq_Context = []\<rparr>"

definition demo_mcp_env :: mcp_env where
  "demo_mcp_env = \<lparr>me_enforce = 0, me_cache = 0, me_nonce = 0, me_rnd = None, me_cell = 0\<rparr>"

lemma demo_sdk_answers: "sdk_answers_401 (\<lambda>r. Some ''tok'') (demo_sdk :: ('v, 'd) sdk_middleware)"
  unfolding sdk_answers_401_def
proof (intro allI impI)
  fix ver :: "('v, 'd) token_verifier" and opts h r s token e s'
  assume "Some ''tok'' = Some token" and "ver (rq_Context r) token (Some r) s = (Inl e, s')" and "unwraps_to_invalid e"
  then have "demo_sdk ver opts h r s = ([] @ CallWriteHeader 401 # [], s')" by (auto simp: demo_sdk_def)
  then show "\<exists>pre rest. list_all header_call pre \<and> demo_sdk ver opts h r s = (pre @ CallWriteHeader 401 # rest, s')"
    by (intro exI [of _ "[]"]) simp
qed

theorem mcp_dpop_failure_challenged_witness:
  "\<exists>h. rs_sent (fst (RequireBearerToken demo_jose demo_std ''invalid token'' demo_sdk (\<lambda>v ctx b. (Inr demo_bound, v))
        (Some \<lparr>op_ResourceMetadataURL = [], op_Scopes = [], op_DPoP = Some (ce_dv demo_challenge), op_BaseURL = []\<rparr>)
        demo_mcp_env (\<lambda>r s. ([], s)) demo_mcp_request new_response demo_mcp_state)) = Some (401, h)
    \<and> Header_Get h ''WWW-Authenticate'' = dpopChallenge ''invalid_dpop_proof'' []"
proof -
  let ?derr = "dpop_reject ''bound token presented without a dpop proof''"
  have fail: "Enforce demo_jose demo_std (ce_dv demo_challenge) (mcp_input demo_mcp_request [] ''tok'' demo_bound) (me_enforce demo_mcp_env)
      (me_cache demo_mcp_env) (ms_replay demo_mcp_state) = (Some ?derr, ms_replay demo_mcp_state)"
    by (simp add: Enforce_def mcp_input_def demo_bound_def demo_mcp_request_def Header_Values_def)
  have no: "\<not> errors_Is ?derr ErrUseDPoPNonce"
    by (simp add: dpop_reject_def With_def sentinel_defs Error_Is_def)
  have w: "rs_sent new_response = None" by (simp add: new_response_def)
  show ?thesis
    using mcp_dpop_failure_challenged [OF demo_sdk_answers refl _ w _ fail,
        where validate = "\<lambda>v ctx b. (Inr demo_bound, v)" and url = "[]" and sc = "[]" and iv = "''invalid token''"
          and next_handler = "\<lambda>r s. ([], s)"] no
    by auto
qed

end
