(* ===== verification/Session.thy ===== *)
theory Session
  imports Claims Base64
begin

text \<open>
  session.go and session_id.go: the in-memory session store, a per-user concurrency cap with a sliding
  inactivity timeout. Every method holds the store's mutex from start to end, so a concurrent execution
  is a sequence of whole method calls: the step relation below. The id generator is injected; the value
  it answers is an argument of \<open>Open\<close>.
\<close>

section \<open>State and operations\<close>

record session_config =
  Timeout :: duration
  MaxConcurrentPerUser :: int

record memorySession =
  userID :: string
  lastSeen :: time

record memoryStore =
  st_cfg :: session_config
  sessions :: "(string, memorySession) gomap"

definition ErrInvalidSession :: goerr where
  "ErrInvalidSession = ErrorString ''auth: invalid or expired session''"

definition NewMemorySessionStore :: "session_config \<Rightarrow> memoryStore" where
  "NewMemorySessionStore cfg = \<lparr>st_cfg = cfg, sessions = []\<rparr>"

definition expired :: "session_config \<Rightarrow> time \<Rightarrow> memorySession \<Rightarrow> bool" where
  "expired cfg now sess \<longleftrightarrow> time_Sub now (lastSeen sess) > Timeout cfg"

definition reapForUserLocked :: "memoryStore \<Rightarrow> string \<Rightarrow> time \<Rightarrow> memoryStore" where
  "reapForUserLocked s uid now =
     (if Timeout (st_cfg s) \<le> 0 then s
      else s\<lparr>sessions := filter (\<lambda>(i, sess). \<not> (userID sess = uid \<and> expired (st_cfg s) now sess)) (sessions s)\<rparr>)"

definition countForUserLocked :: "memoryStore \<Rightarrow> string \<Rightarrow> int" where
  "countForUserLocked s uid = int (length (filter (\<lambda>(i, sess). userID sess = uid) (sessions s)))"

definition Open :: "memoryStore \<Rightarrow> string \<Rightarrow> time \<Rightarrow> string \<Rightarrow> (goerr + string) \<times> memoryStore" where
  "Open s uid now newID =
     (if uid = [] then (Inl (ErrorString ''auth: empty userID''), s)
      else
        let s1 = reapForUserLocked s uid now in
        if MaxConcurrentPerUser (st_cfg s1) > 0 \<and> countForUserLocked s1 uid \<ge> MaxConcurrentPerUser (st_cfg s1)
        then (Inl (AuthErr ErrSessionLimitExceeded), s1)
        else (Inr newID, s1\<lparr>sessions := AList.update newID \<lparr>userID = uid, lastSeen = now\<rparr> (sessions s1)\<rparr>))"

definition Touch :: "memoryStore \<Rightarrow> string \<Rightarrow> time \<Rightarrow> goerr option \<times> memoryStore" where
  "Touch s sid now =
     (case map_of (sessions s) sid of
        None \<Rightarrow> (Some ErrInvalidSession, s)
      | Some sess \<Rightarrow>
          (if Timeout (st_cfg s) > 0 \<and> expired (st_cfg s) now sess
           then (Some ErrInvalidSession, s\<lparr>sessions := AList.delete sid (sessions s)\<rparr>)
           else (None, s\<lparr>sessions := AList.update sid (sess\<lparr>lastSeen := now\<rparr>) (sessions s)\<rparr>)))"

definition Close :: "memoryStore \<Rightarrow> string \<Rightarrow> memoryStore" where
  "Close s sid = s\<lparr>sessions := AList.delete sid (sessions s)\<rparr>"

definition Count :: "memoryStore \<Rightarrow> string \<Rightarrow> time \<Rightarrow> int \<times> memoryStore" where
  "Count s uid now = (let s1 = reapForUserLocked s uid now in (countForUserLocked s1 uid, s1))"

text \<open>
  \<open>randomSessionID\<close>: a buffer of 16 random bytes in hexadecimal. A failing random source is a panic
  (left summand) with the text of its error.
\<close>

definition randomSessionID :: "(string \<Rightarrow> string list \<Rightarrow> string) \<Rightarrow> goerr + (nat \<Rightarrow> char) \<Rightarrow> string + string" where
  "randomSessionID sprintf rnd =
     (case rnd of
        Inl err \<Rightarrow> Inl (''auth: crypto/rand failure: '' @ error_text sprintf err)
      | Inr buf \<Rightarrow> Inr (hex_EncodeToString (map buf [0..<16])))"

section \<open>The step relation\<close>

inductive session_step :: "memoryStore \<Rightarrow> memoryStore \<Rightarrow> bool" where
  step_open: "Open s u now i = (r, s') \<Longrightarrow> session_step s s'"
| step_touch: "Touch s i now = (r, s') \<Longrightarrow> session_step s s'"
| step_close: "session_step s (Close s i)"
| step_count: "Count s u now = (n, s') \<Longrightarrow> session_step s s'"

inductive session_reachable :: "session_config \<Rightarrow> memoryStore \<Rightarrow> bool" for cfg where
  reach_init: "session_reachable cfg (NewMemorySessionStore cfg)"
| reach_step: "session_reachable cfg s \<Longrightarrow> session_step s s' \<Longrightarrow> session_reachable cfg s'"

inductive_cases session_stepE: "session_step s s'"

section \<open>The invariant\<close>

definition session_inv :: "session_config \<Rightarrow> memoryStore \<Rightarrow> bool" where
  "session_inv cfg s \<longleftrightarrow> st_cfg s = cfg \<and> wf_gomap (sessions s)
     \<and> (\<forall>(i, sess) \<in> set (sessions s). userID sess \<noteq> [])
     \<and> (MaxConcurrentPerUser cfg > 0 \<longrightarrow> (\<forall>u. countForUserLocked s u \<le> MaxConcurrentPerUser cfg))"

lemma set_update_subset: "set (AList.update k v m) \<subseteq> insert (k, v) (set m)"
  by (induction m) auto

lemma set_delete_subset: "set (AList.delete k m) \<subseteq> set m"
  by (induction m) auto

lemma reap_cfg [simp]: "st_cfg (reapForUserLocked s u now) = st_cfg s"
  by (simp add: reapForUserLocked_def)

lemma reap_wf: "wf_gomap (sessions s) \<Longrightarrow> wf_gomap (sessions (reapForUserLocked s u now))"
  by (simp add: reapForUserLocked_def)

lemma reap_subset: "set (sessions (reapForUserLocked s u now)) \<subseteq> set (sessions s)"
  by (auto simp: reapForUserLocked_def)

lemma reap_count_le: "countForUserLocked (reapForUserLocked s u now) v \<le> countForUserLocked s v"
proof -
  have "length (filter P (filter Q xs)) \<le> length (filter P xs)" for P Q and xs :: "'a list"
    by (induction xs) auto
  then show ?thesis by (auto simp: reapForUserLocked_def countForUserLocked_def)
qed

lemma session_inv_shrink:
  assumes inv: "session_inv cfg s" and "st_cfg s' = st_cfg s" and "wf_gomap (sessions s')"
    and sub: "set (sessions s') \<subseteq> set (sessions s)"
    and le: "\<And>u. countForUserLocked s' u \<le> countForUserLocked s u"
  shows "session_inv cfg s'"
proof -
  have "countForUserLocked s' u \<le> MaxConcurrentPerUser cfg" if "MaxConcurrentPerUser cfg > 0" for u
    using inv that order_trans [OF le [of u]] by (simp add: session_inv_def)
  moreover have "\<forall>(i, sess) \<in> set (sessions s'). userID sess \<noteq> []"
    using inv sub by (auto simp: session_inv_def)
  ultimately show ?thesis using assms(1-3) by (simp add: session_inv_def)
qed

lemma reap_inv: "session_inv cfg s \<Longrightarrow> session_inv cfg (reapForUserLocked s u now)"
  by (rule session_inv_shrink) (auto simp: reap_wf reap_count_le session_inv_def dest: subsetD [OF reap_subset])

lemma delete_inv: "session_inv cfg s \<Longrightarrow> session_inv cfg (s\<lparr>sessions := AList.delete i (sessions s)\<rparr>)"
  by (rule session_inv_shrink)
    (auto simp: countForUserLocked_def length_filter_delete_le session_inv_def dest: subsetD [OF set_delete_subset])

text \<open>Overwriting an entry by one of the same user keeps every count.\<close>

lemma count_update_same_user:
  "map_of m i = Some sess \<Longrightarrow> userID sess' = userID sess \<Longrightarrow>
   length (filter (\<lambda>(i, x). userID x = u) (AList.update i sess' m)) = length (filter (\<lambda>(i, x). userID x = u) m)"
  by (induction m) (auto split: if_splits)

text \<open>Inserting an entry raises the count of its own user by at most one and no other count.\<close>

lemma count_update_le:
  "length (filter (\<lambda>(i, x). userID x = u) (AList.update i sess m))
     \<le> length (filter (\<lambda>(i, x). userID x = u) m) + (if userID sess = u then 1 else 0)"
  by (induction m) (auto split: if_splits)

lemma Open_inv:
  assumes "session_inv cfg s" and "Open s u now i = (r, s')"
  shows "session_inv cfg s'"
proof -
  let ?s1 = "reapForUserLocked s u now"
  let ?new = "\<lparr>userID = u, lastSeen = now\<rparr>"
  have inv1: "session_inv cfg ?s1" using assms(1) by (rule reap_inv)
  consider "s' = s" | "s' = ?s1"
    | "u \<noteq> []" "\<not> (MaxConcurrentPerUser cfg > 0 \<and> countForUserLocked ?s1 u \<ge> MaxConcurrentPerUser cfg)"
      "s' = ?s1\<lparr>sessions := AList.update i ?new (sessions ?s1)\<rparr>"
    using assms by (auto simp: Open_def Let_def session_inv_def split: if_splits)
  then show ?thesis
  proof cases
    case 3
    have "countForUserLocked s' v \<le> MaxConcurrentPerUser cfg" if "MaxConcurrentPerUser cfg > 0" for v
    proof -
      have "countForUserLocked s' v \<le> countForUserLocked ?s1 v + (if v = u then 1 else 0)"
        using count_update_le [of v i ?new "sessions ?s1"] 3(3) by (auto simp: countForUserLocked_def)
      moreover have "countForUserLocked ?s1 v \<le> MaxConcurrentPerUser cfg"
        using inv1 that by (simp add: session_inv_def)
      ultimately show ?thesis using 3(2) that by (auto split: if_splits)
    qed
    moreover have "\<forall>(j, sess) \<in> set (sessions s'). userID sess \<noteq> []"
      using set_update_subset [of i ?new "sessions ?s1"] inv1 3 by (fastforce simp: session_inv_def)
    ultimately show ?thesis using inv1 3(3) by (simp add: session_inv_def)
  qed (use assms(1) inv1 in simp_all)
qed

lemma Touch_inv:
  assumes "session_inv cfg s" and "Touch s i now = (r, s')"
  shows "session_inv cfg s'"
proof (cases "map_of (sessions s) i")
  case None
  with assms show ?thesis by (simp add: Touch_def)
next
  case (Some sess)
  let ?s2 = "s\<lparr>sessions := AList.update i (sess\<lparr>lastSeen := now\<rparr>) (sessions s)\<rparr>"
  have "countForUserLocked ?s2 u = countForUserLocked s u" for u
    using count_update_same_user [OF Some, of "sess\<lparr>lastSeen := now\<rparr>"] by (simp add: countForUserLocked_def)
  moreover have "\<forall>(j, x) \<in> set (sessions ?s2). userID x \<noteq> []"
    using set_update_subset [of i "sess\<lparr>lastSeen := now\<rparr>" "sessions s"] assms(1) map_of_SomeD [OF Some]
    by (fastforce simp: session_inv_def)
  ultimately have "session_inv cfg ?s2" using assms(1) by (simp add: session_inv_def)
  with Some assms delete_inv [OF assms(1), of i] show ?thesis
    by (auto simp: Touch_def split: if_splits)
qed

lemma session_step_inv: "session_step s s' \<Longrightarrow> session_inv cfg s \<Longrightarrow> session_inv cfg s'"
  by (erule session_stepE)
    (auto simp: Close_def Count_def Let_def intro: Open_inv Touch_inv delete_inv reap_inv)

lemma session_reachable_inv: "session_reachable cfg s \<Longrightarrow> session_inv cfg s"
proof (induction rule: session_reachable.induct)
  case reach_init
  show ?case by (simp add: session_inv_def NewMemorySessionStore_def countForUserLocked_def)
next
  case (reach_step s s')
  then show ?case by (blast intro: session_step_inv)
qed

section \<open>The SessionStore interface\<close>

text \<open>
  What a caller of the interface relies on, over the table of sessions \<open>alpha s\<close>: an opened session is
  in the table, a touch of a session within its timeout refreshes it and nothing else, a touch of an
  unknown or expired one fails and leaves it out, a closed one is gone.
\<close>

fun touch_none :: "('s \<Rightarrow> string \<Rightarrow> time \<Rightarrow> goerr option \<times> 's) \<Rightarrow> 's \<Rightarrow> string \<Rightarrow> time list \<Rightarrow> bool" where
  "touch_none touch s i [] = True"
| "touch_none touch s i (t # ts) =
     (case touch s i t of (r, s') \<Rightarrow> r = Some ErrInvalidSession \<and> touch_none touch s' i ts)"

text \<open>
  Histories of a store: any sequence of calls. \<open>touched_ok\<close>: every touch of \<open>sid\<close> in the history answers
  nil. \<open>last_touch\<close>: the reading of the last touch of \<open>sid\<close>.
\<close>

datatype session_op =
    DoOpen string time string
  | DoTouch string time
  | DoClose string
  | DoCount string time

fun after_op :: "('s \<Rightarrow> string \<Rightarrow> time \<Rightarrow> string \<Rightarrow> (goerr + string) \<times> 's) \<Rightarrow> ('s \<Rightarrow> string \<Rightarrow> time \<Rightarrow> goerr option \<times> 's)
    \<Rightarrow> ('s \<Rightarrow> string \<Rightarrow> 's) \<Rightarrow> ('s \<Rightarrow> string \<Rightarrow> time \<Rightarrow> int \<times> 's) \<Rightarrow> session_op \<Rightarrow> 's \<Rightarrow> 's" where
  "after_op sopen touch close count (DoOpen u now i) s = snd (sopen s u now i)"
| "after_op sopen touch close count (DoTouch i now) s = snd (touch s i now)"
| "after_op sopen touch close count (DoClose i) s = close s i"
| "after_op sopen touch close count (DoCount u now) s = snd (count s u now)"

definition touch_ok :: "('s \<Rightarrow> string \<Rightarrow> time \<Rightarrow> goerr option \<times> 's) \<Rightarrow> string \<Rightarrow> session_op \<Rightarrow> 's \<Rightarrow> bool" where
  "touch_ok touch sid c s = (case c of DoTouch i now \<Rightarrow> i \<noteq> sid \<or> fst (touch s i now) = None | _ \<Rightarrow> True)"

fun touched_ok :: "('s \<Rightarrow> string \<Rightarrow> time \<Rightarrow> string \<Rightarrow> (goerr + string) \<times> 's) \<Rightarrow> ('s \<Rightarrow> string \<Rightarrow> time \<Rightarrow> goerr option \<times> 's)
    \<Rightarrow> ('s \<Rightarrow> string \<Rightarrow> 's) \<Rightarrow> ('s \<Rightarrow> string \<Rightarrow> time \<Rightarrow> int \<times> 's) \<Rightarrow> string \<Rightarrow> session_op list \<Rightarrow> 's \<Rightarrow> bool" where
  "touched_ok sopen touch close count sid [] s = True"
| "touched_ok sopen touch close count sid (c # cs) s =
     (touch_ok touch sid c s \<and> touched_ok sopen touch close count sid cs (after_op sopen touch close count c s))"

fun last_touch :: "string \<Rightarrow> time \<Rightarrow> session_op list \<Rightarrow> time" where
  "last_touch sid t [] = t"
| "last_touch sid t (DoTouch i now # cs) = last_touch sid (if i = sid then now else t) cs"
| "last_touch sid t (c # cs) = last_touch sid t cs"

text \<open>
  \<open>keeps_alive d u sid t cs\<close>: in the history \<open>cs\<close> the session \<open>sid\<close> of the user \<open>u\<close>, last touched at \<open>t\<close>, is
  neither closed nor is its id drawn again, and whenever the store looks at it (a touch of it, an Open or
  a Count of its user) it was touched no longer than \<open>d\<close> before. Everything else is unrestricted.
\<close>

definition within :: "duration \<Rightarrow> time \<Rightarrow> time \<Rightarrow> bool" where
  "within d now t \<longleftrightarrow> d \<le> 0 \<or> time_Sub now t \<le> d"

fun keeps_alive :: "duration \<Rightarrow> string \<Rightarrow> string \<Rightarrow> time \<Rightarrow> session_op list \<Rightarrow> bool" where
  "keeps_alive d u sid t [] = True"
| "keeps_alive d u sid t (DoOpen v now i # cs) = (i \<noteq> sid \<and> (v = u \<longrightarrow> within d now t) \<and> keeps_alive d u sid t cs)"
| "keeps_alive d u sid t (DoTouch i now # cs) =
     (if i = sid then within d now t \<and> keeps_alive d u sid now cs else keeps_alive d u sid t cs)"
| "keeps_alive d u sid t (DoClose i # cs) = (i \<noteq> sid \<and> keeps_alive d u sid t cs)"
| "keeps_alive d u sid t (DoCount v now # cs) = ((v = u \<longrightarrow> within d now t) \<and> keeps_alive d u sid t cs)"

locale session_store =
  fixes sopen :: "'s \<Rightarrow> string \<Rightarrow> time \<Rightarrow> string \<Rightarrow> (goerr + string) \<times> 's"
    and touch :: "'s \<Rightarrow> string \<Rightarrow> time \<Rightarrow> goerr option \<times> 's"
    and close :: "'s \<Rightarrow> string \<Rightarrow> 's"
    and count :: "'s \<Rightarrow> string \<Rightarrow> time \<Rightarrow> int \<times> 's"
    and alpha :: "'s \<Rightarrow> string \<rightharpoonup> memorySession"
    and invar :: "'s \<Rightarrow> bool"
    and timeout :: duration
  assumes open_ok: "invar s \<Longrightarrow> sopen s u now i = (Inr j, s') \<Longrightarrow>
      j = i \<and> invar s' \<and> alpha s' i = Some \<lparr>userID = u, lastSeen = now\<rparr>"
    and touch_live: "invar s \<Longrightarrow> alpha s i = Some x \<Longrightarrow> within timeout now (lastSeen x) \<Longrightarrow>
      \<exists>s'. touch s i now = (None, s') \<and> invar s' \<and> alpha s' = (alpha s)(i \<mapsto> x\<lparr>lastSeen := now\<rparr>)"
    and touch_expired: "invar s \<Longrightarrow> alpha s i = Some x \<Longrightarrow> \<not> within timeout now (lastSeen x) \<Longrightarrow>
      \<exists>s'. touch s i now = (Some ErrInvalidSession, s') \<and> invar s' \<and> alpha s' = (alpha s)(i := None)"
    and touch_unknown: "invar s \<Longrightarrow> alpha s i = None \<Longrightarrow> touch s i now = (Some ErrInvalidSession, s)"
    and close_alpha: "invar s \<Longrightarrow> invar (close s i) \<and> alpha (close s i) = (alpha s)(i := None)"
    and open_invar: "invar s \<Longrightarrow> invar (snd (sopen s u now i))"
    and open_keeps: "invar s \<Longrightarrow> alpha s j = Some x \<Longrightarrow> i \<noteq> j \<Longrightarrow> (userID x = u \<longrightarrow> within timeout now (lastSeen x)) \<Longrightarrow>
      alpha (snd (sopen s u now i)) j = Some x"
    and count_invar: "invar s \<Longrightarrow> invar (snd (count s u now))"
    and count_keeps: "invar s \<Longrightarrow> alpha s j = Some x \<Longrightarrow> (userID x = u \<longrightarrow> within timeout now (lastSeen x)) \<Longrightarrow>
      alpha (snd (count s u now)) j = Some x"
begin

lemma unknown_stays_unknown: "invar s \<Longrightarrow> alpha s i = None \<Longrightarrow> touch_none touch s i ts"
  by (induction ts) (simp_all add: touch_unknown)

lemma close_ends: "invar s \<Longrightarrow> touch_none touch (close s i) i ts"
  by (rule unknown_stays_unknown) (simp_all add: close_alpha)

lemma expired_ends:
  assumes "invar s" and "alpha s i = Some x" and "\<not> within timeout now (lastSeen x)"
  shows "touch_none touch s i (now # ts)"
  using touch_expired [OF assms] by (auto intro: unknown_stays_unknown)

lemma touch_invar: "invar s \<Longrightarrow> invar (snd (touch s i now))"
proof (cases "alpha s i")
  case (Some x)
  then show "invar s \<Longrightarrow> ?thesis" using touch_live [of s i x now] touch_expired [of s i x now] by fastforce
qed (simp add: touch_unknown)

lemma touch_other: "invar s \<Longrightarrow> i \<noteq> j \<Longrightarrow> alpha (snd (touch s i now)) j = alpha s j"
proof (cases "alpha s i")
  case (Some x)
  then show "invar s \<Longrightarrow> i \<noteq> j \<Longrightarrow> ?thesis" using touch_live [of s i x now] touch_expired [of s i x now] by fastforce
qed (simp add: touch_unknown)

lemma after_op_invar: "invar s \<Longrightarrow> invar (after_op sopen touch close count c s)"
  by (cases c) (simp_all add: open_invar touch_invar close_alpha count_invar)

text \<open>Any history that keeps the session alive leaves it in the table, at its last touch.\<close>

lemma kept_alive:
  "invar s \<Longrightarrow> alpha s sid = Some x \<Longrightarrow> keeps_alive timeout (userID x) sid (lastSeen x) cs \<Longrightarrow>
   touched_ok sopen touch close count sid cs s
   \<and> invar (fold (after_op sopen touch close count) cs s)
   \<and> alpha (fold (after_op sopen touch close count) cs s) sid = Some (x\<lparr>lastSeen := last_touch sid (lastSeen x) cs\<rparr>)"
proof (induction cs arbitrary: s x)
  case (Cons c cs)
  let ?s = "after_op sopen touch close count c s"
  note inv = after_op_invar [OF Cons.prems(1), of c]
  have step: "touch_ok touch sid c s \<and> (\<exists>t. alpha ?s sid = Some (x\<lparr>lastSeen := t\<rparr>) \<and> keeps_alive timeout (userID x) sid t cs
      \<and> last_touch sid (lastSeen x) (c # cs) = last_touch sid t cs)"
  proof (cases c)
    case (DoTouch i now)
    show ?thesis
    proof (cases "i = sid")
      case True
      with Cons.prems(3) DoTouch have "within timeout now (lastSeen x)" by simp
      from touch_live [OF Cons.prems(1,2) this] DoTouch True Cons.prems(3) show ?thesis by (auto simp: touch_ok_def)
    next
      case False
      with Cons.prems DoTouch touch_other show ?thesis by (intro conjI exI [of _ "lastSeen x"]) (auto simp: touch_ok_def)
    qed
  qed (use Cons.prems open_keeps count_keeps close_alpha in \<open>auto simp: touch_ok_def intro!: exI [of _ "lastSeen x"]\<close>)
  then obtain t where t: "touch_ok touch sid c s" "alpha ?s sid = Some (x\<lparr>lastSeen := t\<rparr>)" "keeps_alive timeout (userID x) sid t cs"
    "last_touch sid (lastSeen x) (c # cs) = last_touch sid t cs" by blast
  from Cons.IH [OF inv t(2)] t show ?case by simp
qed simp

lemma touch_answer:
  "invar s \<Longrightarrow> alpha s sid = Some x \<Longrightarrow>
   fst (touch s sid now) = (if within timeout now (lastSeen x) then None else Some ErrInvalidSession)"
  using touch_live [of s sid x now] touch_expired [of s sid x now] by (cases "within timeout now (lastSeen x)") auto

lemma open_kept_alive:
  assumes "invar s" and "sopen s u now i = (Inr sid, s')" and "keeps_alive timeout u sid now cs"
  shows "touched_ok sopen touch close count sid cs s'
    \<and> fst (touch (fold (after_op sopen touch close count) cs s') sid t) =
        (if within timeout t (last_touch sid now cs) then None else Some ErrInvalidSession)"
proof -
  from open_ok [OF assms(1,2)] have "invar s'" "alpha s' sid = Some \<lparr>userID = u, lastSeen = now\<rparr>" by auto
  from kept_alive [OF this] assms(3) touch_answer show ?thesis by fastforce
qed

end

lemma reap_keeps:
  assumes "wf_gomap (sessions s)" and "map_of (sessions s) j = Some x" and "userID x = u \<longrightarrow> within (Timeout (st_cfg s)) now (lastSeen x)"
  shows "map_of (sessions (reapForUserLocked s u now)) j = Some x"
  using assms by (auto simp: reapForUserLocked_def expired_def within_def alist_simps)

interpretation memory_store: session_store
  Open Touch Close Count "\<lambda>s. map_of (sessions s)" "session_inv cfg" "Timeout cfg" for cfg
proof unfold_locales
  fix s u now i j s'
  assume inv: "session_inv cfg s" and op: "Open s u now i = (Inr j, s')"
  from Open_inv [OF inv op] op show
    "j = i \<and> session_inv cfg s' \<and> map_of (sessions s') i = Some \<lparr>userID = u, lastSeen = now\<rparr>"
    by (auto simp: Open_def Let_def alist_simps split: if_splits)
next
  fix s i x now
  assume inv: "session_inv cfg s" and x: "map_of (sessions s) i = Some x"
  obtain r s' where t: "Touch s i now = (r, s')" by (cases "Touch s i now")
  have cfg: "st_cfg s = cfg" using inv by (simp add: session_inv_def)
  note inv' = Touch_inv [OF inv t]
  {
    assume "within (Timeout cfg) now (lastSeen x)"
    with x t inv' cfg show "\<exists>s'. Touch s i now = (None, s') \<and> session_inv cfg s'
        \<and> map_of (sessions s') = (map_of (sessions s))(i \<mapsto> x\<lparr>lastSeen := now\<rparr>)"
      by (auto simp: Touch_def expired_def within_def alist_simps split: if_splits)
  next
    assume "\<not> within (Timeout cfg) now (lastSeen x)"
    with x t inv' cfg show "\<exists>s'. Touch s i now = (Some ErrInvalidSession, s') \<and> session_inv cfg s'
        \<and> map_of (sessions s') = (map_of (sessions s))(i := None)"
      by (auto simp: Touch_def expired_def within_def alist_simps split: if_splits)
  }
next
  fix s :: memoryStore and i now
  assume "map_of (sessions s) i = None"
  then show "Touch s i now = (Some ErrInvalidSession, s)" by (simp add: Touch_def)
next
  fix s i
  assume "session_inv cfg s"
  then show "session_inv cfg (Close s i) \<and> map_of (sessions (Close s i)) = (map_of (sessions s))(i := None)"
    by (simp add: Close_def delete_inv alist_simps)
next
  fix s u now i
  assume inv: "session_inv cfg s"
  show "session_inv cfg (snd (Open s u now i))" using Open_inv [OF inv] by (metis prod.collapse)
  show "session_inv cfg (snd (Count s u now))" using reap_inv [OF inv] by (simp add: Count_def Let_def)
next
  fix s u now i j x
  assume inv: "session_inv cfg s" and x: "map_of (sessions s) j = Some x" "userID x = u \<longrightarrow> within (Timeout cfg) now (lastSeen x)"
  have r: "map_of (sessions (reapForUserLocked s u now)) j = Some x"
    using inv x by (intro reap_keeps) (auto simp: session_inv_def)
  then show "map_of (sessions (snd (Count s u now))) j = Some x" by (simp add: Count_def Let_def)
  assume "i \<noteq> j"
  with r x show "map_of (sessions (snd (Open s u now i))) j = Some x" by (auto simp: Open_def Let_def alist_simps)
qed

section \<open>Counting\<close>

definition live_sessions :: "memoryStore \<Rightarrow> string \<Rightarrow> time \<Rightarrow> string set" where
  "live_sessions s u now = {i. \<exists>sess. map_of (sessions s) i = Some sess \<and> userID sess = u
     \<and> (Timeout (st_cfg s) \<le> 0 \<or> \<not> expired (st_cfg s) now sess)}"

lemma count_reap_live:
  assumes "wf_gomap (sessions s)"
  shows "countForUserLocked (reapForUserLocked s u now) u = int (card (live_sessions s u now))"
  unfolding countForUserLocked_def length_filter_gomap [OF reap_wf [OF assms]] live_sessions_def
  using assms by (auto simp: reapForUserLocked_def alist_simps split: option.splits
      intro!: arg_cong [where f = card])

section \<open>Properties\<close>

text \<open>C8: in every state the store can reach, by any interleaving of Open, Touch, Close and Count calls
  with any clock readings and any generated ids, no user holds more sessions than the configured cap.\<close>

theorem session_cap_never_exceeded:
  assumes "session_reachable cfg s" and "MaxConcurrentPerUser cfg > 0"
  shows "countForUserLocked s u \<le> MaxConcurrentPerUser cfg"
  using session_reachable_inv [OF assms(1)] assms(2) by (simp add: session_inv_def)

theorem session_cap_never_exceeded_witness:
  "session_reachable \<lparr>Timeout = 0, MaxConcurrentPerUser = 1\<rparr>
      (snd (Open (NewMemorySessionStore \<lparr>Timeout = 0, MaxConcurrentPerUser = 1\<rparr>) ''u'' 5 ''id1''))
   \<and> countForUserLocked
      (snd (Open (NewMemorySessionStore \<lparr>Timeout = 0, MaxConcurrentPerUser = 1\<rparr>) ''u'' 5 ''id1'')) ''u'' \<le> 1"
proof -
  let ?c = "\<lparr>Timeout = 0, MaxConcurrentPerUser = 1\<rparr>"
  let ?o = "Open (NewMemorySessionStore ?c) ''u'' 5 ''id1''"
  have "session_step (NewMemorySessionStore ?c) (snd ?o)" by (rule step_open [of _ _ _ _ "fst ?o"]) simp
  then have r: "session_reachable ?c (snd ?o)" by (rule reach_step [OF reach_init])
  show ?thesis using r session_cap_never_exceeded [OF r, of "''u''"] by simp
qed

text \<open>Open succeeds exactly when the user id is non-empty and the user's unexpired sessions are below
  the cap (expired ones never count against it); otherwise it fails with the documented error and leaves
  every unexpired session in place.\<close>

theorem Open_outcome:
  assumes "session_reachable cfg s"
  shows "fst (Open s u now i) =
      (if u = [] then Inl (ErrorString ''auth: empty userID'')
       else if MaxConcurrentPerUser cfg > 0 \<and> int (card (live_sessions s u now)) \<ge> MaxConcurrentPerUser cfg
       then Inl (AuthErr ErrSessionLimitExceeded) else Inr i)
    \<and> (\<forall>v. live_sessions s v now - {i} \<subseteq> live_sessions (snd (Open s u now i)) v now)"
proof -
  have wf: "wf_gomap (sessions s)" and cfg: "st_cfg s = cfg"
    using session_reachable_inv [OF assms] by (simp_all add: session_inv_def)
  have sub: "live_sessions s v now \<subseteq> live_sessions (reapForUserLocked s u now) v now" for v
    using wf by (auto simp: live_sessions_def reapForUserLocked_def alist_simps split: if_splits)
  have upd: "live_sessions s1 v now - {i} \<subseteq> live_sessions (s1\<lparr>sessions := AList.update i x (sessions s1)\<rparr>) v now"
    for s1 v x by (auto simp: live_sessions_def alist_simps)
  have "live_sessions s v now - {i} \<subseteq> live_sessions (snd (Open s u now i)) v now" for v
    using sub [of v] upd [of "reapForUserLocked s u now" v] by (auto simp: Open_def Let_def)
  then show ?thesis using cfg by (auto simp: Open_def Let_def count_reap_live [OF wf])
qed

theorem Open_outcome_witness:
  "fst (Open (NewMemorySessionStore \<lparr>Timeout = 60, MaxConcurrentPerUser = 2\<rparr>) ''u'' 5 ''id1'') = Inr ''id1''"
  using Open_outcome [OF reach_init, of "\<lparr>Timeout = 60, MaxConcurrentPerUser = 2\<rparr>" "''u''" 5 "''id1''"]
  by (simp add: live_sessions_def NewMemorySessionStore_def)

text \<open>C39: the timeout slides. After a successful Open, let any operations follow, of any users and sessions and
  in any order (Open, Touch, Close, Count), as long as this session is not closed, its id is not drawn
  again, and whenever the store looks at it (a touch of it, an Open or a Count of its user) its last touch
  is no longer ago than the timeout. Then every touch of it in between succeeds, however long that goes on,
  and afterwards one more touch succeeds exactly when it comes within the timeout of the last touch, and
  is refused as an invalid session otherwise.\<close>

theorem session_sliding_timeout:
  assumes "session_reachable cfg s" and "Open s u now i = (Inr sid, s')"
    and "keeps_alive (Timeout cfg) u sid now cs"
  shows "touched_ok Open Touch Close Count sid cs s'
    \<and> fst (Touch (fold (after_op Open Touch Close Count) cs s') sid t) =
        (if Timeout cfg \<le> 0 \<or> time_Sub t (last_touch sid now cs) \<le> Timeout cfg then None else Some ErrInvalidSession)"
  using memory_store.open_kept_alive [OF session_reachable_inv [OF assms(1)] assms(2,3), of t] by (simp add: within_def)

theorem session_sliding_timeout_witness:
  "let s' = snd (Open (NewMemorySessionStore \<lparr>Timeout = 60, MaxConcurrentPerUser = 3\<rparr>) ''u'' 0 ''a'');
       cs = [DoTouch ''a'' 50, DoOpen ''u'' 70 ''b'', DoCount ''u'' 100, DoTouch ''a'' 110, DoClose ''b'', DoOpen ''w'' 900 ''c'', DoTouch ''a'' 150];
       s2 = fold (after_op Open Touch Close Count) cs s' in
   touched_ok Open Touch Close Count ''a'' cs s' \<and> fst (Touch s2 ''a'' 210) = None \<and> fst (Touch s2 ''a'' 211) = Some ErrInvalidSession"
proof -
  let ?c = "\<lparr>Timeout = 60, MaxConcurrentPerUser = 3\<rparr>"
  let ?cs = "[DoTouch ''a'' 50, DoOpen ''u'' 70 ''b'', DoCount ''u'' 100, DoTouch ''a'' 110, DoClose ''b'', DoOpen ''w'' 900 ''c'', DoTouch ''a'' 150]"
  obtain s' where o: "Open (NewMemorySessionStore ?c) ''u'' 0 ''a'' = (Inr ''a'', s')"
    by (simp add: Open_def Let_def NewMemorySessionStore_def reapForUserLocked_def countForUserLocked_def)
  have k: "keeps_alive (Timeout ?c) ''u'' ''a'' 0 ?cs" by (simp add: within_def time_Sub_def)
  have l: "last_touch ''a'' 0 ?cs = 150" by simp
  from session_sliding_timeout [OF reach_init o k, of 210] session_sliding_timeout [OF reach_init o k, of 211] o
  show ?thesis unfolding Let_def l by (simp add: time_Sub_def)
qed

text \<open>A session that was closed, or whose inactivity exceeded the timeout, never becomes valid again
  by touching it: every later Touch answers ErrInvalidSession.\<close>

theorem session_end_is_final:
  assumes "session_reachable cfg s"
  shows "touch_none Touch (Close s sid) sid ts
    \<and> (\<forall>x. map_of (sessions s) sid = Some x \<and> 0 < Timeout cfg \<and> time_Sub now (lastSeen x) > Timeout cfg
          \<longrightarrow> touch_none Touch s sid (now # ts))"
  using memory_store.close_ends [OF session_reachable_inv [OF assms]]
    memory_store.expired_ends [OF session_reachable_inv [OF assms]] by (simp add: within_def not_le)

theorem session_end_is_final_witness:
  "touch_none Touch (Close (NewMemorySessionStore \<lparr>Timeout = 60, MaxConcurrentPerUser = 0\<rparr>) ''a'') ''a'' [1, 2]"
  using session_end_is_final [OF reach_init, of "\<lparr>Timeout = 60, MaxConcurrentPerUser = 0\<rparr>" "''a''" "[1, 2]"]
  by blast

end
