(* ===== verification/Spec2Isabelle.thy ===== *)
theory Spec2Isabelle
  imports Server DPoP_Client Jwkstest Downstream Tool_Gate MCP_Challenge Session Audit_Log Policy
begin

text \<open>
  A verification development of mcp-auth-go, a Go library that guards Model Context Protocol servers with
  OAuth 2 bearer tokens: token validation (JWT or introspection), DPoP proof of possession, sessions,
  per-tool authorization, audit, token exchange on behalf of the caller, and the two transports (net/http
  and the MCP SDK) that put these together.

  \<^bold>\<open>Parts and how they interact.\<close> A request enters a transport (src/transport/http/middleware.go or
  src/transport/mcpauth/). The transport takes the bearer token from it and asks a TokenValidator: a
  Validator or MultiValidator over jwx (src/validator.go, src/multivalidator.go) or an introspection
  Validator over HTTP with a cache (src/introspection/). The claims it returns (src/claims.go) feed the
  DPoP verifier (src/dpop/), which consults a nonce source and a replay cache (in memory or Redis), then
  the rate limiter, and travel on the context (src/context.go) to the handler. Behind the MCP transport
  the tool gate (toolgate.go) evaluates authorizers (src/authorizer.go) for each tool and records audit
  events (src/audit/). A handler may exchange the caller's token (src/exchange/).

  \<^bold>\<open>Theories.\<close>
  \<^item> Prelude: named collections, association-list maps (\<open>gomap\<close>), list and option lemmas.
  \<^item> Go_Time, Go_Strings, Go_JSON, Go_JSON_Text, Go_URL, Go_Net, Base64, Go_Crypto, Go_HTTP, Go_Client: what the
    code uses of Go and its library. Times are nanoseconds since year 1 as \<open>int\<close>, with the 64-bit wrap-around
    of time.Time and Duration written out; strings are byte strings; a JSON document is a tree that is decoded
    into structs by the rules of encoding/json (case-folded member names, null leaves a field alone), and
    Go_JSON_Text is the text level, scanner and encoder; Go_URL is url.Parse and URL.String, Go_Net
    net.ParseIP; Go_Crypto defines SHA-256 and HMAC-SHA256; a response writer freezes its headers at the first
    final status; an HTTP client is a function on a network state.
  \<^item> Errors (errors.go), Claims (claims.go, context.go), Policy (verifier.go, authorizer.go), Validator
    (validator.go, multivalidator.go), Session (session.go, session_id.go), Audit_Log (audit/).
  \<^item> Nonce (dpop/nonce.go), Replay (dpop/replay.go, dpop/redisreplay/), Dpop (dpop/proof.go, verifier.go);
    Go_Std puts the definitions of the standard library into Dpop's parameters.
  \<^item> Token_Cache: the cache contract and the algorithm shared by introspection/cache.go and
    exchange/cache.go; Introspection (introspection/); Exchange (exchange/ but idjag.go); Downstream
    (exchange/idjag.go).
  \<^item> HTTP (transport/http/); MCP_Verifier (mcpauth/verifier.go, context.go), Tool_Gate (toolgate.go),
    MCP_Challenge (challenge.go, middleware.go).
  \<^item> Jwkstest (internal/jwkstest/): the issuer of the repository's tests.
  \<^item> DPoP_Client: the proofs of exchange/dpop.go as the verifier of dpop/ reads them. Server: a server
    assembled from the parts, as a step relation, with the invariants of its runs.

  \<^bold>\<open>State and operations.\<close> Each struct is a record, each method a definition with the method's name
  (prefixed where two packages share one: \<open>intro_\<close>, \<open>x_\<close>, \<open>redis_\<close>, \<open>mcp_\<close>, \<open>cw_\<close>, \<open>gate_\<close>). State is passed
  explicitly: a cache or store operation returns the new state. Every reading of a clock and every random
  draw is an argument; errors are values (\<open>goerr\<close>, with errors.Is and errors.As as functions on them);
  a construction-time panic is a left summand. A mutex-guarded object used concurrently is a sequence of
  its operations, so the properties quantify over sequences of calls. A pointer that is shared (the
  challenge state on an MCP request's context) is an address in a store of cells.

  \<^bold>\<open>Interfaces.\<close> Locales state what one part relies on in another, and are interpreted on the model:
  \<open>access_policy\<close> (an authorizer decides its meaning), \<open>token_validator\<close> (what an acceptance guarantees),
  \<open>nonce_source\<close>, \<open>replay_cache\<close>, \<open>token_cache\<close> with \<open>storing_cache\<close>, \<open>claims_cache\<close> and \<open>exchange_cache\<close>,
  \<open>audit_sink\<close> (what a sink may reveal), and \<open>session_store\<close>. The transports' lemmas are proved
  against \<open>token_validator\<close> and hold for the JWT and the introspection validators alike.

  \<^bold>\<open>What is shown.\<close>
  \<^item> Tokens: what Validate, MultiValidate and introspection accept, exactly or as a guarantee, also from a
    cache and across any sequence of calls, traced to a request and a response on the wire; every
    rejection is classified (503 exactly when the endpoint gave no usable answer); expiry is respected;
    requests with credentials only go to the configured URL, which is https or a loopback host.
  \<^item> DPoP: the decision equals the RFC 9449 checks; no symmetric algorithm; constant rejections; nonces
    round-trip inside their window and cannot be accepted without the server's MAC; a proof is single-use
    (at the level of the cache, the verifier and a whole server); the URL is compared without query and
    fragment; the exchange client's proofs are read back exactly and useless at a resource server.
  \<^item> Authorization: composed policies equal their boolean meaning; the gate refines an abstract
    specification (\<open>may_use\<close>), and listing agrees with calling.
  \<^item> Transports: only vouched requests reach the handler, with the right identity on the context; answers
    are typed, show only the public error and cannot be used for header injection; the MCP response
    wrapper is transparent except for the challenge and nonce headers, which the first status decides
    (an informational one uses them up).
  \<^item> Exchange: a cached token is only returned for the cache key it was stored under, and callers are
    isolated whenever audiences, token types and scopes are free of the key's separator (\<open>key_safe\<close>; the
    subject is unrestricted); failures show exactly the server's error code; one audit event per exchange;
    at most two requests per authorization server; the retry carries the nonce.
  \<^item> Sessions: the cap is an invariant; timeouts slide under any interleaving of operations; an ended
    session stays ended.
  \<^item> This theory: the properties that span parts, on runs of a server, the nonce handshake, the path from
    a token to a tool, and acting on behalf of a caller.

  \<^bold>\<open>Bounds.\<close> The retry loop of exchange's do counts the attempts left, starting from two, as in the code;
  the JSON scanner takes fuel above twice the length of its input, which is enough (lemma
  \<open>json_Parse_fuel\<close>); the remaining loops are structural or carry a termination proof. The sweep
  threshold of the replay cache (1024) and the body limit of introspection (1 MiB) are the code's.
  Statements about clock arithmetic assume \<open>sane_time\<close> (a reading within some 2800 years of 1970), which
  excludes only wrap-around of the 64-bit seconds.

  \<^bold>\<open>Parameters.\<close> Code outside the repository is an argument: jwx (JWKS cache, JWT, JWS and JWK functions),
  the MCP SDK, go-redis, the OpenTelemetry API, the rate limiter. So are the random source, the HTTP
  transport and, in Go_URL, the reading of hosts with brackets or several colons, which differs between Go
  releases. SHA-256, HMAC-SHA256, encoding/json and net/url are arguments where any such functions would do
  (in the HTTP client the text level of encoding/json stays one); the properties that depend on them are
  stated for the definitions (\<open>hmac_sha256\<close>, \<open>go_std\<close>). What a property relies on in a parameter is a named
  hypothesis, each with a witness: \<open>jwx_checks_claims\<close>, \<open>jws_signs\<close>, \<open>jwx_adds_key\<close>, \<open>jwx_key_attributes\<close> and
  \<open>jwx_verifies\<close> (the key of a set is found by its id and used under its algorithm), and \<open>sdk_answers_401\<close>
  (a 401 for verifier errors that unwrap to the SDK's ErrInvalidToken, nothing for others).

  \<^bold>\<open>Not modelled.\<close> Documentation files; the messages of JSON syntax errors; a nil *Claims passed to an
  authorizer; write errors of a connection; aliasing of a *Token that a caller mutates after caching it;
  Unwrap of the response wrapper; the logger's formatting; what the HTTP client does inside one call of Do
  (redirects, and the GetBody that introspection sets for them).
\<close>

section \<open>Runs of a server\<close>

text \<open>C5: end to end over HTTP with introspection: whatever requests a server receives, starting from empty
  caches, the application only ever serves requests whose context carries claims and a token such that
  on the wire the introspection endpoint was asked about the token (up to its digest) and said those claims
  in a 200 response, under the configured issuer and audience; and where the token is bound, or binding is
  required, the request carried exactly one DPoP proof that passed every check at the time.\<close>

theorem server_serves_only_vouched:
  assumes "library_cache v" and "iv_httpClient v = taping hc"
    and "server jo std cfg (intro_Validate sha v) app \<lparr>is_cache = intro_NewMemoryCache leeway, is_auth = a, is_net = (n, [])\<rparr> t hw"
    and "e \<in> set (served_log hw)"
  shows "\<exists>b c b'. ClaimsFrom (rq_Context (sv_request e)) = Some c \<and> RawTokenFrom (rq_Context (sv_request e)) = Some b \<and> b \<noteq> []
    \<and> RawURL_EncodeToString (sha b') = RawURL_EncodeToString (sha b)
    \<and> (\<exists>q rp ir j. (q, Inr rp) \<in> set (tape (hw_validator hw)) \<and> asks v b' q \<and> answers v rp ir j \<and> ir_Active ir \<and> c = claimsFrom ir j)
    \<and> Issuer c = iv_issuer v \<and> iv_audience v \<in> set (Audience c)
    \<and> (\<forall>dv. mc_DPoP cfg = Some dv \<longrightarrow> dv_mode dv = 1 \<or> Confirmation c \<noteq> [] \<longrightarrow>
         (\<exists>p key alg pc. served_proofs e = [p] \<and> nonce_ok dv (sv_enforce e) pc
            \<and> holder_proof jo std dv p (dpop_input_of (sv_request e) (mc_BaseURL cfg) b c) (sv_enforce e) key alg pc))"
proof -
  have "entry_vouched jo std cfg (taped sha v (tape (hw_validator hw))) e"
    using server_introspection_inv [OF assms(3,1,2) tape_inv_new] assms(4) by blast
  moreover have "\<exists>q rp ir j. (q, Inr rp) \<in> set log \<and> asks v b q \<and> answers v rp ir j \<and> ir_Active ir \<and> c = claimsFrom ir j"
    if "on_tape v log b c" for log b c
    using that unfolding on_tape_def check_response_None by blast
  ultimately show ?thesis unfolding entry_vouched_def taped_def intro_cacheKey_def using on_tape_binds by metis
qed

definition demo_server_config :: "memory_replay dpop_verifier option \<Rightarrow> ('v, memory_replay, unit) middleware_config" where
  "demo_server_config dpop = \<lparr>mc_Validator = None, mc_RateLimiter = None, mc_HasLogger = True, mc_ResourceMetadataURL = [],
     mc_Scopes = [], mc_DPoP = dpop, mc_BaseURL = []\<rparr>"

definition demo_server_world :: "'v \<Rightarrow> ('v, memory_replay, unit, served list \<times> unit) http_world" where
  "demo_server_world v = \<lparr>hw_validator = v, hw_replay = NewMemoryReplayCache, hw_limiter = (), hw_app = ([], ()), hw_log = []\<rparr>"

definition demo_app :: "http_request \<Rightarrow> response \<Rightarrow> unit \<Rightarrow> response \<times> unit" where
  "demo_app r w a = (w, a)"

lemma demo_server_start: "server jo std cfg val app v t (demo_server_world v)"
  by (rule server.start) (simp_all add: demo_server_world_def)

theorem server_serves_only_vouched_witness:
  "\<exists>hw e c. server demo_jose demo_std (demo_server_config None) (intro_Validate (\<lambda>x. x) (demo_intro (taping (demo_client 200 demo_answer))))
       demo_app (demo_intro_state ((), [])) 0 hw
     \<and> served_log hw = [e] \<and> ClaimsFrom (rq_Context (sv_request e)) = Some c \<and> Issuer c = ''iss'' \<and> ''mcp'' \<in> set (Audience c)"
proof -
  let ?v = "demo_intro (taping (demo_client 200 demo_answer))" and ?r = "demo_request ''Bearer iss''"
  let ?val = "intro_Validate (\<lambda>x. x) ?v" and ?hw = "demo_server_world (demo_intro_state ((), []))"
  obtain s' where acc: "?val 0 0 (demo_intro_state ((), [])) (rq_Context ?r) ''iss'' = (Inr (claimsFrom demo_verdict demo_answer), s')"
    using demo_intro_taped [of "''iss''"] by blast
  have adm: "admitted demo_jose demo_std (demo_server_config None) (?val 0 0) (demo_env 0) ?r ?hw ''iss''
      (claimsFrom demo_verdict demo_answer) (?hw\<lparr>hw_validator := s'\<rparr>)"
    using acc demo_bearer by (simp add: admitted_def dpop_step_def limit_step_def demo_server_config_def demo_server_world_def)
  have env: "re_enforce (demo_env 0) = 0" "re_cache (demo_env 0) = 0" by (simp_all add: demo_env_def)
  obtain hw' e where run: "server demo_jose demo_std (demo_server_config None) ?val demo_app (demo_intro_state ((), [])) 0 hw'"
    and log: "served_log hw' = [e]"
    by (rule server_admit [where val = ?val and vc = 0 and vt = 0, OF demo_server_start [where t = 0] _ _ adm])
      (auto simp: env demo_server_world_def)
  have st: "demo_intro_state ((), []) = \<lparr>is_cache = intro_NewMemoryCache 0, is_auth = (), is_net = ((), [])\<rparr>" by (simp add: demo_intro_state_def)
  have "library_cache ?v" "iv_httpClient ?v = taping (demo_client 200 demo_answer)" by (simp_all add: library_cache_def demo_intro_def)
  from server_serves_only_vouched [OF this run [unfolded st], of e] log obtain c
    where "ClaimsFrom (rq_Context (sv_request e)) = Some c" "Issuer c = iv_issuer ?v" "iv_audience ?v \<in> set (Audience c)"
    by auto
  with run log show ?thesis by (auto simp: demo_intro_def)
qed

text \<open>C6: no DPoP proof is served twice: in every reachable state of a server with the in-memory replay
  cache, if two served requests with bound tokens carried the same proof, then the later one was checked
  for freshness no later, and looked up in the cache no earlier, than the one instant at which the
  proof's window ends.\<close>

theorem server_serves_each_proof_once:
  assumes "server jo std cfg val app v0 t hw"
    and "mc_DPoP cfg = Some (NewVerifier SeenBefore dcfg)" "dc_ReplayCache dcfg = None" "in_int64 (dc_IATLeeway dcfg)"
    and "i < j" "j < length (served_log hw)" "e = served_log hw ! i" "e' = served_log hw ! j"
    and "served_bound e" "served_bound e'" "served_proofs e' = served_proofs e" "sane_time (sv_enforce e')"
  shows "\<exists>p pc. served_proofs e = [p] \<and> proof_claims jo std p = Some pc
    \<and> sv_enforce e' \<le> time_Unix (pc_IAT pc) + dv_iatLeeway (NewVerifier SeenBefore dcfg)
    \<and> time_Unix (pc_IAT pc) + dv_iatLeeway (NewVerifier SeenBefore dcfg) \<le> sv_cache e'"
proof -
  let ?dv = "NewVerifier SeenBefore dcfg"
  have "dv_replay ?dv = SeenBefore" using assms(3) by (simp add: NewVerifier_def)
  from server_replay_inv [OF assms(1,2) this] have "sorted_wrt (apart jo std ?dv) (served_log hw)" by simp
  then have "apart jo std ?dv e e'" using assms(5-8) by (simp add: sorted_wrt_iff_nth_less)
  then obtain p pc where p: "served_proofs e = [p]" "proof_claims jo std p = Some pc" and le: "proof_expiry ?dv pc \<le> sv_cache e'"
    and w: "in_window ?dv (sv_enforce e') (time_Unix (pc_IAT pc))"
    using assms(9-11) unfolding apart_def by blast
  from window_expiry [OF assms(12) _ _ w] leeway_range [OF assms(4), of SeenBefore] le p show ?thesis
    by (auto simp: proof_expiry_def)
qed

definition demo_holder_claims :: claims where
  "demo_holder_claims = (claimsFromToken (demo_token ''iss''))\<lparr>Confirmation := RawURL_EncodeToString ''key''\<rparr>"

definition demo_dpop_request :: "string \<Rightarrow> http_request" where
  "demo_dpop_request p = \<lparr>rq_Method = ''POST'', rq_Host = ''a'', rq_Path = ''/m'', rq_TLS = True,
     rq_Header = [(''Authorization'', [''Bearer token'']), (''Dpop'', [p])], rq_Context = []\<rparr>"

lemma demo_dpop_bearer: "extractBearer (demo_dpop_request p) = Inr ''token''"
  by (simp add: extractBearer_def demo_dpop_request_def Header_Get_def Header_Values_def CanonicalHeaderKey_def
      ascii_upper_def ascii_lower_def ascii_EqualFold_def strings_TrimSpace_def strip.simps space_width_def
      space_width_end_def space_runes_def)

lemma demo_dpop_header: "Header_Values (rq_Header (demo_dpop_request p)) ''DPoP'' = [p]"
proof -
  have "CanonicalHeaderKey ''DPoP'' = ''Dpop''" by code_simp
  then show ?thesis by (simp add: demo_dpop_request_def Header_Values_def)
qed

lemma demo_dpop_input: "dpop_input_of (demo_dpop_request p) [] ''token'' demo_holder_claims = demo_input p"
  unfolding dpop_input_of_def demo_dpop_header
  by (simp add: demo_input_def demo_dpop_request_def requestURL_def demo_holder_claims_def)

abbreviation demo_dpop_config_of :: "nonce_src option \<Rightarrow> (unit, memory_replay, unit) middleware_config" where
  "demo_dpop_config_of ns \<equiv> demo_server_config (Some (NewVerifier SeenBefore (demo_dpop_config ns)))"

abbreviation demo_validate :: "unit validate_fn" where
  "demo_validate \<equiv> \<lambda>s ctx b. (Inr demo_holder_claims, s)"

lemma demo_dpop_admitted:
  assumes "Enforce demo_jose demo_std (NewVerifier SeenBefore (demo_dpop_config ns)) (demo_input p) (re_enforce env) (re_cache env) (hw_replay hw)
    = (None, st)"
  shows "admitted demo_jose demo_std (demo_dpop_config_of ns) demo_validate env (demo_dpop_request p) hw ''token'' demo_holder_claims (hw\<lparr>hw_replay := st\<rparr>)"
  using assms demo_dpop_bearer demo_dpop_input
  by (simp add: admitted_def dpop_step_def limit_step_def demo_server_config_def)

theorem server_serves_each_proof_once_witness:
  "\<exists>hw e e'. server demo_jose demo_std (demo_dpop_config_of None) (\<lambda>vc vt. demo_validate) demo_app () (demo_iat + 60 * second) hw
     \<and> served_log hw = [e, e'] \<and> served_proofs e' = served_proofs e
     \<and> sv_enforce e' \<le> demo_iat + 60 * second \<and> demo_iat + 60 * second \<le> sv_cache e'"
proof -
  let ?cfg = "demo_dpop_config_of None" and ?val = "\<lambda>vc vt :: time. demo_validate" and ?t = "demo_iat + 60 * second"
  let ?st = "\<lparr>seen = [(''j|https://a/m'', demo_iat + 60 * second)]\<rparr>" and ?r = "demo_dpop_request []"
  have env: "re_enforce (demo_env t) = t" "re_cache (demo_env t) = t" for t by (simp_all add: demo_env_def)
  let ?e = "\<lambda>t. \<lparr>sv_request = downstream ?r ''token'' demo_holder_claims, sv_enforce = t, sv_cache = t\<rparr>"
  have e1: "Enforce demo_jose demo_std (NewVerifier SeenBefore (demo_dpop_config None)) (demo_input []) (re_enforce (demo_env demo_iat))
      (re_cache (demo_env demo_iat)) (hw_replay (demo_server_world ())) = (None, ?st)"
    using demo_accepted [of 0 "[]"] by (simp add: env demo_server_world_def)
  obtain hw1 where s1: "server demo_jose demo_std ?cfg ?val demo_app () demo_iat hw1" and l1: "served_log hw1 = [?e demo_iat]"
    and r1: "hw_replay hw1 = ?st"
    by (rule server_admit [where val = ?val, OF demo_server_start [where t = demo_iat] _ _ demo_dpop_admitted [OF e1]])
      (auto simp: env demo_server_world_def)
  have e2: "Enforce demo_jose demo_std (NewVerifier SeenBefore (demo_dpop_config None)) (demo_input []) (re_enforce (demo_env ?t))
      (re_cache (demo_env ?t)) (hw_replay hw1) = (None, ?st)"
    using demo_boundary by (simp add: env r1)
  obtain hw2 where s2: "server demo_jose demo_std ?cfg ?val demo_app () ?t hw2" and l2: "served_log hw2 = [?e demo_iat, ?e ?t]"
    by (rule server_admit [where val = ?val, OF s1 _ _ demo_dpop_admitted [OF e2]]) (auto simp: env l1)
  have b: "served_bound (?e t)" for t using demo_jkt by (simp add: served_bound_downstream demo_holder_claims_def)
  have p: "served_proofs (?e t) = [[]]" for t by (simp add: served_proofs_downstream demo_dpop_header)
  have c: "proof_claims demo_jose demo_std [] = Some (demo_claims [])"
    using holder_proof_claims [OF demo_holder [where d = 0 and n = "[]"]] by simp
  have "\<exists>p pc. served_proofs (?e demo_iat) = [p] \<and> proof_claims demo_jose demo_std p = Some pc
    \<and> sv_enforce (?e ?t) \<le> time_Unix (pc_IAT pc) + dv_iatLeeway (NewVerifier SeenBefore (demo_dpop_config None))
    \<and> time_Unix (pc_IAT pc) + dv_iatLeeway (NewVerifier SeenBefore (demo_dpop_config None)) \<le> sv_cache (?e ?t)"
    by (rule server_serves_each_proof_once [OF s2, where i = 0 and j = 1 and dcfg = "demo_dpop_config None"])
      (simp_all add: demo_server_config_def demo_dpop_config_def in_int64_def l2 b p sane_time_def)
  then have "sv_enforce (?e ?t) \<le> ?t" "?t \<le> sv_cache (?e ?t)" using p c demo_iat_eq demo_leeway by auto
  with s2 l2 p show ?thesis by (intro exI [of _ hw2] exI [of _ "?e demo_iat"] exI [of _ "?e ?t"]) simp
qed

section \<open>The nonce handshake\<close>

text \<open>C10: the nonce handshake completes. A sound proof without a nonce is answered with a 401 that carries a
  nonce and leaves the replay cache untouched; a retry whose proof carries that nonce, inside its
  lifetime, is admitted when the replay cache and the rate limiter agree.\<close>

theorem nonce_challenge_then_admitted:
  fixes hw :: "('v, 'd, 'l, 'a) http_world" and hw2 :: "('v, 'd, 'l, 'b) http_world"
  assumes dv: "mc_DPoP cfg = Some dv" "dv_nonce dv = Some (signed_source hmac_sha256 s)"
    and env: "re_challenge_rnd env = Some rnd" "length rnd = 16" "0 \<le> time_toUnix (re_challenge env)"
    and first: "extractBearer r = Inr b" "validate (hw_validator hw) (rq_Context r) b = (Inr c, v1)" "Confirmation c \<noteq> []"
      "Header_Values (rq_Header r) ''DPoP'' = [p]" "pc_Nonce pc = []" "rs_sent w = None"
      "holder_proof jo std dv p (dpop_input_of r (mc_BaseURL cfg) b c) (re_enforce env) key alg pc"
    and retry: "extractBearer r' = Inr b" "validate (hw_validator hw2) (rq_Context r') b = (Inr c, v2)"
      "Header_Values (rq_Header r') ''DPoP'' = [p']" "fst (fst (limit_step cfg env' c (hw_limiter hw2)))"
      "holder_proof jo std dv p' (dpop_input_of r' (mc_BaseURL cfg) b c) (re_enforce env') key alg pc'"
      "\<not> fst (record_proof std dv pc' (re_cache env') (hw_replay hw2))"
      "nonce_window s (re_challenge env) (re_enforce env')"
  shows "\<exists>h. (\<forall>next_handler. rs_sent (fst (serve jo std cfg validate env next_handler r w hw)) = Some (401, h)
        \<and> hw_replay (snd (serve jo std cfg validate env next_handler r w hw)) = hw_replay hw)
    \<and> Header_Get h ''DPoP-Nonce'' = IssueNonce dv (re_challenge env) (re_challenge_rnd env) \<and> Header_Get h ''DPoP-Nonce'' \<noteq> []
    \<and> (pc_Nonce pc' = Header_Get h ''DPoP-Nonce'' \<longrightarrow>
        (\<exists>hw3. \<forall>next_handler. serve jo std cfg validate env' next_handler r' w' hw2 =
           next_handler (downstream r' b c) (rotate_nonce (mc_DPoP cfg) env' w') hw3))"
proof -
  let ?n = "Issue hmac_sha256 s (re_challenge env) (Some rnd)" and ?derr = "AuthErr (With ErrUseDPoPNonce (ErrorString ''dpop proof missing or stale nonce''))"
  have ok: "hmac_size hmac_sha256 \<and> nonce_rnd_ok (re_challenge env) (Some rnd)"
    using env hmac_sha256_size by (simp add: nonce_rnd_ok_def)
  have valid: "nonce_Validate hmac_sha256 s ?n (re_enforce env')" and ne: "?n \<noteq> []"
    using signed_nonce.issued_valid [OF ok retry(7)] signed_nonce.issued_nonempty [OF ok retry(7)] .
  have step: "dpop_step jo std cfg env r b c (hw_replay hw) = (Some ?derr, hw_replay hw)"
    using checkProof_holder [OF first(7), of "re_cache env" "hw_replay hw"] dv first
    by (simp add: dpop_step_def Enforce_def dpop_input_of_def holder_outcome_def nonce_ok_def)
  have issue: "IssueNonce dv (re_challenge env) (re_challenge_rnd env) = ?n" using dv env by (simp add: IssueNonce_def signed_source_def)
  let ?w = "set_header ''DPoP-Nonce'' ?n w"
  have run: "serve jo std cfg validate env next_handler r w hw = writeAuthError cfg ?derr ?w (hw\<lparr>hw_validator := v1, hw_replay := hw_replay hw\<rparr>)" for next_handler
    using first step dv issue ne by (simp add: serve_def challenge_nonce_def)
  let ?h = "Header_Set (Header_Set (Header_Set (rs_header ?w) ''Content-Type'' ''application/json'')
      ''WWW-Authenticate'' (buildWWWAuthenticate (With ErrUseDPoPNonce (ErrorString ''dpop proof missing or stale nonce''))
        (mc_ResourceMetadataURL cfg) (mc_Scopes cfg))) ''Cache-Control'' ''no-store''"
  have sent: "rs_sent (fst (writeAuthError cfg ?derr ?w hw')) = Some (401, ?h)" for hw' :: "('v, 'd, 'l, 'a) http_world"
    using writeAuthError_sent [of ?w ?derr "With ErrUseDPoPNonce (ErrorString ''dpop proof missing or stale nonce'')" cfg hw'] first(6)
    by (simp add: ErrUseDPoPNonce_def informational_def)
  have keys: "CanonicalHeaderKey ''DPoP-Nonce'' \<noteq> CanonicalHeaderKey ''Cache-Control''"
    "CanonicalHeaderKey ''DPoP-Nonce'' \<noteq> CanonicalHeaderKey ''WWW-Authenticate''"
    "CanonicalHeaderKey ''DPoP-Nonce'' \<noteq> CanonicalHeaderKey ''Content-Type''" by code_simp+
  then have nonce: "Header_Get ?h ''DPoP-Nonce'' = ?n" by (simp add: set_header_def)
  have "\<exists>hw3. \<forall>next_handler. serve jo std cfg validate env' next_handler r' w' hw2 =
      next_handler (downstream r' b c) (rotate_nonce (mc_DPoP cfg) env' w') hw3" if n: "pc_Nonce pc' = ?n"
  proof -
    let ?st = "snd (record_proof std dv pc' (re_cache env') (hw_replay hw2))"
    have "nonce_ok dv (re_enforce env') pc'" using n ne valid dv by (simp add: nonce_ok_def signed_source_def)
    then have "dpop_step jo std cfg env' r' b c (hw_replay hw2) = (None, ?st)"
      using checkProof_holder [OF retry(5), of "re_cache env'" "hw_replay hw2"] dv retry first(3)
      by (simp add: dpop_step_def Enforce_def dpop_input_of_def holder_outcome_def split: prod.splits)
    moreover obtain d l where "limit_step cfg env' c (hw_limiter hw2) = ((True, d), l)"
      using retry(4) by (metis prod.collapse)
    ultimately have "admitted jo std cfg validate env' r' hw2 b c (hw2\<lparr>hw_validator := v2, hw_replay := ?st, hw_limiter := l\<rparr>)"
      using retry(1,2) by (simp add: admitted_def)
    from serve_admitted [OF this] show ?thesis by blast
  qed
  moreover have "hw_replay (snd (writeAuthError cfg ?derr ?w hw')) = hw_replay hw'" for hw' :: "('v, 'd, 'l, 'a) http_world"
    by (simp add: writeAuthError_def)
  moreover obtain h where "\<And>hw' :: ('v, 'd, 'l, 'a) http_world. rs_sent (fst (writeAuthError cfg ?derr ?w hw')) = Some (401, h)"
    and "Header_Get h ''DPoP-Nonce'' = ?n"
    using sent nonce by blast
  ultimately show ?thesis unfolding run issue using ne by (intro exI [of _ h]) simp
qed

definition demo_signed :: signed_nonce where
  "demo_signed = \<lparr>sn_secret = replicate 32 CHR ''k'', sn_lifetime = 5 * minute\<rparr>"

abbreviation demo_nonce_env :: request_env where
  "demo_nonce_env \<equiv> (demo_env demo_iat)\<lparr>re_challenge_rnd := Some (replicate 16 CHR ''r'')\<rparr>"

lemma demo_nonce_issue:
  "IssueNonce (NewVerifier m (demo_dpop_config (Some (signed_source hmac_sha256 demo_signed)))) demo_iat (Some (replicate 16 CHR ''r''))
     = Issue hmac_sha256 demo_signed demo_iat (Some (replicate 16 CHR ''r''))"
  by (simp add: IssueNonce_def NewVerifier_def demo_dpop_config_def signed_source_def)

theorem nonce_challenge_then_admitted_witness:
  "let cfg = demo_dpop_config_of (Some (signed_source hmac_sha256 demo_signed));
       n = Issue hmac_sha256 demo_signed demo_iat (Some (replicate 16 CHR ''r''))
   in (\<exists>h. rs_sent (fst (serve demo_jose demo_std cfg demo_validate demo_nonce_env (recording demo_app demo_nonce_env)
          (demo_dpop_request []) new_response (demo_server_world ()))) = Some (401, h) \<and> Header_Get h ''DPoP-Nonce'' = n)
    \<and> (\<exists>hw3. serve demo_jose demo_std cfg demo_validate demo_nonce_env (recording demo_app demo_nonce_env)
          (demo_dpop_request n) new_response (demo_server_world ()) =
        recording demo_app demo_nonce_env (downstream (demo_dpop_request n) ''token'' demo_holder_claims)
          (rotate_nonce (mc_DPoP cfg) demo_nonce_env new_response) hw3)"
proof -
  let ?ns = "Some (signed_source hmac_sha256 demo_signed)" and ?n = "Issue hmac_sha256 demo_signed demo_iat (Some (replicate 16 CHR ''r''))"
  let ?cfg = "demo_dpop_config_of (Some (signed_source hmac_sha256 demo_signed)) :: (unit, memory_replay, unit) middleware_config"
  let ?dv = "NewVerifier SeenBefore (demo_dpop_config ?ns)" and ?env = demo_nonce_env
  have u: "time_toUnix demo_iat = 1700000000" by (simp add: time_toUnix_def wrap64_def)
  have env: "re_enforce ?env = demo_iat" "re_challenge ?env = demo_iat" "re_challenge_rnd ?env = Some (replicate 16 CHR ''r'')"
    by (simp_all add: demo_env_def)
  have cfg: "mc_DPoP ?cfg = Some ?dv" "mc_BaseURL ?cfg = []" "mc_RateLimiter ?cfg = None" by (simp_all add: demo_server_config_def)
  have holder: "holder_proof demo_jose demo_std ?dv p (dpop_input_of (demo_dpop_request p) (mc_BaseURL ?cfg) ''token'' demo_holder_claims)
      (re_enforce ?env) ''key'' ''ES256'' (demo_claims p)" for p
    using demo_holder [where d = 0 and n = p and m = SeenBefore and ns = ?ns] unfolding cfg demo_dpop_input env by simp
  have win: "nonce_window demo_signed (re_challenge ?env) (re_enforce ?env)"
    unfolding env nonce_window_def issue_second_def u by (simp add: time_Unix_eq time_Sub_def time_Add_def demo_signed_def)
  have rec: "\<not> fst (record_proof demo_std ?dv (demo_claims ?n) (re_cache ?env) (hw_replay (demo_server_world ())))"
    using demo_record [of ?ns ?n] by (simp add: demo_server_world_def)
  have lim: "fst (fst (limit_step ?cfg e c l))" for e c l by (simp add: limit_step_def demo_server_config_def)
  have bound: "Confirmation demo_holder_claims \<noteq> []" using demo_jkt by (simp add: demo_holder_claims_def)
  have fresh: "pc_Nonce (demo_claims p) = p" for p by (simp add: demo_claims_def)
  have "\<exists>h. (\<forall>nh. rs_sent (fst (serve demo_jose demo_std ?cfg demo_validate ?env nh (demo_dpop_request []) new_response (demo_server_world ())))
        = Some (401, h) \<and> hw_replay (snd (serve demo_jose demo_std ?cfg demo_validate ?env nh (demo_dpop_request []) new_response
            (demo_server_world ()))) = hw_replay (demo_server_world ()))
    \<and> Header_Get h ''DPoP-Nonce'' = IssueNonce ?dv (re_challenge ?env) (re_challenge_rnd ?env) \<and> Header_Get h ''DPoP-Nonce'' \<noteq> []
    \<and> (pc_Nonce (demo_claims ?n) = Header_Get h ''DPoP-Nonce'' \<longrightarrow>
        (\<exists>hw3. \<forall>nh. serve demo_jose demo_std ?cfg demo_validate ?env nh (demo_dpop_request ?n) new_response (demo_server_world ()) =
           nh (downstream (demo_dpop_request ?n) ''token'' demo_holder_claims) (rotate_nonce (mc_DPoP ?cfg) ?env new_response) hw3))"
    by (rule nonce_challenge_then_admitted [OF cfg(1) _ env(3) _ _ demo_dpop_bearer _ bound demo_dpop_header fresh _ holder
          demo_dpop_bearer _ demo_dpop_header lim holder rec win])
      (simp_all only: env u, simp_all add: NewVerifier_def demo_dpop_config_def new_response_def)
  then obtain h where h: "rs_sent (fst (serve demo_jose demo_std ?cfg demo_validate ?env (recording demo_app ?env) (demo_dpop_request [])
        new_response (demo_server_world ()))) = Some (401, h)"
    and n: "Header_Get h ''DPoP-Nonce'' = ?n"
    and "?n = Header_Get h ''DPoP-Nonce'' \<Longrightarrow> \<exists>hw3. serve demo_jose demo_std ?cfg demo_validate ?env (recording demo_app ?env)
        (demo_dpop_request ?n) new_response (demo_server_world ()) = recording demo_app ?env
          (downstream (demo_dpop_request ?n) ''token'' demo_holder_claims) (rotate_nonce (mc_DPoP ?cfg) ?env new_response) hw3"
    unfolding env demo_nonce_issue fresh by blast
  from h n this(3) [OF n [symmetric]] show ?thesis unfolding Let_def by blast
qed

section \<open>MCP: from a token to a tool\<close>

text \<open>C9: end to end over MCP: a token the verifier accepts gives the gate the claims the validator returned
  for it, and behind the gate a tool guarded by a composed policy is invoked exactly when those claims
  satisfy the boolean meaning of the policy; a denied call never reaches the tool.\<close>

theorem mcp_tool_call_end_to_end:
  fixes h :: "('p, 't, 'r, 'w) method_handler"
  assumes "newVerifierFunc jo std iv validate dv baseURL now cnow ctx token req s = (Inr ti, s')"
    and "map_of ctx' CtxClaimsKey = None" "map_of ctx' TokenInfoKey = Some (VTokenInfo ti)"
    and "tg_Policies g name = Some (Some (compile p))"
  shows "\<exists>c. fst (validate (ms_validator s) ctx token) = Inr c
    \<and> (if permits p c
       then gate_Middleware g t h ctx' ''tools/call'' (CallToolParamsRaw name args) w
            = h ctx' ''tools/call'' (CallToolParamsRaw name args) (gate_record g (toolEvent c name ''granted'' [] t) w)
       else \<exists>err w'. \<forall>h' :: ('p, 't, 'r, 'w) method_handler.
            gate_Middleware g t h' ctx' ''tools/call'' (CallToolParamsRaw name args) w = ((None, Some err), w'))"
proof (rule newVerifierFunc_accepts [OF assms(1)])
  fix c
  assume v: "validate (ms_validator s) ctx token = (Inr c, ms_validator s')"
    and ti: "ti = (toTokenInfo c)\<lparr>TI_Extra := (TI_Extra (toTokenInfo c))(rawTokenExtraKey \<mapsto> XString token)\<rparr>"
  have "TI_Extra ti claimsExtraKey = Some (XClaims c)" by (simp add: ti toTokenInfo_def)
  then have c: "ClaimsFromContext ctx' = Some c" using ClaimsFromContext_info [OF assms(2,3)] by simp
  have e: "evaluate g ctx' c name = None \<longleftrightarrow> permits p c"
    using assms(4) by (simp add: evaluate_def policyFor_def compile_decides)
  show ?thesis
  proof (cases "permits p c")
    case True
    with gateCall_admits [OF c, of g name t h args w] e v show ?thesis by (intro exI [of _ c]) simp
  next
    case False
    then have "\<not> may_use g ctx' name" using c e by (simp add: may_use_evaluate)
    from gateCall_denies [OF this, of t args w] obtain e' err
      where "\<And>h' :: ('p, 't, 'r, 'w) method_handler.
        gate_Middleware g t h' ctx' ''tools/call'' (CallToolParamsRaw name args) w = ((None, Some err), gate_record g e' w)"
      by blast
    with v False show ?thesis by (intro exI [of _ c]) simp
  qed
qed

definition demo_policy_gate :: "event list tool_gate" where
  "demo_policy_gate = \<lparr>tg_Policies = [''admin'' \<mapsto> Some (compile (PAnyOf [PHasScopes [''admin''], PAllowAll]))], tg_Default = None,
     tg_Audit = Some (\<lambda>e w. w @ [e])\<rparr>"

definition demo_reply :: "(nat, nat, nat, event list) method_handler" where
  "demo_reply ctx m req w = ((Some (OtherResult 1), None), w)"

theorem mcp_tool_call_end_to_end_witness:
  "let c = claimsFromToken (demo_token ''iss''); ctx = [(TokenInfoKey, VTokenInfo (demo_info c ''tok''))] in
   gate_Middleware demo_policy_gate 0 demo_reply ctx ''tools/call'' (CallToolParamsRaw ''admin'' 0) []
     = demo_reply ctx ''tools/call'' (CallToolParamsRaw ''admin'' 0) (gate_record demo_policy_gate (toolEvent c ''admin'' ''granted'' [] 0) [])"
proof -
  let ?c = "claimsFromToken (demo_token ''iss'')" and ?val = "\<lambda>v ctx b. (Inr (claimsFromToken (demo_token ''iss'')), v)"
  let ?ctx = "[(TokenInfoKey, VTokenInfo (demo_info ?c ''tok''))]"
  have e: "newVerifierFunc demo_jose demo_std ''invalid token'' ?val None [] 0 0 [] ''tok'' None demo_mcp_state
      = (Inr (demo_info ?c ''tok''), demo_mcp_state)"
    by (simp add: newVerifierFunc_def demo_info_def Let_def demo_mcp_state_def)
  have p: "tg_Policies demo_policy_gate ''admin'' = Some (Some (compile (PAnyOf [PHasScopes [''admin''], PAllowAll])))"
    by (simp add: demo_policy_gate_def)
  show ?thesis
    using mcp_tool_call_end_to_end [OF e _ _ p, of ?ctx 0 demo_reply 0 "[]"] by (simp add: Let_def)
qed

section \<open>Answers of a middleware over introspection\<close>

text \<open>C15: the answers of the HTTP middleware over an introspection validator are typed. A request is admitted,
  or it is answered without the application by a 401, a 429 or (when the endpoint gave no verdict) a 503,
  always marked no-store and with a challenge; never by an internal error.\<close>

theorem introspection_middleware_answers:
  assumes "rs_sent w = None"
  shows "(\<exists>bearer c hw'. admitted jo std cfg (intro_Validate sha v cnow now) env r hw bearer c hw')
    \<or> (\<exists>code h e. rs_sent (fst (serve jo std cfg (intro_Validate sha v cnow now) env next_handler r w hw)) = Some (code, h)
         \<and> (code = 401 \<or> code = 429 \<or> code = 503 \<and> Code e = ''introspection_unavailable'')
         \<and> HTTPStatus e = code \<and> Header_Get h ''Cache-Control'' = ''no-store''
         \<and> Header_Get h ''WWW-Authenticate'' = buildWWWAuthenticate e (mc_ResourceMetadataURL cfg) (mc_Scopes cfg))"
proof (cases rule: serve_cases [where jo = jo and std = std and cfg = cfg and validate = "intro_Validate sha v cnow now"
      and env = env and r = r and hw = hw and w = w])
  case (admit bearer c hw')
  then show ?thesis by blast
next
  case (deny err w' hw')
  have "\<exists>e. errors_As err = Some e \<and> (HTTPStatus e = 401 \<or> HTTPStatus e = 429
      \<or> HTTPStatus e = 503 \<and> Code e = ''introspection_unavailable'')"
    using deny(5)
  proof (elim disjE exE)
    fix b c
    assume "fst (dpop_step jo std cfg env r b c (hw_replay hw)) = Some err"
    then obtain dv inp where "fst (Enforce jo std dv inp (re_enforce env) (re_cache env) (hw_replay hw)) = Some err"
      by (auto simp: dpop_step_def split: option.splits)
    then show ?thesis
      by (cases rule: Enforce_cases [of inp dv jo std "re_enforce env" "re_cache env" "hw_replay hw"])
        (auto simp: holder_outcome_def dpop_reject_def sentinel_defs split: if_splits prod.splits)
  qed (auto simp: sentinel_defs dest: intro_Validate_error)
  then obtain e where e: "errors_As err = Some e" and st: "HTTPStatus e = 401 \<or> HTTPStatus e = 429
      \<or> HTTPStatus e = 503 \<and> Code e = ''introspection_unavailable''" by blast
  have keys: "CanonicalHeaderKey ''WWW-Authenticate'' \<noteq> CanonicalHeaderKey ''Cache-Control''" by code_simp
  have "\<not> informational (HTTPStatus e)" using st by (auto simp: informational_def)
  from writeAuthError_sent [OF _ e this, of w' cfg hw'] deny assms keys st show ?thesis by (auto simp del: One_nat_def)
qed

theorem introspection_middleware_answers_witness:
  "let run = serve demo_jose demo_std (demo_server_config None) (intro_Validate (\<lambda>x. x) (demo_intro (demo_client 200 demo_answer)) 0 0)
       (demo_env 0) (recording demo_app (demo_env 0)) (demo_request []) new_response (demo_server_world (demo_intro_state ()))
   in \<exists>code h. rs_sent (fst run) = Some (code, h) \<and> code \<in> {401, 429, 503} \<and> Header_Get h ''Cache-Control'' = ''no-store''"
proof -
  have "extractBearer (demo_request []) \<noteq> Inr b" for b
    by (simp add: extractBearer_def demo_request_def Header_Get_def Header_Values_def CanonicalHeaderKey_def ascii_upper_def ascii_lower_def)
  then have "\<not> admitted demo_jose demo_std (demo_server_config None) (intro_Validate (\<lambda>x. x) (demo_intro (demo_client 200 demo_answer)) 0 0)
      (demo_env 0) (demo_request []) (demo_server_world (demo_intro_state ())) b c hw'" for b c hw'
    by (simp add: admitted_def)
  moreover have "rs_sent new_response = None" by (simp add: new_response_def)
  ultimately show ?thesis
    using introspection_middleware_answers [of new_response demo_jose demo_std "demo_server_config None" "\<lambda>x. x"
        "demo_intro (demo_client 200 demo_answer)" 0 0 "demo_env 0" "demo_request []" "demo_server_world (demo_intro_state ())"
        "recording demo_app (demo_env 0)"]
    by (auto simp: Let_def)
qed

section \<open>Acting on behalf of the caller\<close>

text \<open>C16: a handler behind the middleware that asks for a downstream token gets one for its own caller only:
  what TokenForCaller returns there was issued, now or in an earlier exchange, for the admitted token's own
  request or for one with the same cache key; and when the audience and scopes the handler named, and those
  (with the token types) of that other request, contain no separator character and the scopes are
  non-empty words, it was issued for the subject of the admitted token, whatever that subject is, the
  audience the handler named and the same scopes up to order. Without that condition another caller whose
  key collides can be served the token.\<close>

theorem on_behalf_of_caller:
  assumes "x_get x = x_Cache_Get" and "x_put x = x_Cache_Set"
    and "s = x_calls x (x_new_state leeway a n w) calls"
    and "admitted jo std cfg validate env r hw bearer c hw'"
    and "TokenForCaller x ck (rq_Context (downstream r bearer c)) audience scope s = (Inr tok, s')"
    and "req = \<lparr>xr_SubjectToken = bearer, xr_Subject = Subject c, xr_Audience = audience, xr_Resource = [], xr_Scope = scope,
           xr_ActorToken = [], xr_SubjectTokenType = [], xr_RequestedTokenType = []\<rparr>"
  shows "extractBearer r = Inr bearer
    \<and> (\<exists>q. (q, tok) \<in> set (x_grants x (x_new_state leeway a n w) (calls @ [(ck, req)]))
        \<and> (q = req \<or> xr_Subject q \<noteq> [] \<and> Subject c \<noteq> [] \<and> x_key q = x_key req)
        \<and> (CHR ''|'' \<notin> set audience \<and> list_all (\<lambda>w. w \<noteq> [] \<and> CHR '' '' \<notin> set w \<and> CHR ''|'' \<notin> set w) scope \<and> key_safe q \<longrightarrow>
             xr_Subject q = Subject c \<and> xr_Audience q = audience \<and> mset (xr_Scope q) = mset scope))"
proof -
  have "Exchange x ck req s = (Inr tok, s')"
    using assms(5) by (auto simp: TokenForCaller_def assms(6) split: if_splits)
  from Exchange_isolated [OF assms(1-3) this] show ?thesis
    using assms(4) by (auto simp: admitted_def same_caller_def key_safe_def assms(6))
qed

theorem on_behalf_of_caller_witness:
  "let x = demo_exchanger (demo_as 200 demo_grant []); c = claimsFromToken (demo_token ''iss'') in
   \<exists>tok s' q. TokenForCaller x (demo_clock 0) (rq_Context (downstream (demo_request ''Bearer iss'') ''iss'' c)) ''api'' [''read''] (demo_xstate ())
       = (Inr tok, s')
     \<and> (q, tok) \<in> set (x_grant x (demo_clock 0) \<lparr>xr_SubjectToken = ''iss'', xr_Subject = Subject c, xr_Audience = ''api'', xr_Resource = [],
           xr_Scope = [''read''], xr_ActorToken = [], xr_SubjectTokenType = [], xr_RequestedTokenType = []\<rparr> (demo_xstate ()))
     \<and> xr_Subject q = ''u'' \<and> xr_Audience q = ''api''"
proof -
  let ?x = "demo_exchanger (demo_as 200 demo_grant [])" and ?c = "claimsFromToken (demo_token ''iss'')"
  let ?req = "\<lparr>xr_SubjectToken = ''iss'', xr_Subject = Subject ?c, xr_Audience = ''api'', xr_Resource = [], xr_Scope = [''read''],
           xr_ActorToken = [], xr_SubjectTokenType = [], xr_RequestedTokenType = []\<rparr>"
  have sub: "Subject ?c = ''u''" by (simp add: claimsFromToken_def demo_token_def Let_def)
  obtain tok s' where ex: "Exchange ?x (demo_clock 0) ?req (demo_xstate ()) = (Inr tok, s')"
    using demo_exchange [of ?req 0] by auto
  then have t: "TokenForCaller ?x (demo_clock 0) (rq_Context (downstream (demo_request ''Bearer iss'') ''iss'' ?c)) ''api'' [''read''] (demo_xstate ())
      = (Inr tok, s')"
    by (simp add: TokenForCaller_def)
  have st: "demo_xstate () = x_calls ?x (x_new_state (30 * second) () () []) []" by (simp add: demo_xstate_new)
  obtain q where q: "(q, tok) \<in> set (x_grant ?x (demo_clock 0) ?req (demo_xstate ()))"
    "key_safe q \<longrightarrow> xr_Subject q = Subject ?c \<and> xr_Audience q = ''api''"
    using on_behalf_of_caller [OF demo_exchanger_sel(3,4) st demo_admitted t refl] by (auto simp: demo_xstate_new)
  moreover have "key_safe q" using x_grant_request [OF q(1)] by (simp add: key_safe_def)
  ultimately show ?thesis using t sub unfolding Let_def by auto
qed

end
